theory Spec2Isabelle
  imports Main "HOL-Library.Sublist"
begin

section \<open>Data model\<close>

text \<open>
  The availability sync of \<^verbatim>\<open>src/server/lib/availabilitySync.ts\<close> works on the entities
  \<^verbatim>\<open>Media\<close> and \<^verbatim>\<open>Season\<close>. Both carry the column pair \<^verbatim>\<open>status\<close>/\<^verbatim>\<open>status4k\<close>, so both records
  extend one record with these two fields. The enum \<^verbatim>\<open>MediaStatus\<close> has the six values
  the entities can hold.
\<close>

datatype MediaStatus = UNKNOWN | PENDING | PROCESSING | PARTIALLY_AVAILABLE | AVAILABLE | DELETED

datatype MediaType = MOVIE | TV

datatype MediaRequestStatus = REQUEST_PENDING | APPROVED | DECLINED | FAILED | COMPLETED

record StatusPair =
  status :: MediaStatus
  status4k :: MediaStatus

record Season = StatusPair +
  seasonNumber :: int

text \<open>
  \<^verbatim>\<open>media.seasons\<close> is an array of references to season objects: the run loop iterates the
  array it was loaded with while \<^verbatim>\<open>seasonExistsInSonarr\<close> replaces \<^verbatim>\<open>media.seasons\<close> by a copy
  that holds one more reference to the season at hand. The season objects live in
  \<open>seasonHeap\<close>, addressed by position; \<open>seasons\<close> is the array of addresses.
\<close>

record Media = StatusPair +
  mediaId :: int
  tmdbId :: int
  mediaType :: MediaType
  serviceId :: "int option"
  serviceId4k :: "int option"
  externalServiceId :: "int option"
  externalServiceId4k :: "int option"
  externalServiceSlug :: "string option"
  externalServiceSlug4k :: "string option"
  ratingKey :: "string option"
  ratingKey4k :: "string option"
  seasons :: "nat list"
  seasonHeap :: "Season list"

record MediaRequest =
  request_mediaId :: int
  request_status :: MediaRequestStatus
  request_is4k :: bool

record ServerSettings =
  serverId :: int
  is4k :: bool
  syncEnabled :: bool
  apiKey :: string

record User =
  userId :: int
  plexToken :: "string option"

datatype PlexAPI = PlexAPI "string option"

text \<open>What the engine reads of the answers of Plex, Radarr and Sonarr.\<close>

datatype PlexMetadata = PlexMetadata (index: int)

datatype RadarrMovie = RadarrMovie (hasFile: bool)

datatype SonarrSeason = SonarrSeason (sonarr_seasonNumber: int) (statistics_episodeFileCount: "int option")

datatype SonarrSeries = SonarrSeries (series_seasons: "SonarrSeason list") (series_episodeFileCount: int)

text \<open>An awaited call either throws an error with a message or returns.\<close>

datatype 'a resp = Throws string | Returns 'a

datatype level = Info | Warn | Warning | Debug | Error

text \<open>
  The collaborators, fixed during a run: the settings, the user table, the three remote
  services, whether the repository rejects a save, and the moments at which \<^verbatim>\<open>cancel()\<close>
  is called from outside (\<open>cancel_during w n\<close>: while the \<open>n\<close>-th record of the run is in
  flight).

  The module \<^verbatim>\<open>@server/logger\<close> is not among the sources, so what its logger offers is
  fixed by the world as well: \<open>logger_has_warning\<close> says whether the logger has a method
  \<^verbatim>\<open>warning\<close> besides the methods \<^verbatim>\<open>info\<close>, \<^verbatim>\<open>warn\<close>, \<^verbatim>\<open>debug\<close> and \<^verbatim>\<open>error\<close> that the engine
  calls. A winston logger with the npm levels, to which these four belong, has none.
\<close>

record world =
  settings_radarr :: "ServerSettings list"
  settings_sonarr :: "ServerSettings list"
  admin :: "User option"
  requests :: "MediaRequest list"
  plex_getMetadata :: "PlexAPI \<Rightarrow> string \<Rightarrow> PlexMetadata option resp"
  plex_getChildrenMetadata :: "PlexAPI \<Rightarrow> string \<Rightarrow> PlexMetadata list option resp"
  radarr_getMovie :: "ServerSettings \<Rightarrow> int \<Rightarrow> RadarrMovie resp"
  sonarr_getSeriesById :: "ServerSettings \<Rightarrow> int \<Rightarrow> SonarrSeries resp"
  save_throws :: "Media \<Rightarrow> string option"
  cancel_during :: "nat \<Rightarrow> bool"
  logger_has_warning :: bool

text \<open>
  The fields of the \<^verbatim>\<open>AvailabilitySync\<close> singleton, followed by what its collaborators
  hold: the \<^verbatim>\<open>Media\<close> table, the calls of \<^verbatim>\<open>mediaRepository.save\<close> in order, the logger's
  output, and the number of records the run has started.
\<close>

record state =
  running :: bool
  plexClient :: "PlexAPI option"
  plexSeasonsCache :: "string \<rightharpoonup> PlexMetadata list"
  sonarrSeasonsCache :: "(int \<times> int option) \<rightharpoonup> SonarrSeason list"
  radarrServers :: "ServerSettings list"
  sonarrServers :: "ServerSettings list"
  db :: "Media list"
  saves :: "Media list"
  logs :: "(level \<times> string \<times> string option) list"
  started :: nat

section \<open>Helpers\<close>

text \<open>JavaScript truthiness of a nullable number and of a nullable string.\<close>

definition truthyNum :: "int option \<Rightarrow> bool" where
  "truthyNum x = (case x of None \<Rightarrow> False | Some n \<Rightarrow> n \<noteq> 0)"

definition truthyStr :: "string option \<Rightarrow> bool" where
  "truthyStr x = (case x of None \<Rightarrow> False | Some k \<Rightarrow> k \<noteq> [])"

text \<open>\<^verbatim>\<open>String.prototype.includes\<close>.\<close>

fun includesStr :: "string \<Rightarrow> string \<Rightarrow> bool" where
  "includesStr [] sub = (sub = [])"
| "includesStr (c # cs) sub = (prefix sub (c # cs) \<or> includesStr cs sub)"

text \<open>
  A call of the logger: level, message, and the \<^verbatim>\<open>errorMessage\<close> of the metadata where the
  call passes one. Interpolated ids are left out of the messages.
\<close>

definition loggerMeta :: "level \<Rightarrow> string \<Rightarrow> string option \<Rightarrow> state \<Rightarrow> state" where
  "loggerMeta lvl msg errorMessage s = s\<lparr>logs := logs s @ [(lvl, msg, errorMessage)]\<rparr>"

definition logger :: "level \<Rightarrow> string \<Rightarrow> state \<Rightarrow> state" where
  "logger lvl msg s = loggerMeta lvl msg None s"

text \<open>
  \<^verbatim>\<open>mediaRepository.save(media)\<close>: the call is recorded; it either throws or replaces the
  row of that id.
\<close>

definition save :: "world \<Rightarrow> Media \<Rightarrow> state \<Rightarrow> string option \<times> state" where
  "save w media s =
     (let s1 = s\<lparr>saves := saves s @ [media]\<rparr>
      in case save_throws w media of
           Some msg \<Rightarrow> (Some msg, s1)
         | None \<Rightarrow> (None, s1\<lparr>db := map (\<lambda>row. if mediaId row = mediaId media then media else row) (db s1)\<rparr>))"

section \<open>The engine of \<^verbatim>\<open>src/server/lib/availabilitySync.ts\<close>\<close>

subsection \<open>\<^verbatim>\<open>mediaUpdater\<close>\<close>

text \<open>The body of the \<^verbatim>\<open>forEach\<close> over \<^verbatim>\<open>media.seasons\<close>, at the season of address \<open>r\<close>.\<close>

definition markSeasonDeleted :: "bool \<Rightarrow> Media \<Rightarrow> nat \<Rightarrow> Media" where
  "markSeasonDeleted is4kFlag media r =
     (let season = seasonHeap media ! r
      in if is4kFlag then
           (if status4k season = AVAILABLE
            then media\<lparr>seasonHeap := (seasonHeap media)[r := season\<lparr>status4k := DELETED\<rparr>]\<rparr>
            else media)
         else
           (if status season = AVAILABLE
            then media\<lparr>seasonHeap := (seasonHeap media)[r := season\<lparr>status := DELETED\<rparr>]\<rparr>
            else media))"

text \<open>
  The callers do not await \<^verbatim>\<open>mediaUpdater\<close>; it runs up to its \<^verbatim>\<open>save\<close> before they go on.
  The save is taken at the moment of the call.
\<close>

definition mediaUpdater :: "world \<Rightarrow> Media \<Rightarrow> bool \<Rightarrow> state \<Rightarrow> Media \<times> state" where
  "mediaUpdater w media is4kFlag s =
     (let s1 = logger Info ''Media does not exist in your Sonarr/Radarr and Plex instance. Status will be changed to deleted.'' s;
          media1 = (if is4kFlag
                    then media\<lparr>status4k := DELETED, serviceId4k := None, externalServiceId4k := None,
                               externalServiceSlug4k := None, ratingKey4k := None\<rparr>
                    else media\<lparr>status := DELETED, serviceId := None, externalServiceId := None,
                               externalServiceSlug := None, ratingKey := None\<rparr>);
          media2 = (if mediaType media1 = TV
                    then foldl (markSeasonDeleted is4kFlag) media1 (seasons media1)
                    else media1)
      in case save w media2 s1 of
           (Some msg, s2) \<Rightarrow> (media2, loggerMeta Debug ''Failure updating media'' (Some msg) s2)
         | (None, s2) \<Rightarrow> (media2, s2))"

subsection \<open>\<^verbatim>\<open>mediaExistsInRadarr\<close>\<close>

text \<open>The two fetches at the head of the \<^verbatim>\<open>try\<close> block: what \<^verbatim>\<open>radarr\<close> holds after them.\<close>

definition radarrProbe :: "world \<Rightarrow> Media \<Rightarrow> ServerSettings \<Rightarrow> RadarrMovie option resp" where
  "radarrProbe w media server =
     (case (if \<not> is4k server \<and> truthyNum (externalServiceId media)
            then (case radarr_getMovie w server (the (externalServiceId media)) of
                    Throws msg \<Rightarrow> Throws msg
                  | Returns movie \<Rightarrow> Returns (Some movie))
            else Returns None) of
        Throws msg \<Rightarrow> Throws msg
      | Returns radarr \<Rightarrow>
          (if is4k server \<and> truthyNum (externalServiceId4k media)
           then (case radarr_getMovie w server (the (externalServiceId4k media)) of
                   Throws msg \<Rightarrow> Throws msg
                 | Returns movie \<Rightarrow> Returns (Some movie))
           else Returns radarr))"

text \<open>One pass of the loop over \<^verbatim>\<open>this.radarrServers\<close>.\<close>

definition radarrStep :: "world \<Rightarrow> Media \<Rightarrow> bool \<times> bool \<times> state \<Rightarrow> ServerSettings \<Rightarrow> bool \<times> bool \<times> state" where
  "radarrStep w media acc server =
     (case acc of (existsInRadarr, existsInRadarr4k, s) \<Rightarrow>
        (case radarrProbe w media server of
           Returns radarr \<Rightarrow>
             (let noFile = (case radarr of None \<Rightarrow> True | Some movie \<Rightarrow> \<not> hasFile movie)
              in (if \<not> is4k server \<and> noFile then False else existsInRadarr,
                  if is4k server \<and> noFile then False else existsInRadarr4k,
                  s))
         | Throws msg \<Rightarrow>
             (if \<not> is4k server then False else existsInRadarr,
              if is4k server then False else existsInRadarr4k,
              loggerMeta Debug ''Failure retrieving media from your Radarr.'' (Some msg) s)))"

definition mediaExistsInRadarr :: "world \<Rightarrow> Media \<Rightarrow> bool \<Rightarrow> bool \<Rightarrow> state \<Rightarrow> bool \<times> Media \<times> state" where
  "mediaExistsInRadarr w media existsInPlex existsInPlex4k s =
     (case foldl (radarrStep w media) (True, True, s) (radarrServers s) of
        (existsInRadarr, existsInRadarr4k, s1) \<Rightarrow>
     (case (if \<not> existsInRadarr \<and> (existsInRadarr4k \<or> existsInPlex4k) \<and> \<not> existsInPlex
               \<and> status media \<noteq> DELETED \<and> status media \<noteq> UNKNOWN
            then mediaUpdater w media False s1 else (media, s1)) of
        (media1, s2) \<Rightarrow>
     (case (if (existsInRadarr \<or> existsInPlex) \<and> \<not> existsInRadarr4k \<and> \<not> existsInPlex4k
               \<and> status4k media1 \<noteq> DELETED \<and> status4k media1 \<noteq> UNKNOWN
            then mediaUpdater w media1 True s2 else (media1, s2)) of
        (media2, s3) \<Rightarrow>
     (existsInRadarr \<or> existsInRadarr4k \<or> existsInPlex \<or> existsInPlex4k, media2, s3))))"

subsection \<open>\<^verbatim>\<open>mediaExistsInSonarr\<close>\<close>

text \<open>
  A key of \<^verbatim>\<open>sonarrSeasonsCache\<close> is the template string of the server id and the external
  id; the pair of the two stands for it.
\<close>

definition sonarrFetch :: "world \<Rightarrow> ServerSettings \<Rightarrow> int option \<Rightarrow> state \<Rightarrow> (SonarrSeries option \<times> state) resp" where
  "sonarrFetch w server ext s =
     (case sonarr_getSeriesById w server (the ext) of
        Throws msg \<Rightarrow> Throws msg
      | Returns sonarr \<Rightarrow>
          Returns (Some sonarr,
                   s\<lparr>sonarrSeasonsCache := (sonarrSeasonsCache s)((serverId server, ext) \<mapsto> series_seasons sonarr)\<rparr>))"

definition sonarrStep :: "world \<Rightarrow> Media \<Rightarrow> bool \<times> bool \<times> state \<Rightarrow> ServerSettings \<Rightarrow> bool \<times> bool \<times> state" where
  "sonarrStep w media acc server =
     (case acc of (existsInSonarr, existsInSonarr4k, s) \<Rightarrow>
        (let failed = (\<lambda>msg s'.
               (if \<not> is4k server then False else existsInSonarr,
                if is4k server then False else existsInSonarr4k,
                loggerMeta Debug ''Failure retrieving media from your Sonarr.'' (Some msg) s'))
         in case (if \<not> is4k server \<and> truthyNum (externalServiceId media)
                  then sonarrFetch w server (externalServiceId media) s
                  else Returns (None, s)) of
              Throws msg \<Rightarrow> failed msg s
            | Returns (sonarr1, s1) \<Rightarrow>
                (case (if is4k server \<and> truthyNum (externalServiceId4k media)
                       then sonarrFetch w server (externalServiceId4k media) s1
                       else Returns (sonarr1, s1)) of
                   Throws msg \<Rightarrow> failed msg s1
                 | Returns (sonarr, s2) \<Rightarrow>
                     (let noFiles = (case sonarr of None \<Rightarrow> True
                                     | Some series \<Rightarrow> series_episodeFileCount series = 0)
                      in (if \<not> is4k server \<and> noFiles then False else existsInSonarr,
                          if is4k server \<and> noFiles then False else existsInSonarr4k,
                          s2)))))"

definition mediaExistsInSonarr :: "world \<Rightarrow> Media \<Rightarrow> bool \<Rightarrow> bool \<Rightarrow> state \<Rightarrow> bool \<times> Media \<times> state" where
  "mediaExistsInSonarr w media existsInPlex existsInPlex4k s =
     (case foldl (sonarrStep w media) (True, True, s) (sonarrServers s) of
        (existsInSonarr, existsInSonarr4k, s1) \<Rightarrow>
     (case (if \<not> existsInSonarr \<and> (existsInSonarr4k \<or> existsInPlex4k) \<and> \<not> existsInPlex
               \<and> status media \<noteq> DELETED \<and> status media \<noteq> UNKNOWN
            then mediaUpdater w media False s1 else (media, s1)) of
        (media1, s2) \<Rightarrow>
     (case (if (existsInSonarr \<or> existsInPlex) \<and> \<not> existsInSonarr4k \<and> \<not> existsInPlex4k
               \<and> status4k media1 \<noteq> DELETED \<and> status4k media1 \<noteq> UNKNOWN
            then mediaUpdater w media1 True s2 else (media1, s2)) of
        (media2, s3) \<Rightarrow>
     (existsInSonarr \<or> existsInSonarr4k \<or> existsInPlex \<or> existsInPlex4k, media2, s3))))"

subsection \<open>\<^verbatim>\<open>seasonExistsInSonarr\<close>\<close>

text \<open>
  \<^verbatim>\<open>this.sonarrSeasonsCache[key] ?? (await api.getSeriesById(id)).seasons\<close>, followed by the
  store of the result under the same key.
\<close>

definition cachedSeasons :: "world \<Rightarrow> ServerSettings \<Rightarrow> int option \<Rightarrow> state \<Rightarrow> (SonarrSeason list option \<times> state) resp" where
  "cachedSeasons w server ext s =
     (case (case sonarrSeasonsCache s (serverId server, ext) of
              Some cached \<Rightarrow> Returns cached
            | None \<Rightarrow> (case sonarr_getSeriesById w server (the ext) of
                         Throws msg \<Rightarrow> Throws msg
                       | Returns sonarr \<Rightarrow> Returns (series_seasons sonarr))) of
        Throws msg \<Rightarrow> Throws msg
      | Returns sonarrSeasons \<Rightarrow>
          Returns (Some sonarrSeasons,
                   s\<lparr>sonarrSeasonsCache := (sonarrSeasonsCache s)((serverId server, ext) \<mapsto> sonarrSeasons)\<rparr>))"

text \<open>\<^verbatim>\<open>sonarrSeasons?.find(...)\<close>, read as a truth value.\<close>

definition seasonIsUnavailable :: "Season \<Rightarrow> SonarrSeason list option \<Rightarrow> bool" where
  "seasonIsUnavailable season sonarrSeasons =
     (case sonarrSeasons of
        None \<Rightarrow> False
      | Some entries \<Rightarrow>
          list_ex (\<lambda>entry. seasonNumber season = sonarr_seasonNumber entry
                             \<and> statistics_episodeFileCount entry = Some 0) entries)"

text \<open>One pass of the loop over \<^verbatim>\<open>this.sonarrServers\<close>.\<close>

definition sonarrSeasonStep :: "world \<Rightarrow> Media \<Rightarrow> Season \<Rightarrow> bool \<times> bool \<times> state \<Rightarrow> ServerSettings \<Rightarrow> bool \<times> bool \<times> state" where
  "sonarrSeasonStep w media season acc server =
     (case acc of (seasonExistsInSonarr, seasonExistsInSonarr4k, s) \<Rightarrow>
        (let failed = (\<lambda>msg s'.
               (if \<not> is4k server then False else seasonExistsInSonarr,
                if is4k server then False else seasonExistsInSonarr4k,
                loggerMeta Debug ''Failure retrieving media from your Sonarr.'' (Some msg) s'));
             sonarrSeasons0 = sonarrSeasonsCache s
               (serverId server,
                if \<not> is4k server then externalServiceId media else externalServiceId4k media)
         in case (if \<not> is4k server \<and> truthyNum (externalServiceId media)
                  then cachedSeasons w server (externalServiceId media) s
                  else Returns (sonarrSeasons0, s)) of
              Throws msg \<Rightarrow> failed msg s
            | Returns (sonarrSeasons1, s1) \<Rightarrow>
                (case (if is4k server \<and> truthyNum (externalServiceId4k media)
                       then cachedSeasons w server (externalServiceId4k media) s1
                       else Returns (sonarrSeasons1, s1)) of
                   Throws msg \<Rightarrow> failed msg s1
                 | Returns (sonarrSeasons, s2) \<Rightarrow>
                     (let unavailable = seasonIsUnavailable season sonarrSeasons
                      in (if \<not> is4k server \<and> unavailable then False else seasonExistsInSonarr,
                          if is4k server \<and> unavailable then False else seasonExistsInSonarr4k,
                          s2)))))"

text \<open>Lines 510 to 527: the season at \<open>r\<close> is gone from the non-4k instances only.\<close>

definition removeSeason :: "Media \<Rightarrow> nat \<Rightarrow> state \<Rightarrow> Media \<times> state" where
  "removeSeason media r s =
     (let season = seasonHeap media ! r
      in if status season \<noteq> DELETED \<and> status season \<noteq> UNKNOWN then
           (let s1 = logger Info ''Season does not exist in your non-4k Sonarr and Plex instance. Status will be changed to deleted.'' s;
                media1 = media\<lparr>seasonHeap := (seasonHeap media)[r := season\<lparr>status := DELETED\<rparr>]\<rparr>
            in if status media1 = AVAILABLE
               then (media1\<lparr>status := PARTIALLY_AVAILABLE\<rparr>,
                     logger Info ''Marking media as PARTIALLY_AVAILABLE because season removal has occurred.'' s1)
               else (media1, s1))
         else (media, s))"

text \<open>Lines 535 to 552: the same for the 4k instances.\<close>

definition removeSeason4k :: "Media \<Rightarrow> nat \<Rightarrow> state \<Rightarrow> Media \<times> state" where
  "removeSeason4k media r s =
     (let season = seasonHeap media ! r
      in if status4k season \<noteq> DELETED \<and> status4k season \<noteq> UNKNOWN then
           (let s1 = logger Info ''Season does not exist in your 4k Sonarr and Plex instance. Status will be changed to deleted.'' s;
                media1 = media\<lparr>seasonHeap := (seasonHeap media)[r := season\<lparr>status4k := DELETED\<rparr>]\<rparr>
            in if status4k media1 = AVAILABLE
               then (media1\<lparr>status4k := PARTIALLY_AVAILABLE\<rparr>,
                     logger Info ''Marking media as PARTIALLY_AVAILABLE because season removal has occurred.'' s1)
               else (media1, s1))
         else (media, s))"

definition seasonExistsInSonarr :: "world \<Rightarrow> Media \<Rightarrow> nat \<Rightarrow> bool \<Rightarrow> bool \<Rightarrow> state \<Rightarrow> bool \<times> Media \<times> state" where
  "seasonExistsInSonarr w media r seasonExistsInPlex seasonExistsInPlex4k s =
     (case foldl (sonarrSeasonStep w media (seasonHeap media ! r)) (True, True, s) (sonarrServers s) of
        (seasonExistsInSonarr, seasonExistsInSonarr4k, s1) \<Rightarrow>
     (case (if \<not> seasonExistsInSonarr \<and> (seasonExistsInSonarr4k \<or> seasonExistsInPlex4k)
               \<and> \<not> seasonExistsInPlex
            then removeSeason media r s1 else (media, s1)) of
        (media1, s2) \<Rightarrow>
     (case (if (seasonExistsInSonarr \<or> seasonExistsInPlex) \<and> \<not> seasonExistsInSonarr4k
               \<and> \<not> seasonExistsInPlex4k
            then removeSeason4k media1 r s2 else (media1, s2)) of
        (media2, s3) \<Rightarrow>
     (case (if \<not> seasonExistsInSonarr \<or> \<not> seasonExistsInSonarr4k
            then (let media3 = media2\<lparr>seasons := seasons media2 @ [r]\<rparr>
                  in case save w media3 s3 of
                       (Some msg, s4) \<Rightarrow> (media3, loggerMeta Debug ''Failure updating media'' (Some msg) s4)
                     | (None, s4) \<Rightarrow> (media3, s4))
            else (media2, s3)) of
        (media4, s5) \<Rightarrow>
     (seasonExistsInSonarr \<or> seasonExistsInSonarr4k \<or> seasonExistsInPlex \<or> seasonExistsInPlex4k,
      media4, s5)))))"

subsection \<open>\<^verbatim>\<open>seasonExists\<close>\<close>

text \<open>
  \<^verbatim>\<open>this.plexSeasonsCache[key] ?? (await this.plexClient?.getChildrenMetadata(key)) ?? []\<close>,
  followed by the store of the result under the same key.
\<close>

definition plexChildren :: "world \<Rightarrow> string \<Rightarrow> state \<Rightarrow> (PlexMetadata list \<times> state) resp" where
  "plexChildren w key s =
     (case (case plexSeasonsCache s key of
              Some cached \<Rightarrow> Returns cached
            | None \<Rightarrow>
                (case (case plexClient s of
                         None \<Rightarrow> Returns None
                       | Some client \<Rightarrow> plex_getChildrenMetadata w client key) of
                   Throws msg \<Rightarrow> Throws msg
                 | Returns None \<Rightarrow> Returns []
                 | Returns (Some fetched) \<Rightarrow> Returns fetched)) of
        Throws msg \<Rightarrow> Throws msg
      | Returns children \<Rightarrow>
          Returns (children, s\<lparr>plexSeasonsCache := (plexSeasonsCache s)(key \<mapsto> children)\<rparr>))"

text \<open>\<^verbatim>\<open>children?.find((child) => child.index === season.seasonNumber)\<close>, read as a truth value.\<close>

definition hasChild :: "Season \<Rightarrow> PlexMetadata list \<Rightarrow> bool" where
  "hasChild season children = list_ex (\<lambda>child. index child = seasonNumber season) children"

text \<open>
  The \<^verbatim>\<open>try\<close> block of \<^verbatim>\<open>seasonExists\<close>: the two flags, the message of the error that left
  the block if one did, and the state.
\<close>

definition seasonPlexProbe :: "world \<Rightarrow> Media \<Rightarrow> Season \<Rightarrow> state \<Rightarrow> bool \<times> bool \<times> string option \<times> state" where
  "seasonPlexProbe w media season s =
     (case (if truthyStr (ratingKey media)
            then (case plexChildren w (the (ratingKey media)) s of
                    Throws msg \<Rightarrow> Throws msg
                  | Returns (children, s1) \<Rightarrow> Returns (hasChild season children, s1))
            else Returns (False, s)) of
        Throws msg \<Rightarrow> (False, False, Some msg, s)
      | Returns (seasonExistsInPlex, s1) \<Rightarrow>
          (case (if truthyStr (ratingKey4k media)
                 then (case plexChildren w (the (ratingKey4k media)) s1 of
                         Throws msg \<Rightarrow> Throws msg
                       | Returns (children4k, s2) \<Rightarrow> Returns (hasChild season children4k, s2))
                 else Returns (False, s1)) of
             Throws msg \<Rightarrow> (seasonExistsInPlex, False, Some msg, s1)
           | Returns (seasonExistsInPlex4k, s2) \<Rightarrow>
               (seasonExistsInPlex, seasonExistsInPlex4k, None, s2)))"

definition seasonExists :: "world \<Rightarrow> Media \<Rightarrow> nat \<Rightarrow> state \<Rightarrow> bool \<times> Media \<times> state" where
  "seasonExists w media r s =
     (case seasonPlexProbe w media (seasonHeap media ! r) s of
        (seasonExistsInPlex, seasonExistsInPlex4k, thrown, s1) \<Rightarrow>
     (let s2 = (case thrown of
                  None \<Rightarrow> s1
                | Some msg \<Rightarrow>
                    if \<not> includesStr msg ''response code: 404''
                    then loggerMeta Debug ''Failed to retrieve plex children metadata'' (Some msg) s1
                    else s1)
      in if seasonExistsInPlex \<and> seasonExistsInPlex4k then (True, media, s2)
         else (case seasonExistsInSonarr w media r seasonExistsInPlex seasonExistsInPlex4k s2 of
                 (existsInSonarr, media1, s3) \<Rightarrow>
                   if existsInSonarr
                   then (True, media1,
                         logger Warn ''Season exists in at least one Sonarr or Plex instance. Media will be updated if set to available.'' s3)
                   else (False, media1, s3))))"

subsection \<open>\<^verbatim>\<open>mediaExists\<close>\<close>

text \<open>\<^verbatim>\<open>await this.plexClient?.getMetadata(key)\<close>, read as a truth value.\<close>

definition plexHasItem :: "world \<Rightarrow> string \<Rightarrow> state \<Rightarrow> bool resp" where
  "plexHasItem w key s =
     (case plexClient s of
        None \<Rightarrow> Returns False
      | Some client \<Rightarrow>
          (case plex_getMetadata w client key of
             Throws msg \<Rightarrow> Throws msg
           | Returns meta \<Rightarrow> Returns (meta \<noteq> None)))"

text \<open>The \<^verbatim>\<open>try\<close> block of \<^verbatim>\<open>mediaExists\<close>: the two flags and the message of the error caught.\<close>

definition mediaPlexProbe :: "world \<Rightarrow> Media \<Rightarrow> state \<Rightarrow> bool \<times> bool \<times> string option" where
  "mediaPlexProbe w media s =
     (case (if truthyStr (ratingKey media) then plexHasItem w (the (ratingKey media)) s
            else Returns False) of
        Throws msg \<Rightarrow> (False, False, Some msg)
      | Returns existsInPlex \<Rightarrow>
          (case (if truthyStr (ratingKey4k media) then plexHasItem w (the (ratingKey4k media)) s
                 else Returns False) of
             Throws msg \<Rightarrow> (existsInPlex, False, Some msg)
           | Returns existsInPlex4k \<Rightarrow> (existsInPlex, existsInPlex4k, None)))"

definition mediaExists :: "world \<Rightarrow> Media \<Rightarrow> state \<Rightarrow> bool \<times> Media \<times> state" where
  "mediaExists w media s =
     (case mediaPlexProbe w media s of
        (existsInPlex, existsInPlex4k, thrown) \<Rightarrow>
     (let s1 = (case thrown of
                  None \<Rightarrow> s
                | Some msg \<Rightarrow>
                    if \<not> includesStr msg ''response code: 404''
                    then loggerMeta Debug ''Failed to retrieve plex metadata'' (Some msg) s
                    else s)
      in if existsInPlex \<and> existsInPlex4k then (True, media, s1)
         else
           (case (if mediaType media = MOVIE
                  then (case mediaExistsInRadarr w media existsInPlex existsInPlex4k s1 of
                          (existsInRadarr, media1, s2) \<Rightarrow>
                            if existsInRadarr
                            then (True, media1,
                                  logger Warn ''Media exists in at least one Radarr or Plex instance. Media will be updated if set to available.'' s2)
                            else (False, media1, s2))
                  else (False, media, s1)) of
              (returned, media1, s2) \<Rightarrow>
                if returned then (True, media1, s2)
                else if mediaType media1 = TV
                then (case mediaExistsInSonarr w media1 existsInPlex existsInPlex4k s2 of
                        (existsInSonarr, media2, s3) \<Rightarrow>
                          if existsInSonarr
                          then (True, media2,
                                logger Warn ''Media exists in at least one Sonarr or Plex instance. Media will be updated if set to available.'' s3)
                          else (False, media2, s3))
                else (False, media1, s2))))"

subsection \<open>The body of the loop of \<^verbatim>\<open>run\<close>\<close>

text \<open>The guard of lines 59 to 64, 93 to 98 and 113 to 118.\<close>

definition notBothTerminal :: "'a StatusPair_scheme \<Rightarrow> bool" where
  "notBothTerminal x =
     ((status x \<noteq> DELETED \<or> status4k x \<noteq> DELETED) \<and> (status x \<noteq> UNKNOWN \<or> status4k x \<noteq> UNKNOWN))"

text \<open>Lines 58 to 87.\<close>

definition deleteMissingMedia :: "Media \<Rightarrow> state \<Rightarrow> Media \<times> state" where
  "deleteMissingMedia media s =
     (if notBothTerminal media then
        (media\<lparr>status := (if status media \<noteq> UNKNOWN then DELETED else UNKNOWN),
               status4k := (if status4k media \<noteq> UNKNOWN then DELETED else UNKNOWN),
               serviceId := None, serviceId4k := None,
               externalServiceId := None, externalServiceId4k := None,
               externalServiceSlug := None, externalServiceSlug4k := None,
               ratingKey := None, ratingKey4k := None\<rparr>,
         logger Info ''Media does not exist in any of your media instances. Status will be changed to deleted.'' s)
      else (media, s))"

definition deleteSeason :: "Media \<Rightarrow> nat \<Rightarrow> Media" where
  "deleteSeason media r =
     media\<lparr>seasonHeap := (seasonHeap media)[r := (seasonHeap media ! r)\<lparr>status := DELETED, status4k := DELETED\<rparr>]\<rparr>"

text \<open>Lines 127 to 145.\<close>

definition demoteMedia :: "bool \<Rightarrow> Media \<Rightarrow> state \<Rightarrow> Media \<times> state" where
  "demoteMedia didDeleteSeasons media s =
     (if didDeleteSeasons \<and> (status media = AVAILABLE \<or> status4k media = AVAILABLE) then
        (let s1 = logger Info ''Marking media as PARTIALLY_AVAILABLE because season removal has occurred.'' s;
             media1 = (if status media = AVAILABLE then media\<lparr>status := PARTIALLY_AVAILABLE\<rparr> else media);
             media2 = (if status4k media1 = AVAILABLE then media1\<lparr>status4k := PARTIALLY_AVAILABLE\<rparr> else media1)
         in (media2, s1))
      else (media, s))"

text \<open>One pass of the loop over \<^verbatim>\<open>media.seasons\<close> (lines 90 to 146), at the season of address \<open>r\<close>.\<close>

definition seasonStep :: "world \<Rightarrow> bool \<Rightarrow> bool \<times> Media \<times> state \<Rightarrow> nat \<Rightarrow> bool \<times> Media \<times> state" where
  "seasonStep w mediaExistsFlag acc r =
     (case acc of (didDeleteSeasons, media, s) \<Rightarrow>
     (case (if \<not> mediaExistsFlag \<and> notBothTerminal (seasonHeap media ! r)
            then (didDeleteSeasons, deleteSeason media r, s)
            else (case seasonExists w media r s of
                    (seasonExistsFlag, media1, s1) \<Rightarrow>
                      if \<not> seasonExistsFlag then
                        (let s2 = logger Info ''Removing season because it does not exist in any of your media instances.'' s1;
                             media2 = (if notBothTerminal (seasonHeap media1 ! r)
                                       then deleteSeason media1 r else media1)
                         in (True, media2, s2))
                      else (didDeleteSeasons, media1, s1))) of
        (didDeleteSeasons1, media3, s3) \<Rightarrow>
          (case demoteMedia didDeleteSeasons1 media3 s3 of
             (media4, s4) \<Rightarrow> (didDeleteSeasons1, media4, s4))))"

text \<open>
  Lines 52 to 150: what the loop does with one record. The first component is the message
  of the error that leaves the body, which only the last \<^verbatim>\<open>save\<close> can raise.
\<close>

definition processMedia :: "world \<Rightarrow> Media \<Rightarrow> state \<Rightarrow> string option \<times> Media \<times> state" where
  "processMedia w media s =
     (case mediaExists w media s of
        (mediaExistsFlag, media1, s1) \<Rightarrow>
     (case (if \<not> mediaExistsFlag then deleteMissingMedia media1 s1 else (media1, s1)) of
        (media2, s2) \<Rightarrow>
     (case (if mediaType media2 = TV
            then foldl (seasonStep w mediaExistsFlag) (False, media2, s2) (seasons media2)
            else (False, media2, s2)) of
        (didDeleteSeasons, media3, s3) \<Rightarrow>
          if \<not> mediaExistsFlag \<or> didDeleteSeasons
          then (case save w media3 s3 of (thrown, s4) \<Rightarrow> (thrown, media3, s4))
          else (None, media3, s3))))"

subsection \<open>\<^verbatim>\<open>run\<close>, \<^verbatim>\<open>cancel\<close> and the paginated load\<close>

definition cancel :: "state \<Rightarrow> state" where
  "cancel s = s\<lparr>running := False\<rparr>"

text \<open>
  The rows of one page come from the table as fresh entities: the array \<^verbatim>\<open>seasons\<close> of an
  entity lists each of its season rows once.
\<close>

definition loadEntity :: "Media \<Rightarrow> Media" where
  "loadEntity row = row\<lparr>seasons := [0 ..< length (seasonHeap row)]\<rparr>"

definition whereOptions :: "Media \<Rightarrow> bool" where
  "whereOptions row =
     (status row = AVAILABLE \<or> status row = PARTIALLY_AVAILABLE
      \<or> status4k row = AVAILABLE \<or> status4k row = PARTIALLY_AVAILABLE)"

definition repositoryFind :: "state \<Rightarrow> nat \<Rightarrow> nat \<Rightarrow> Media list" where
  "repositoryFind s skip takeN = map loadEntity (take takeN (drop skip (filter whereOptions (db s))))"

text \<open>
  The loop body for the records of one page, in order. A call of \<^verbatim>\<open>cancel()\<close> that arrives
  while a record is in flight takes effect when the record is done.
\<close>

fun runRecords :: "world \<Rightarrow> Media list \<Rightarrow> state \<Rightarrow> string option \<times> state" where
  "runRecords w [] s = (None, s)"
| "runRecords w (media # rest) s =
     (if \<not> running s then (Some ''Job aborted'', s)
      else (let n = started s
            in case processMedia w media (s\<lparr>started := Suc n\<rparr>) of
                 (thrown, media1, s1) \<Rightarrow>
                   (let s2 = (if cancel_during w n then cancel s1 else s1)
                    in case thrown of
                         Some msg \<Rightarrow> (Some msg, s2)
                       | None \<Rightarrow> runRecords w rest s2)))"

section \<open>What the engine leaves alone\<close>

text \<open>
  Processing a record only appends to the logs and the saves, fills the two caches and
  replaces rows of the table; the guard flag, the client, the server lists and the number
  of rows stay as they are.
\<close>

definition frame :: "state \<Rightarrow> state \<Rightarrow> bool" where
  "frame s s' =
     (running s' = running s \<and> plexClient s' = plexClient s
      \<and> radarrServers s' = radarrServers s \<and> sonarrServers s' = sonarrServers s
      \<and> started s' = started s \<and> length (db s') = length (db s)
      \<and> length (saves s) \<le> length (saves s') \<and> set (logs s) \<subseteq> set (logs s'))"

lemma frame_refl [simp]: "frame s s"
  by (simp add: frame_def)

lemma frame_trans: "frame s0 s1 \<Longrightarrow> frame s1 s2 \<Longrightarrow> frame s0 s2"
  by (auto simp: frame_def)

lemma frame_loggerMeta: "frame s0 s \<Longrightarrow> frame s0 (loggerMeta lvl msg e s)"
  by (auto simp: frame_def loggerMeta_def)

lemma frame_logger: "frame s0 s \<Longrightarrow> frame s0 (logger lvl msg s)"
  by (simp add: logger_def frame_loggerMeta)

lemma frame_save: "save w media s = (thrown, s') \<Longrightarrow> frame s0 s \<Longrightarrow> frame s0 s'"
  by (auto simp: save_def Let_def frame_def split: option.splits)

lemma frame_mediaUpdater: "mediaUpdater w media f s = (media', s') \<Longrightarrow> frame s0 s \<Longrightarrow> frame s0 s'"
  by (auto simp: mediaUpdater_def Let_def split: prod.splits option.splits
           intro: frame_loggerMeta frame_logger dest: frame_save)

lemma frame_radarrStep: "radarrStep w media (a, b, s) server = (a', b', s') \<Longrightarrow> frame s0 s \<Longrightarrow> frame s0 s'"
  by (auto simp: radarrStep_def Let_def split: resp.splits intro: frame_loggerMeta)

lemma foldl_invariant:
  assumes "\<And>acc x. P acc \<Longrightarrow> P (step acc x)" and "P acc"
  shows "P (foldl step acc xs)"
  using assms(2) by (induction xs arbitrary: acc) (simp_all add: assms(1))

lemma frame_radarrLoop:
  assumes "foldl (radarrStep w media) (a, b, s) servers = (a', b', s')" and "frame s0 s"
  shows "frame s0 s'"
proof -
  have "frame s0 (snd (snd (foldl (radarrStep w media) (a, b, s) servers)))"
  proof (rule foldl_invariant[where P="\<lambda>acc. frame s0 (snd (snd acc))"])
    fix acc :: "bool \<times> bool \<times> state" and x
    assume "frame s0 (snd (snd acc))"
    then show "frame s0 (snd (snd (radarrStep w media acc x)))"
      by (cases acc; cases "radarrStep w media acc x") (auto dest: frame_radarrStep)
  qed (simp add: assms(2))
  with assms(1) show ?thesis by simp
qed

lemma frame_mediaExistsInRadarr:
  "mediaExistsInRadarr w media p p4 s = (r, media', s') \<Longrightarrow> frame s0 s \<Longrightarrow> frame s0 s'"
  by (auto simp: mediaExistsInRadarr_def split: prod.splits if_splits
           dest: frame_radarrLoop frame_mediaUpdater)

lemma frame_sonarrFetch:
  "sonarrFetch w server ext s = Returns (x, s') \<Longrightarrow> frame s0 s \<Longrightarrow> frame s0 s'"
  by (auto simp: sonarrFetch_def frame_def split: resp.splits)

lemma frame_sonarrStep: "sonarrStep w media (a, b, s) server = (a', b', s') \<Longrightarrow> frame s0 s \<Longrightarrow> frame s0 s'"
  by (auto simp: sonarrStep_def Let_def split: resp.splits if_splits prod.splits
      intro: frame_loggerMeta dest: frame_sonarrFetch)

lemma frame_sonarrLoop:
  assumes "foldl (sonarrStep w media) (a, b, s) servers = (a', b', s')" and "frame s0 s"
  shows "frame s0 s'"
proof -
  have "frame s0 (snd (snd (foldl (sonarrStep w media) (a, b, s) servers)))"
  proof (rule foldl_invariant[where P="\<lambda>acc. frame s0 (snd (snd acc))"])
    fix acc :: "bool \<times> bool \<times> state" and x
    assume "frame s0 (snd (snd acc))"
    then show "frame s0 (snd (snd (sonarrStep w media acc x)))"
      by (cases acc; cases "sonarrStep w media acc x") (auto dest: frame_sonarrStep)
  qed (simp add: assms(2))
  with assms(1) show ?thesis by simp
qed

lemma frame_mediaExistsInSonarr:
  "mediaExistsInSonarr w media p p4 s = (r, media', s') \<Longrightarrow> frame s0 s \<Longrightarrow> frame s0 s'"
  by (auto simp: mediaExistsInSonarr_def split: prod.splits if_splits
           dest: frame_sonarrLoop frame_mediaUpdater)

lemma frame_cachedSeasons:
  "cachedSeasons w server ext s = Returns (x, s') \<Longrightarrow> frame s0 s \<Longrightarrow> frame s0 s'"
  by (auto simp: cachedSeasons_def frame_def split: resp.splits option.splits)

lemma frame_sonarrSeasonStep:
  "sonarrSeasonStep w media season (a, b, s) server = (a', b', s') \<Longrightarrow> frame s0 s \<Longrightarrow> frame s0 s'"
  by (auto simp: sonarrSeasonStep_def Let_def split: resp.splits if_splits prod.splits
      intro: frame_loggerMeta dest: frame_cachedSeasons)

lemma frame_sonarrSeasonLoop:
  assumes "foldl (sonarrSeasonStep w media season) (a, b, s) servers = (a', b', s')" and "frame s0 s"
  shows "frame s0 s'"
proof -
  have "frame s0 (snd (snd (foldl (sonarrSeasonStep w media season) (a, b, s) servers)))"
  proof (rule foldl_invariant[where P="\<lambda>acc. frame s0 (snd (snd acc))"])
    fix acc :: "bool \<times> bool \<times> state" and x
    assume "frame s0 (snd (snd acc))"
    then show "frame s0 (snd (snd (sonarrSeasonStep w media season acc x)))"
      by (cases acc; cases "sonarrSeasonStep w media season acc x") (auto dest: frame_sonarrSeasonStep)
  qed (simp add: assms(2))
  with assms(1) show ?thesis by simp
qed

lemma frame_removeSeason: "removeSeason media r s = (media', s') \<Longrightarrow> frame s0 s \<Longrightarrow> frame s0 s'"
  by (auto simp: removeSeason_def Let_def split: if_splits intro: frame_logger)

lemma frame_removeSeason4k: "removeSeason4k media r s = (media', s') \<Longrightarrow> frame s0 s \<Longrightarrow> frame s0 s'"
  by (auto simp: removeSeason4k_def Let_def split: if_splits intro: frame_logger)

lemma frame_seasonExistsInSonarr:
  "seasonExistsInSonarr w media r p p4 s = (e, media', s') \<Longrightarrow> frame s0 s \<Longrightarrow> frame s0 s'"
  by (auto simp: seasonExistsInSonarr_def Let_def split: prod.splits if_splits option.splits
           intro: frame_loggerMeta
           dest: frame_sonarrSeasonLoop frame_removeSeason frame_removeSeason4k frame_save)

lemma frame_plexChildren:
  "plexChildren w key s = Returns (x, s') \<Longrightarrow> frame s0 s \<Longrightarrow> frame s0 s'"
  by (auto simp: plexChildren_def frame_def split: resp.splits option.splits)

lemma frame_seasonPlexProbe:
  "seasonPlexProbe w media season s = (p, p4, thrown, s') \<Longrightarrow> frame s0 s \<Longrightarrow> frame s0 s'"
  by (auto simp: seasonPlexProbe_def split: resp.splits if_splits prod.splits
           dest: frame_plexChildren)

lemma frame_seasonExists:
  "seasonExists w media r s = (e, media', s') \<Longrightarrow> frame s0 s \<Longrightarrow> frame s0 s'"
  by (auto simp: seasonExists_def Let_def split: prod.splits if_splits option.splits
           intro: frame_loggerMeta frame_logger
           dest: frame_seasonPlexProbe frame_seasonExistsInSonarr)

lemma frame_mediaExists:
  "mediaExists w media s = (e, media', s') \<Longrightarrow> frame s0 s \<Longrightarrow> frame s0 s'"
  by (auto simp: mediaExists_def Let_def split: prod.splits if_splits option.splits
           intro: frame_loggerMeta frame_logger
           dest: frame_mediaExistsInRadarr frame_mediaExistsInSonarr)

lemma frame_deleteMissingMedia:
  "deleteMissingMedia media s = (media', s') \<Longrightarrow> frame s0 s \<Longrightarrow> frame s0 s'"
  by (auto simp: deleteMissingMedia_def split: if_splits intro: frame_logger)

lemma frame_demoteMedia:
  "demoteMedia d media s = (media', s') \<Longrightarrow> frame s0 s \<Longrightarrow> frame s0 s'"
  by (auto simp: demoteMedia_def Let_def split: if_splits intro: frame_logger)

lemma frame_seasonStep:
  "seasonStep w e (d, media, s) r = (d', media', s') \<Longrightarrow> frame s0 s \<Longrightarrow> frame s0 s'"
  by (auto simp: seasonStep_def Let_def split: prod.splits if_splits
           intro: frame_logger dest: frame_seasonExists frame_demoteMedia)

lemma frame_seasonLoop:
  assumes "foldl (seasonStep w e) (d, media, s) rs = (d', media', s')" and "frame s0 s"
  shows "frame s0 s'"
proof -
  have "frame s0 (snd (snd (foldl (seasonStep w e) (d, media, s) rs)))"
  proof (rule foldl_invariant[where P="\<lambda>acc. frame s0 (snd (snd acc))"])
    fix acc :: "bool \<times> Media \<times> state" and x
    assume "frame s0 (snd (snd acc))"
    then show "frame s0 (snd (snd (seasonStep w e acc x)))"
      by (cases acc; cases "seasonStep w e acc x") (auto dest: frame_seasonStep)
  qed (simp add: assms(2))
  with assms(1) show ?thesis by simp
qed

lemma frame_processMedia:
  "processMedia w media s = (thrown, media', s') \<Longrightarrow> frame s0 s \<Longrightarrow> frame s0 s'"
  by (auto simp: processMedia_def split: prod.splits if_splits
           dest: frame_mediaExists frame_deleteMissingMedia frame_seasonLoop frame_save)

lemma length_db_runRecords:
  "runRecords w page s = (thrown, s') \<Longrightarrow> length (db s') = length (db s)"
proof (induction page arbitrary: s)
  case Nil
  then show ?case by simp
next
  case (Cons media rest)
  show ?case
  proof (cases "running s")
    case False
    with Cons.prems show ?thesis by simp
  next
    case True
    obtain t media1 s1 where p: "processMedia w media (s\<lparr>started := Suc (started s)\<rparr>) = (t, media1, s1)"
      by (cases "processMedia w media (s\<lparr>started := Suc (started s)\<rparr>)") auto
    have "frame (s\<lparr>started := Suc (started s)\<rparr>) s1"
      by (rule frame_processMedia[OF p]) simp
    then have len: "length (db s1) = length (db s)" by (simp add: frame_def)
    define s2 where "s2 = (if cancel_during w (started s) then cancel s1 else s1)"
    have len2: "length (db s2) = length (db s)" by (simp add: s2_def cancel_def len)
    show ?thesis
    proof (cases t)
      case None
      with Cons.prems True p have "runRecords w rest s2 = (thrown, s')"
        by (simp add: Let_def s2_def)
      from Cons.IH[OF this] len2 show ?thesis by simp
    next
      case (Some msg)
      with Cons.prems True p have "s' = s2" by (simp add: Let_def s2_def)
      with len2 show ?thesis by simp
    qed
  qed
qed

subsection \<open>The paginated load and \<^verbatim>\<open>run\<close>\<close>

text \<open>
  \<^verbatim>\<open>loadAvailableMediaPaginated\<close> with the loop of \<^verbatim>\<open>run\<close> around it: a page is read, its
  records are processed, and the next page is read at the next offset from the table as
  the saves have left it, until a page comes back empty. The number of rows never changes,
  so the offset passes it and the loop ends.
\<close>

function runPages :: "world \<Rightarrow> nat \<Rightarrow> nat \<Rightarrow> state \<Rightarrow> string option \<times> state" where
  "runPages w pageSize offset s =
     (let mediaPage = repositoryFind s offset pageSize
      in case runRecords w mediaPage s of
           (Some msg, s1) \<Rightarrow> (Some msg, s1)
         | (None, s1) \<Rightarrow>
             if length mediaPage > 0 then runPages w pageSize (offset + pageSize) s1
             else (None, s1))"
  by pat_completeness auto
termination
proof (relation "measure (\<lambda>(w, pageSize, offset, s). length (db s) - offset)")
  show "wf (measure (\<lambda>(w, pageSize, offset, s). length (db s) - offset))" by simp
next
  fix w :: world and pageSize offset :: nat and s :: state and mediaPage x1 s1
  assume page: "mediaPage = repositoryFind s offset pageSize"
    and res: "(x1, s1) = runRecords w mediaPage s"
    and nonempty: "0 < length mediaPage"
  from res have "length (db s1) = length (db s)"
    by (metis length_db_runRecords)
  moreover from page nonempty have "0 < pageSize" "offset < length (filter whereOptions (db s))"
    by (auto simp: repositoryFind_def)
  then have "0 < pageSize" "offset < length (db s)"
    using length_filter_le[of whereOptions "db s"] by linarith+
  ultimately show "((w, pageSize, offset + pageSize, s1), (w, pageSize, offset, s))
      \<in> measure (\<lambda>(w, pageSize, offset, s). length (db s) - offset)"
    by simp
qed


text \<open>
  \<^verbatim>\<open>initPlexClient\<close>. With no admin it calls \<^verbatim>\<open>logger.warning\<close> and returns, leaving
  \<^verbatim>\<open>this.plexClient\<close> as it is; where the logger has no such method the call throws a
  TypeError.
\<close>

definition initPlexClient :: "world \<Rightarrow> state \<Rightarrow> state resp" where
  "initPlexClient w s =
     (case admin w of
        None \<Rightarrow>
          if logger_has_warning w
          then Returns (logger Warning ''No admin configured. Availability sync skipped.'' s)
          else Throws ''logger.warning is not a function''
      | Some user \<Rightarrow> Returns (s\<lparr>plexClient := Some (PlexAPI (plexToken user))\<rparr>))"

text \<open>
  \<^verbatim>\<open>run\<close>: the \<^verbatim>\<open>try\<close> block is left by \<^verbatim>\<open>return\<close> when there is no client, by an error
  (handled by the \<^verbatim>\<open>catch\<close> block), or at the end of the loop; the \<^verbatim>\<open>finally\<close> block runs
  in each case.
\<close>

text \<open>Lines 25 to 30: the statements of \<^verbatim>\<open>run\<close> before its \<^verbatim>\<open>try\<close> block.\<close>

definition startRun :: "world \<Rightarrow> state \<Rightarrow> state" where
  "startRun w s =
     s\<lparr>running := True, plexSeasonsCache := Map.empty, sonarrSeasonsCache := Map.empty,
       radarrServers := filter syncEnabled (settings_radarr w),
       sonarrServers := filter syncEnabled (settings_sonarr w),
       started := 0\<rparr>"

definition run :: "world \<Rightarrow> state \<Rightarrow> state" where
  "run w s =
     (let s1 = startRun w s;
          s3 = (case initPlexClient w s1 of
                  Throws msg \<Rightarrow>
                    loggerMeta Error ''Failed to complete availability sync.'' (Some msg) s1
                | Returns s2 \<Rightarrow>
                    if plexClient s2 = None then s2
                    else (case runPages w 50 0 (logger Info ''Starting availability sync...'' s2) of
                            (Some msg, s') \<Rightarrow>
                              loggerMeta Error ''Failed to complete availability sync.'' (Some msg) s'
                          | (None, s') \<Rightarrow> s'))
      in (logger Info ''Availability sync complete.'' s3)\<lparr>running := False\<rparr>)"

section \<open>The deletion path of \<^verbatim>\<open>src/unnamed/part_001\<close>\<close>

text \<open>
  \<^verbatim>\<open>src/unnamed/part_001\<close> is another revision of the same class. Its \<^verbatim>\<open>mediaUpdater\<close> and the
  block of its \<^verbatim>\<open>run\<close> for a title that is gone ask \<^verbatim>\<open>findMediaStatus\<close> whether an approved
  request is waiting for the variant, for a series only.
\<close>

text \<open>\<^verbatim>\<open>media[is4k ? 'status4k' : 'status']\<close> and the four linkage columns of a variant.\<close>

definition variantStatus :: "bool \<Rightarrow> Media \<Rightarrow> MediaStatus" where
  "variantStatus is4kFlag media = (if is4kFlag then status4k media else status media)"

definition linkage :: "bool \<Rightarrow> Media \<Rightarrow> int option \<times> int option \<times> string option \<times> string option" where
  "linkage is4kFlag media =
     (if is4kFlag
      then (serviceId4k media, externalServiceId4k media, externalServiceSlug4k media, ratingKey4k media)
      else (serviceId media, externalServiceId media, externalServiceSlug media, ratingKey media))"

text \<open>The query of \<^verbatim>\<open>findMediaStatus\<close>, over the request table.\<close>

definition findMediaStatus :: "world \<Rightarrow> Media \<Rightarrow> bool \<Rightarrow> bool" where
  "findMediaStatus w media is4kFlag =
     (List.find (\<lambda>request. request_mediaId request = mediaId media
                          \<and> request_status request = APPROVED
                          \<and> request_is4k request = is4kFlag) (requests w) \<noteq> None)"

text \<open>The ternary \<^verbatim>\<open>isMediaProcessing ? media.column : null\<close>.\<close>

definition keepIf :: "bool \<Rightarrow> 'a option \<Rightarrow> 'a option" where
  "keepIf isMediaProcessing column = (if isMediaProcessing then column else None)"

definition mediaUpdater_part_001 :: "world \<Rightarrow> Media \<Rightarrow> bool \<Rightarrow> state \<Rightarrow> Media \<times> state" where
  "mediaUpdater_part_001 w media is4kFlag s =
     (let isMediaProcessing = (if mediaType media = TV then findMediaStatus w media is4kFlag else False);
          media1 = (if is4kFlag
                    then media\<lparr>status4k := DELETED,
                               serviceId4k := keepIf isMediaProcessing (serviceId4k media),
                               externalServiceId4k := keepIf isMediaProcessing (externalServiceId4k media),
                               externalServiceSlug4k := keepIf isMediaProcessing (externalServiceSlug4k media),
                               ratingKey4k := keepIf isMediaProcessing (ratingKey4k media)\<rparr>
                    else media\<lparr>status := DELETED,
                               serviceId := keepIf isMediaProcessing (serviceId media),
                               externalServiceId := keepIf isMediaProcessing (externalServiceId media),
                               externalServiceSlug := keepIf isMediaProcessing (externalServiceSlug media),
                               ratingKey := keepIf isMediaProcessing (ratingKey media)\<rparr>)
      in case save w media1 s of
           (Some msg, s1) \<Rightarrow> (media1, loggerMeta Debug ''Failure updating media.'' (Some msg) s1)
         | (None, s1) \<Rightarrow>
             (media1, logger Info ''Media does not exist in your Sonarr/Radarr and Plex instance. Status will be changed to deleted.'' s1))"

text \<open>Lines 70 to 83 and lines 84 to 101 of \<^verbatim>\<open>src/unnamed/part_001\<close>.\<close>

definition deleteVariant :: "bool \<Rightarrow> Media \<Rightarrow> Media" where
  "deleteVariant isMediaProcessing media =
     (if status media = AVAILABLE \<or> status media = PARTIALLY_AVAILABLE
      then media\<lparr>status := DELETED,
                 serviceId := keepIf isMediaProcessing (serviceId media),
                 externalServiceId := keepIf isMediaProcessing (externalServiceId media),
                 externalServiceSlug := keepIf isMediaProcessing (externalServiceSlug media),
                 ratingKey := keepIf isMediaProcessing (ratingKey media)\<rparr>
      else media)"

definition deleteVariant4k :: "bool \<Rightarrow> Media \<Rightarrow> Media" where
  "deleteVariant4k isMediaProcessing4k media =
     (if status4k media = AVAILABLE \<or> status4k media = PARTIALLY_AVAILABLE
      then media\<lparr>status4k := DELETED,
                 serviceId4k := keepIf isMediaProcessing4k (serviceId4k media),
                 externalServiceId4k := keepIf isMediaProcessing4k (externalServiceId4k media),
                 externalServiceSlug4k := keepIf isMediaProcessing4k (externalServiceSlug4k media),
                 ratingKey4k := keepIf isMediaProcessing4k (ratingKey4k media)\<rparr>
      else media)"

text \<open>Lines 61 to 106 of \<^verbatim>\<open>src/unnamed/part_001\<close>: the title is gone from every instance.\<close>

definition deleteMissingMedia_part_001 :: "world \<Rightarrow> Media \<Rightarrow> state \<Rightarrow> Media \<times> state" where
  "deleteMissingMedia_part_001 w media s =
     (let isMediaProcessing = (if mediaType media = TV then findMediaStatus w media False else False);
          isMediaProcessing4k = (if mediaType media = TV then findMediaStatus w media True else False)
      in (deleteVariant4k isMediaProcessing4k (deleteVariant isMediaProcessing media),
          logger Info ''Media does not exist in any of your media instances. Status will be changed to deleted.'' s))"

section \<open>The existence of a season in one variant\<close>

text \<open>
  \<^verbatim>\<open>seasonExists\<close> and \<^verbatim>\<open>seasonExistsInSonarr\<close> hold four flags. The standard variant of the
  season is removed when \<^verbatim>\<open>seasonExistsInSonarr\<close> and \<^verbatim>\<open>seasonExistsInPlex\<close> are both false and
  one of the 4k flags is true, the 4k variant likewise, and the season is reported missing
  when all four are false: the season counts as existent in a variant when one of the two
  flags of the variant is true. When Plex lists the season for both rating keys, Sonarr is
  not asked.
\<close>

definition seasonJudgedExistent :: "world \<Rightarrow> Media \<Rightarrow> nat \<Rightarrow> state \<Rightarrow> bool \<times> bool" where
  "seasonJudgedExistent w media r s =
     (case seasonPlexProbe w media (seasonHeap media ! r) s of
        (inPlex, inPlex4k, thrown, s1) \<Rightarrow>
     (let s2 = (case thrown of
                  None \<Rightarrow> s1
                | Some msg \<Rightarrow>
                    if \<not> includesStr msg ''response code: 404''
                    then loggerMeta Debug ''Failed to retrieve plex children metadata'' (Some msg) s1
                    else s1)
      in if inPlex \<and> inPlex4k then (True, True)
         else (case foldl (sonarrSeasonStep w media (seasonHeap media ! r)) (True, True, s2)
                      (sonarrServers s2) of
                 (inSonarr, inSonarr4k, s3) \<Rightarrow> (inSonarr \<or> inPlex, inSonarr4k \<or> inPlex4k))))"

text \<open>
  The child listing of a rating key as \<^verbatim>\<open>seasonExists\<close> reads it, from the cache or from Plex:
  whether it holds the season, and whether reading it fails.
\<close>

definition plexListsSeason :: "world \<Rightarrow> Season \<Rightarrow> string option \<Rightarrow> state \<Rightarrow> bool" where
  "plexListsSeason w season key s =
     (truthyStr key
      \<and> (case plexChildren w (the key) s of
           Throws msg \<Rightarrow> False
         | Returns (children, s1) \<Rightarrow> hasChild season children))"

definition plexFails :: "world \<Rightarrow> string option \<Rightarrow> state \<Rightarrow> bool" where
  "plexFails w key s =
     (truthyStr key
      \<and> (case plexChildren w (the key) s of Throws msg \<Rightarrow> True | Returns listed \<Rightarrow> False))"

text \<open>
  The season statistics the loop of \<^verbatim>\<open>seasonExistsInSonarr\<close> reads for one server: those
  cached under the key of the server and the external id of its variant, else the
  \<^verbatim>\<open>seasons\<close> of the series fetched from the server. With no external id nothing is fetched.
\<close>

definition seasonsFor :: "world \<Rightarrow> Media \<Rightarrow> ((int \<times> int option) \<rightharpoonup> SonarrSeason list) \<Rightarrow> ServerSettings \<Rightarrow> SonarrSeason list option resp" where
  "seasonsFor w media cache server =
     (let ext = (if is4k server then externalServiceId4k media else externalServiceId media)
      in if truthyNum ext then
           (case cache (serverId server, ext) of
              Some cached \<Rightarrow> Returns (Some cached)
            | None \<Rightarrow> (case sonarr_getSeriesById w server (the ext) of
                         Throws msg \<Rightarrow> Throws msg
                       | Returns sonarr \<Rightarrow> Returns (Some (series_seasons sonarr))))
         else Returns (cache (serverId server, ext)))"

text \<open>A server speaks against a season when it cannot be read or lists the season with no file.\<close>

definition serverDenies :: "world \<Rightarrow> Media \<Rightarrow> Season \<Rightarrow> ((int \<times> int option) \<rightharpoonup> SonarrSeason list) \<Rightarrow> ServerSettings \<Rightarrow> bool" where
  "serverDenies w media season cache server =
     (case seasonsFor w media cache server of
        Throws msg \<Rightarrow> True
      | Returns sonarrSeasons \<Rightarrow> seasonIsUnavailable season sonarrSeasons)"

text \<open>
  The words of the specification, for comparison: the season statistics of some server of
  the variant show an episode-file count above zero for the season number.
\<close>

definition statisticsShowFiles :: "world \<Rightarrow> Media \<Rightarrow> Season \<Rightarrow> bool \<Rightarrow> state \<Rightarrow> bool" where
  "statisticsShowFiles w media season variant4k s =
     list_ex (\<lambda>server. is4k server = variant4k
                \<and> (case seasonsFor w media (sonarrSeasonsCache s) server of
                     Returns (Some entries) \<Rightarrow>
                       list_ex (\<lambda>entry. sonarr_seasonNumber entry = seasonNumber season
                                  \<and> (case statistics_episodeFileCount entry of
                                       Some n \<Rightarrow> 0 < n
                                     | None \<Rightarrow> False)) entries
                   | Returns None \<Rightarrow> False
                   | Throws msg \<Rightarrow> False))
       (sonarrServers s)"

section \<open>Status transitions\<close>

text \<open>
  A status may stay as it is, become \<open>DELETED\<close> or \<open>UNKNOWN\<close>, or, for the status of a media
  record, go from \<open>AVAILABLE\<close> to \<open>PARTIALLY_AVAILABLE\<close>.
\<close>

definition noUpgrade :: "MediaStatus \<Rightarrow> MediaStatus \<Rightarrow> bool" where
  "noUpgrade old new =
     (new = old \<or> new = DELETED \<or> new = UNKNOWN \<or> (old = AVAILABLE \<and> new = PARTIALLY_AVAILABLE))"

definition seasonNoUpgrade :: "Season \<Rightarrow> Season \<Rightarrow> bool" where
  "seasonNoUpgrade old new =
     ((status new = status old \<or> status new = DELETED \<or> status new = UNKNOWN)
      \<and> (status4k new = status4k old \<or> status4k new = DELETED \<or> status4k new = UNKNOWN))"

definition mediaNoUpgrade :: "Media \<Rightarrow> Media \<Rightarrow> bool" where
  "mediaNoUpgrade old new =
     (noUpgrade (status old) (status new) \<and> noUpgrade (status4k old) (status4k new)
      \<and> list_all2 seasonNoUpgrade (seasonHeap old) (seasonHeap new))"

text \<open>
  What one function does to the record for the season at \<open>r\<close>, in one variant: a season status
  that changes becomes \<open>DELETED\<close>, and the status of the record changes only from \<open>AVAILABLE\<close> to
  \<open>PARTIALLY_AVAILABLE\<close>, with the season status of the same variant.
\<close>

definition sameVariantDemotion :: "MediaStatus \<Rightarrow> MediaStatus \<Rightarrow> MediaStatus \<Rightarrow> MediaStatus \<Rightarrow> bool" where
  "sameVariantDemotion parent parent' season season' =
     ((season' = season \<or> season' = DELETED)
      \<and> (season' = season \<and> parent' = parent
           \<or> season' \<noteq> season \<and> parent = AVAILABLE \<and> parent' = PARTIALLY_AVAILABLE
           \<or> season' \<noteq> season \<and> parent \<noteq> AVAILABLE \<and> parent' = parent))"

text \<open>
  Two relations between a record before and after a part of its processing. In one
  variant, \<^verbatim>\<open>mediaExists\<close> either keeps the status and the linkage columns or turns a status
  that is neither \<open>DELETED\<close> nor \<open>UNKNOWN\<close> into \<open>DELETED\<close> and clears the columns. The season
  loop keeps the linkage columns of both variants and only demotes a status.
\<close>

definition deletedOrKept :: "bool \<Rightarrow> Media \<Rightarrow> Media \<Rightarrow> bool" where
  "deletedOrKept is4kFlag before after =
     (variantStatus is4kFlag after = variantStatus is4kFlag before
        \<and> linkage is4kFlag after = linkage is4kFlag before
      \<or> variantStatus is4kFlag before \<noteq> DELETED \<and> variantStatus is4kFlag before \<noteq> UNKNOWN
        \<and> variantStatus is4kFlag after = DELETED
        \<and> linkage is4kFlag after = (None, None, None, None))"

definition demotedOnly :: "Media \<Rightarrow> Media \<Rightarrow> bool" where
  "demotedOnly before after =
     (linkage False after = linkage False before \<and> linkage True after = linkage True before
      \<and> (status after = status before \<or> status before = AVAILABLE \<and> status after = PARTIALLY_AVAILABLE)
      \<and> (status4k after = status4k before
           \<or> status4k before = AVAILABLE \<and> status4k after = PARTIALLY_AVAILABLE))"


section \<open>Concrete inputs\<close>

text \<open>
  Two enabled servers of each kind, one for each variant; a world in which no instance
  knows any title; a movie that is available in the standard variant; a series that is
  available in 4k only, with one season.
\<close>

definition serverStd :: ServerSettings where
  "serverStd = \<lparr>serverId = 1, is4k = False, syncEnabled = True, apiKey = ''key''\<rparr>"

definition server4k :: ServerSettings where
  "server4k = \<lparr>serverId = 2, is4k = True, syncEnabled = True, apiKey = ''key4k''\<rparr>"

definition goneWorld :: world where
  "goneWorld =
     \<lparr>settings_radarr = [serverStd, server4k], settings_sonarr = [serverStd, server4k],
      admin = Some \<lparr>userId = 1, plexToken = Some ''token''\<rparr>, requests = [],
      plex_getMetadata = (\<lambda>client key. Throws ''response code: 404''),
      plex_getChildrenMetadata = (\<lambda>client key. Throws ''response code: 404''),
      radarr_getMovie = (\<lambda>server n. Throws ''Request failed with status code 404''),
      sonarr_getSeriesById = (\<lambda>server n. Throws ''Request failed with status code 404''),
      save_throws = (\<lambda>media. None), cancel_during = (\<lambda>n. False),
      logger_has_warning = False\<rparr>"

definition movie :: "int \<Rightarrow> Media" where
  "movie n =
     \<lparr>status = AVAILABLE, status4k = UNKNOWN, mediaId = n, tmdbId = 100 + n, mediaType = MOVIE,
      serviceId = Some 0, serviceId4k = None, externalServiceId = Some 5, externalServiceId4k = None,
      externalServiceSlug = Some ''slug'', externalServiceSlug4k = None,
      ratingKey = Some ''10'', ratingKey4k = None, seasons = [], seasonHeap = []\<rparr>"

definition initialState :: "Media list \<Rightarrow> state" where
  "initialState rows =
     \<lparr>running = False, plexClient = None, plexSeasonsCache = Map.empty,
      sonarrSeasonsCache = Map.empty, radarrServers = [], sonarrServers = [],
      db = rows, saves = [], logs = [], started = 0\<rparr>"

definition noAdminWorld :: world where
  "noAdminWorld = goneWorld\<lparr>admin := None\<rparr>"

definition busyState :: state where
  "busyState = (initialState [movie 1, movie 2])\<lparr>running := True\<rparr>"

definition cancelWorld :: world where
  "cancelWorld = goneWorld\<lparr>cancel_during := (\<lambda>n. n = 0)\<rparr>"

definition failWorld :: world where
  "failWorld = goneWorld\<lparr>save_throws := (\<lambda>media. Some ''database is locked'')\<rparr>"

definition lostShow :: Media where
  "lostShow =
     \<lparr>status = UNKNOWN, status4k = AVAILABLE, mediaId = 3, tmdbId = 103, mediaType = TV,
      serviceId = None, serviceId4k = Some 0, externalServiceId = None, externalServiceId4k = Some 7,
      externalServiceSlug = None, externalServiceSlug4k = Some ''show'',
      ratingKey = None, ratingKey4k = Some ''20'', seasons = [0],
      seasonHeap = [\<lparr>status = UNKNOWN, status4k = AVAILABLE, seasonNumber = 1\<rparr>]\<rparr>"

text \<open>
  A world in which Plex knows every title and lists season 2 only, and every Sonarr server
  reports no file for season 1; the same world with season 1 listed for the rating key of
  the 4k variant. A series available in both variants whose first season is already
  \<open>DELETED\<close> in 4k, and the same series with both seasons available in both variants.
\<close>

definition plexWorld :: world where
  "plexWorld =
     \<lparr>settings_radarr = [serverStd, server4k], settings_sonarr = [serverStd, server4k],
      admin = Some \<lparr>userId = 1, plexToken = Some ''token''\<rparr>, requests = [],
      plex_getMetadata = (\<lambda>client key. Returns (Some (PlexMetadata 0))),
      plex_getChildrenMetadata = (\<lambda>client key. Returns (Some [PlexMetadata 2])),
      radarr_getMovie = (\<lambda>server n. Throws ''Request failed with status code 404''),
      sonarr_getSeriesById =
        (\<lambda>server n. Returns (SonarrSeries [SonarrSeason 1 (Some 0), SonarrSeason 2 (Some 8)] 8)),
      save_throws = (\<lambda>media. None), cancel_during = (\<lambda>n. False),
      logger_has_warning = False\<rparr>"

definition halfShow :: Media where
  "halfShow =
     \<lparr>status = AVAILABLE, status4k = AVAILABLE, mediaId = 4, tmdbId = 104, mediaType = TV,
      serviceId = Some 0, serviceId4k = Some 1, externalServiceId = Some 11,
      externalServiceId4k = Some 12, externalServiceSlug = Some ''half'',
      externalServiceSlug4k = Some ''half'', ratingKey = Some ''30'', ratingKey4k = Some ''31'',
      seasons = [0, 1],
      seasonHeap = [\<lparr>status = AVAILABLE, status4k = DELETED, seasonNumber = 1\<rparr>,
                    \<lparr>status = AVAILABLE, status4k = AVAILABLE, seasonNumber = 2\<rparr>]\<rparr>"

definition plex4kWorld :: world where
  "plex4kWorld =
     plexWorld\<lparr>plex_getChildrenMetadata :=
       (\<lambda>client key. Returns (Some (if key = ''31'' then [PlexMetadata 1, PlexMetadata 2]
                                        else [PlexMetadata 2])))\<rparr>"

definition fullShow :: Media where
  "fullShow =
     halfShow\<lparr>seasonHeap := [\<lparr>status = AVAILABLE, status4k = AVAILABLE, seasonNumber = 1\<rparr>,
                              \<lparr>status = AVAILABLE, status4k = AVAILABLE, seasonNumber = 2\<rparr>]\<rparr>"

text \<open>
  The world in which nothing is known, with an approved request for the standard variant
  of the movie and one for the 4k variant of \<open>lostShow\<close>.
\<close>

definition requestWorld :: world where
  "requestWorld =
     goneWorld\<lparr>requests := [\<lparr>request_mediaId = 1, request_status = APPROVED, request_is4k = False\<rparr>,
                            \<lparr>request_mediaId = 3, request_status = APPROVED, request_is4k = True\<rparr>]\<rparr>"

text \<open>The series \<open>halfShow\<close> as a run at \<open>plexWorld\<close> leaves it.\<close>

definition settledShow :: Media where
  "settledShow =
     halfShow\<lparr>status := PARTIALLY_AVAILABLE, status4k := PARTIALLY_AVAILABLE,
              seasonHeap := [\<lparr>status = DELETED, status4k = DELETED, seasonNumber = 1\<rparr>,
                             \<lparr>status = AVAILABLE, status4k = AVAILABLE, seasonNumber = 2\<rparr>]\<rparr>"

text \<open>
  The world \<open>plexWorld\<close> with Sonarr servers whose series has no entry for season 1.
\<close>

definition sparseWorld :: world where
  "sparseWorld =
     plexWorld\<lparr>sonarr_getSeriesById :=
       (\<lambda>server n. Returns (SonarrSeries [SonarrSeason 2 (Some 8)] 8))\<rparr>"

text \<open>
  The movie with linkage columns left in its 4k variant, whose status is \<open>UNKNOWN\<close>.
\<close>

definition strayMovie :: Media where
  "strayMovie = (movie 1)\<lparr>serviceId4k := Some 1, externalServiceId4k := Some 9\<rparr>"

text \<open>The state in which the loop of \<^verbatim>\<open>run\<close> starts, for a table and a world.\<close>

definition syncState :: "world \<Rightarrow> Media list \<Rightarrow> state" where
  "syncState w rows =
     (case initPlexClient w (startRun w (initialState rows)) of
        Returns s \<Rightarrow> logger Info ''Starting availability sync...'' s
      | Throws msg \<Rightarrow> startRun w (initialState rows))"

section \<open>Lemmas\<close>

declare runPages.simps [simp del]

lemmas engine_defs = processMedia_def mediaExists_def mediaPlexProbe_def plexHasItem_def
  mediaExistsInRadarr_def radarrStep_def radarrProbe_def mediaExistsInSonarr_def sonarrStep_def
  sonarrFetch_def mediaUpdater_def markSeasonDeleted_def seasonExists_def seasonPlexProbe_def
  plexChildren_def hasChild_def seasonExistsInSonarr_def sonarrSeasonStep_def cachedSeasons_def
  seasonIsUnavailable_def removeSeason_def removeSeason4k_def seasonStep_def demoteMedia_def
  deleteSeason_def deleteMissingMedia_def notBothTerminal_def save_def logger_def loggerMeta_def
  truthyNum_def truthyStr_def repositoryFind_def loadEntity_def whereOptions_def cancel_def
  initPlexClient_def startRun_def run_def runPages.simps Let_def

lemmas example_defs = serverStd_def server4k_def goneWorld_def movie_def initialState_def
  noAdminWorld_def busyState_def cancelWorld_def failWorld_def lostShow_def
  syncState_def plexWorld_def plex4kWorld_def halfShow_def fullShow_def requestWorld_def
  settledShow_def sparseWorld_def strayMovie_def

subsection \<open>No function of the engine upgrades a status\<close>

lemma noUpgrade_refl [simp]: "noUpgrade x x"
  by (simp add: noUpgrade_def)

lemma noUpgrade_trans: "noUpgrade a b \<Longrightarrow> noUpgrade b c \<Longrightarrow> noUpgrade a c"
  by (auto simp: noUpgrade_def)

lemma seasonNoUpgrade_refl [simp]: "seasonNoUpgrade x x"
  by (simp add: seasonNoUpgrade_def)

lemma seasonNoUpgrade_trans: "seasonNoUpgrade a b \<Longrightarrow> seasonNoUpgrade b c \<Longrightarrow> seasonNoUpgrade a c"
  by (auto simp: seasonNoUpgrade_def)

lemma mediaNoUpgrade_refl [simp]: "mediaNoUpgrade m m"
  by (simp add: mediaNoUpgrade_def list_all2_refl)

lemma mediaNoUpgrade_heap:
  assumes "mediaNoUpgrade m0 m" and "seasonNoUpgrade (seasonHeap m ! r) x"
  shows "mediaNoUpgrade m0 (m\<lparr>seasonHeap := (seasonHeap m)[r := x]\<rparr>)"
proof -
  from assms(1) have l: "list_all2 seasonNoUpgrade (seasonHeap m0) (seasonHeap m)"
    by (simp add: mediaNoUpgrade_def)
  have "list_all2 seasonNoUpgrade (seasonHeap m0) ((seasonHeap m)[r := x])"
  proof (cases "r < length (seasonHeap m)")
    case True
    with l have "seasonNoUpgrade (seasonHeap m0 ! r) (seasonHeap m ! r)"
      by (simp add: list_all2_conv_all_nth)
    then have "seasonNoUpgrade (seasonHeap m0 ! r) x"
      using assms(2) by (rule seasonNoUpgrade_trans)
    with l True show ?thesis
      by (auto simp: list_all2_conv_all_nth nth_list_update)
  next
    case False
    then have "(seasonHeap m)[r := x] = seasonHeap m" by (simp add: not_less list_update_beyond)
    with l show ?thesis by simp
  qed
  with assms(1) show ?thesis by (simp add: mediaNoUpgrade_def)
qed

lemma mediaNoUpgrade_status:
  "mediaNoUpgrade m0 m \<Longrightarrow> noUpgrade (status m) x \<Longrightarrow> mediaNoUpgrade m0 (m\<lparr>status := x\<rparr>)"
  by (auto simp: mediaNoUpgrade_def intro: noUpgrade_trans)

lemma mediaNoUpgrade_status4k:
  "mediaNoUpgrade m0 m \<Longrightarrow> noUpgrade (status4k m) x \<Longrightarrow> mediaNoUpgrade m0 (m\<lparr>status4k := x\<rparr>)"
  by (auto simp: mediaNoUpgrade_def intro: noUpgrade_trans)

lemma mediaNoUpgrade_linkage [simp]:
  "mediaNoUpgrade m0 (m\<lparr>serviceId := a\<rparr>) = mediaNoUpgrade m0 m"
  "mediaNoUpgrade m0 (m\<lparr>serviceId4k := a\<rparr>) = mediaNoUpgrade m0 m"
  "mediaNoUpgrade m0 (m\<lparr>externalServiceId := a\<rparr>) = mediaNoUpgrade m0 m"
  "mediaNoUpgrade m0 (m\<lparr>externalServiceId4k := a\<rparr>) = mediaNoUpgrade m0 m"
  "mediaNoUpgrade m0 (m\<lparr>externalServiceSlug := b\<rparr>) = mediaNoUpgrade m0 m"
  "mediaNoUpgrade m0 (m\<lparr>externalServiceSlug4k := b\<rparr>) = mediaNoUpgrade m0 m"
  "mediaNoUpgrade m0 (m\<lparr>ratingKey := b\<rparr>) = mediaNoUpgrade m0 m"
  "mediaNoUpgrade m0 (m\<lparr>ratingKey4k := b\<rparr>) = mediaNoUpgrade m0 m"
  "mediaNoUpgrade m0 (m\<lparr>seasons := c\<rparr>) = mediaNoUpgrade m0 m"
  by (simp_all add: mediaNoUpgrade_def)

lemma noUpgrade_markSeasonDeleted:
  "mediaNoUpgrade m0 m \<Longrightarrow> mediaNoUpgrade m0 (markSeasonDeleted f m r)"
  by (auto simp: markSeasonDeleted_def Let_def seasonNoUpgrade_def intro!: mediaNoUpgrade_heap)

lemma noUpgrade_mediaUpdater:
  "mediaUpdater w media f s = (media', s') \<Longrightarrow> mediaNoUpgrade m0 media \<Longrightarrow> mediaNoUpgrade m0 media'"
  by (auto simp: mediaUpdater_def Let_def noUpgrade_def split: prod.splits option.splits if_splits
      intro!: foldl_invariant[where P="mediaNoUpgrade m0"] noUpgrade_markSeasonDeleted
              mediaNoUpgrade_status mediaNoUpgrade_status4k)

lemma noUpgrade_mediaExistsInRadarr:
  "mediaExistsInRadarr w media p p4 s = (e, media', s') \<Longrightarrow> mediaNoUpgrade m0 media
   \<Longrightarrow> mediaNoUpgrade m0 media'"
  by (auto simp: mediaExistsInRadarr_def split: prod.splits if_splits dest: noUpgrade_mediaUpdater)

lemma noUpgrade_mediaExistsInSonarr:
  "mediaExistsInSonarr w media p p4 s = (e, media', s') \<Longrightarrow> mediaNoUpgrade m0 media
   \<Longrightarrow> mediaNoUpgrade m0 media'"
  by (auto simp: mediaExistsInSonarr_def split: prod.splits if_splits dest: noUpgrade_mediaUpdater)

lemma noUpgrade_mediaExists:
  "mediaExists w media s = (e, media', s') \<Longrightarrow> mediaNoUpgrade m0 media
   \<Longrightarrow> mediaNoUpgrade m0 media'"
  by (auto simp: mediaExists_def Let_def split: prod.splits if_splits
           dest: noUpgrade_mediaExistsInRadarr noUpgrade_mediaExistsInSonarr)

lemma noUpgrade_removeSeason:
  "removeSeason media r s = (media', s') \<Longrightarrow> mediaNoUpgrade m0 media \<Longrightarrow> mediaNoUpgrade m0 media'"
  by (auto simp: removeSeason_def Let_def noUpgrade_def seasonNoUpgrade_def split: if_splits
           intro!: mediaNoUpgrade_heap mediaNoUpgrade_status)

lemma noUpgrade_removeSeason4k:
  "removeSeason4k media r s = (media', s') \<Longrightarrow> mediaNoUpgrade m0 media \<Longrightarrow> mediaNoUpgrade m0 media'"
  by (auto simp: removeSeason4k_def Let_def noUpgrade_def seasonNoUpgrade_def split: if_splits
           intro!: mediaNoUpgrade_heap mediaNoUpgrade_status4k)

lemma noUpgrade_seasonExistsInSonarr:
  "seasonExistsInSonarr w media r p p4 s = (e, media', s') \<Longrightarrow> mediaNoUpgrade m0 media
   \<Longrightarrow> mediaNoUpgrade m0 media'"
  by (auto simp: seasonExistsInSonarr_def Let_def split: prod.splits if_splits option.splits
           dest: noUpgrade_removeSeason noUpgrade_removeSeason4k)

lemma noUpgrade_seasonExists:
  "seasonExists w media r s = (e, media', s') \<Longrightarrow> mediaNoUpgrade m0 media
   \<Longrightarrow> mediaNoUpgrade m0 media'"
  by (auto simp: seasonExists_def Let_def split: prod.splits if_splits
           dest: noUpgrade_seasonExistsInSonarr)

lemma noUpgrade_deleteSeason:
  "mediaNoUpgrade m0 media \<Longrightarrow> mediaNoUpgrade m0 (deleteSeason media r)"
  by (auto simp: deleteSeason_def seasonNoUpgrade_def intro!: mediaNoUpgrade_heap)

lemma noUpgrade_deleteMissingMedia:
  "deleteMissingMedia media s = (media', s') \<Longrightarrow> mediaNoUpgrade m0 media \<Longrightarrow> mediaNoUpgrade m0 media'"
  by (auto simp: deleteMissingMedia_def noUpgrade_def split: if_splits
           intro!: mediaNoUpgrade_status mediaNoUpgrade_status4k)

lemma noUpgrade_demoteMedia:
  "demoteMedia d media s = (media', s') \<Longrightarrow> mediaNoUpgrade m0 media \<Longrightarrow> mediaNoUpgrade m0 media'"
  by (auto simp: demoteMedia_def Let_def noUpgrade_def split: if_splits
           intro!: mediaNoUpgrade_status mediaNoUpgrade_status4k)

lemma noUpgrade_seasonStep:
  "seasonStep w e (d, media, s) r = (d', media', s') \<Longrightarrow> mediaNoUpgrade m0 media
   \<Longrightarrow> mediaNoUpgrade m0 media'"
  by (auto simp: seasonStep_def Let_def split: prod.splits if_splits
           intro: noUpgrade_deleteSeason
           dest: noUpgrade_seasonExists noUpgrade_demoteMedia)

lemma noUpgrade_seasonLoop:
  assumes "foldl (seasonStep w e) (d, media, s) rs = (d', media', s')" and "mediaNoUpgrade m0 media"
  shows "mediaNoUpgrade m0 media'"
proof -
  have "mediaNoUpgrade m0 (fst (snd (foldl (seasonStep w e) (d, media, s) rs)))"
  proof (rule foldl_invariant[where P="\<lambda>acc. mediaNoUpgrade m0 (fst (snd acc))"])
    fix acc :: "bool \<times> Media \<times> state" and x
    assume "mediaNoUpgrade m0 (fst (snd acc))"
    then show "mediaNoUpgrade m0 (fst (snd (seasonStep w e acc x)))"
      by (cases acc; cases "seasonStep w e acc x") (auto dest: noUpgrade_seasonStep)
  qed (simp add: assms(2))
  with assms(1) show ?thesis by simp
qed

lemma noUpgrade_processMedia:
  "processMedia w media s = (thrown, media', s') \<Longrightarrow> mediaNoUpgrade m0 media
   \<Longrightarrow> mediaNoUpgrade m0 media'"
  by (auto simp: processMedia_def split: prod.splits if_splits
           dest: noUpgrade_mediaExists noUpgrade_deleteMissingMedia noUpgrade_seasonLoop)

lemma heap_seasonExistsInSonarr_False:
  "seasonExistsInSonarr w media r p p4 s = (False, media', s') \<Longrightarrow> seasonHeap media' = seasonHeap media"
  by (auto simp: seasonExistsInSonarr_def Let_def split: prod.splits if_splits option.splits)

lemma heap_seasonExists_False:
  "seasonExists w media r s = (False, media', s') \<Longrightarrow> seasonHeap media' = seasonHeap media"
  by (auto simp: seasonExists_def Let_def split: prod.splits if_splits
           dest: heap_seasonExistsInSonarr_False)

lemma heap_demoteMedia:
  "demoteMedia d media s = (media', s') \<Longrightarrow> seasonHeap media' = seasonHeap media"
  by (auto simp: demoteMedia_def Let_def split: if_splits)

lemma seasonStep_deletes_both:
  assumes "seasonStep w mediaExistsFlag (d, media, s) r = (d', media', s')"
    and "\<not> mediaExistsFlag \<or> fst (seasonExists w media r s) = False"
    and "notBothTerminal (seasonHeap media ! r)"
  shows "seasonHeap media' = seasonHeap (deleteSeason media r)"
proof (cases "mediaExistsFlag")
  case False
  with assms(1,3) show ?thesis
    by (auto simp: seasonStep_def split: prod.splits dest: heap_demoteMedia)
next
  case True
  obtain media1 s1 where se: "seasonExists w media r s = (False, media1, s1)"
    using assms(2) True by (cases "seasonExists w media r s") auto
  then have heap: "seasonHeap media1 = seasonHeap media"
    by (rule heap_seasonExists_False)
  with assms(3) have "notBothTerminal (seasonHeap media1 ! r)" by simp
  with assms(1) True se have "seasonHeap media' = seasonHeap (deleteSeason media1 r)"
    by (auto simp: seasonStep_def Let_def split: prod.splits dest: heap_demoteMedia)
  with heap show ?thesis by (simp add: deleteSeason_def)
qed

subsection \<open>Season removal and the status of the record\<close>



lemma sameVariantDemotion_refl [simp]: "sameVariantDemotion p p x x"
  by (simp add: sameVariantDemotion_def)











subsection \<open>Status and linkage of a deleted variant\<close>

lemma linkage_mediaUpdater_part_001:
  assumes "mediaUpdater_part_001 w media is4kFlag s = (media', s')"
  shows "variantStatus is4kFlag media' = DELETED
      \<and> linkage is4kFlag media' =
          (if mediaType media = TV \<and> findMediaStatus w media is4kFlag
           then linkage is4kFlag media else (None, None, None, None))
      \<and> variantStatus (\<not> is4kFlag) media' = variantStatus (\<not> is4kFlag) media
      \<and> linkage (\<not> is4kFlag) media' = linkage (\<not> is4kFlag) media"
proof -
  define keep where "keep = (if mediaType media = TV then findMediaStatus w media is4kFlag else False)"
  have keep: "keep = (mediaType media = TV \<and> findMediaStatus w media is4kFlag)"
    by (simp add: keep_def)
  show ?thesis
  proof (cases is4kFlag)
    case True
    with assms have "media' = media\<lparr>status4k := DELETED,
                               serviceId4k := keepIf keep (serviceId4k media),
                               externalServiceId4k := keepIf keep (externalServiceId4k media),
                               externalServiceSlug4k := keepIf keep (externalServiceSlug4k media),
                               ratingKey4k := keepIf keep (ratingKey4k media)\<rparr>"
      unfolding mediaUpdater_part_001_def Let_def keep_def[symmetric]
      by (simp split: prod.splits option.splits)
    with True keep show ?thesis
      by (cases keep) (auto simp: variantStatus_def linkage_def keepIf_def)
  next
    case False
    with assms have "media' = media\<lparr>status := DELETED,
                               serviceId := keepIf keep (serviceId media),
                               externalServiceId := keepIf keep (externalServiceId media),
                               externalServiceSlug := keepIf keep (externalServiceSlug media),
                               ratingKey := keepIf keep (ratingKey media)\<rparr>"
      unfolding mediaUpdater_part_001_def Let_def keep_def[symmetric]
      by (simp split: prod.splits option.splits)
    with False keep show ?thesis
      by (cases keep) (auto simp: variantStatus_def linkage_def keepIf_def)
  qed
qed

lemma columns_deleteVariant:
  "status4k (deleteVariant k media) = status4k media
   \<and> linkage True (deleteVariant k media) = linkage True media
   \<and> status (deleteVariant k media) =
       (if status media = AVAILABLE \<or> status media = PARTIALLY_AVAILABLE then DELETED else status media)
   \<and> linkage False (deleteVariant k media) =
       (if status media = AVAILABLE \<or> status media = PARTIALLY_AVAILABLE
        then (if k then linkage False media else (None, None, None, None))
        else linkage False media)"
  by (cases k) (simp_all add: deleteVariant_def linkage_def keepIf_def)

lemma columns_deleteVariant4k:
  "status (deleteVariant4k k media) = status media
   \<and> linkage False (deleteVariant4k k media) = linkage False media
   \<and> status4k (deleteVariant4k k media) =
       (if status4k media = AVAILABLE \<or> status4k media = PARTIALLY_AVAILABLE then DELETED else status4k media)
   \<and> linkage True (deleteVariant4k k media) =
       (if status4k media = AVAILABLE \<or> status4k media = PARTIALLY_AVAILABLE
        then (if k then linkage True media else (None, None, None, None))
        else linkage True media)"
  by (cases k) (simp_all add: deleteVariant4k_def linkage_def keepIf_def)

lemma linkage_deleteMissingMedia_part_001:
  assumes "deleteMissingMedia_part_001 w media s = (media', s')"
  shows "if variantStatus is4kFlag media = AVAILABLE \<or> variantStatus is4kFlag media = PARTIALLY_AVAILABLE
         then variantStatus is4kFlag media' = DELETED
              \<and> linkage is4kFlag media' =
                  (if mediaType media = TV \<and> findMediaStatus w media is4kFlag
                   then linkage is4kFlag media else (None, None, None, None))
         else variantStatus is4kFlag media' = variantStatus is4kFlag media
              \<and> linkage is4kFlag media' = linkage is4kFlag media"
proof -
  define keep where "keep = (if mediaType media = TV then findMediaStatus w media False else False)"
  define keep4k where "keep4k = (if mediaType media = TV then findMediaStatus w media True else False)"
  from assms have media': "media' = deleteVariant4k keep4k (deleteVariant keep media)"
    unfolding deleteMissingMedia_part_001_def Let_def keep_def[symmetric] keep4k_def[symmetric]
    by simp
  note a = columns_deleteVariant[of keep media]
  note b = columns_deleteVariant4k[of keep4k "deleteVariant keep media"]
  show ?thesis
  proof (cases is4kFlag)
    case True
    have "status4k media' = (if status4k media = AVAILABLE \<or> status4k media = PARTIALLY_AVAILABLE
                             then DELETED else status4k media)"
      "linkage True media' = (if status4k media = AVAILABLE \<or> status4k media = PARTIALLY_AVAILABLE
                              then (if keep4k then linkage True media else (None, None, None, None))
                              else linkage True media)"
      using a b unfolding media' by simp_all
    with True show ?thesis
      by (simp add: variantStatus_def keep4k_def)
  next
    case False
    have "status media' = (if status media = AVAILABLE \<or> status media = PARTIALLY_AVAILABLE
                           then DELETED else status media)"
      "linkage False media' = (if status media = AVAILABLE \<or> status media = PARTIALLY_AVAILABLE
                               then (if keep then linkage False media else (None, None, None, None))
                               else linkage False media)"
      using a b unfolding media' by simp_all
    with False show ?thesis
      by (simp add: variantStatus_def keep_def)
  qed
qed

lemma markSeasonDeleted_keeps_columns:
  "status (foldl (markSeasonDeleted f) m rs) = status m
   \<and> status4k (foldl (markSeasonDeleted f) m rs) = status4k m
   \<and> linkage True (foldl (markSeasonDeleted f) m rs) = linkage True m
   \<and> linkage False (foldl (markSeasonDeleted f) m rs) = linkage False m"
  by (rule foldl_invariant[where P="\<lambda>x. status x = status m \<and> status4k x = status4k m
          \<and> linkage True x = linkage True m \<and> linkage False x = linkage False m"])
     (auto simp: markSeasonDeleted_def Let_def linkage_def)

lemma linkage_mediaUpdater:
  assumes "mediaUpdater w media is4kFlag s = (media', s')"
  shows "variantStatus is4kFlag media' = DELETED
        \<and> linkage is4kFlag media' = (None, None, None, None)
        \<and> variantStatus (\<not> is4kFlag) media' = variantStatus (\<not> is4kFlag) media
        \<and> linkage (\<not> is4kFlag) media' = linkage (\<not> is4kFlag) media"
proof -
  define media1 where "media1 = (if is4kFlag
                    then media\<lparr>status4k := DELETED, serviceId4k := None, externalServiceId4k := None,
                               externalServiceSlug4k := None, ratingKey4k := None\<rparr>
                    else media\<lparr>status := DELETED, serviceId := None, externalServiceId := None,
                               externalServiceSlug := None, ratingKey := None\<rparr>)"
  from assms have "media' = (if mediaType media1 = TV
                    then foldl (markSeasonDeleted is4kFlag) media1 (seasons media1) else media1)"
    by (auto simp: mediaUpdater_def Let_def media1_def split: prod.splits option.splits)
  then have "variantStatus is4kFlag media' = variantStatus is4kFlag media1
      \<and> variantStatus (\<not> is4kFlag) media' = variantStatus (\<not> is4kFlag) media1
      \<and> linkage True media' = linkage True media1 \<and> linkage False media' = linkage False media1"
    using markSeasonDeleted_keeps_columns[of is4kFlag media1 "seasons media1"]
    by (cases is4kFlag) (auto simp: variantStatus_def)
  then show ?thesis
    by (cases is4kFlag) (simp_all add: media1_def variantStatus_def linkage_def)
qed

subsection \<open>Saves and changes\<close>

text \<open>
  Between two moments of the processing of a record, saves are only added, and the record
  is the same at both unless a save was issued in between.
\<close>

definition savedOrSame :: "Media \<times> state \<Rightarrow> Media \<times> state \<Rightarrow> bool" where
  "savedOrSame before after =
     (length (saves (snd before)) \<le> length (saves (snd after))
      \<and> (fst after = fst before \<or> length (saves (snd before)) < length (saves (snd after))))"

lemma savedOrSame_refl [simp]: "savedOrSame c c"
  by (simp add: savedOrSame_def)

lemma savedOrSame_frame: "frame s s' \<Longrightarrow> savedOrSame c (m, s) \<Longrightarrow> savedOrSame c (m, s')"
  by (auto simp: savedOrSame_def frame_def)

lemma savedOrSame_logger:
  "savedOrSame c (m, s) \<Longrightarrow> savedOrSame c (m, logger lvl msg s)"
  "savedOrSame c (m, s) \<Longrightarrow> savedOrSame c (m, loggerMeta lvl msg e s)"
  by (simp_all add: savedOrSame_def logger_def loggerMeta_def)

lemma savedOrSame_save:
  "save w media' s = (thrown, s') \<Longrightarrow> savedOrSame c (m, s) \<Longrightarrow> savedOrSame c (media', s')"
  by (auto simp: save_def Let_def savedOrSame_def split: option.splits)

lemma savedOrSame_mediaUpdater:
  "mediaUpdater w media f s = (media', s') \<Longrightarrow> savedOrSame c (media, s) \<Longrightarrow> savedOrSame c (media', s')"
  by (auto simp: mediaUpdater_def Let_def split: prod.splits option.splits
           intro!: savedOrSame_logger dest: savedOrSame_save savedOrSame_logger(1))

lemma savedOrSame_mediaExistsInRadarr:
  "mediaExistsInRadarr w media p p4 s = (e, media', s') \<Longrightarrow> savedOrSame c (media, s)
   \<Longrightarrow> savedOrSame c (media', s')"
  by (auto simp: mediaExistsInRadarr_def split: prod.splits if_splits
           dest: savedOrSame_mediaUpdater savedOrSame_frame[OF frame_radarrLoop[OF _ frame_refl]])

lemma savedOrSame_mediaExistsInSonarr:
  "mediaExistsInSonarr w media p p4 s = (e, media', s') \<Longrightarrow> savedOrSame c (media, s)
   \<Longrightarrow> savedOrSame c (media', s')"
  by (auto simp: mediaExistsInSonarr_def split: prod.splits if_splits
           dest: savedOrSame_mediaUpdater savedOrSame_frame[OF frame_sonarrLoop[OF _ frame_refl]])

lemma savedOrSame_mediaExists:
  "mediaExists w media s = (e, media', s') \<Longrightarrow> savedOrSame c (media, s)
   \<Longrightarrow> savedOrSame c (media', s')"
  by (auto simp: mediaExists_def Let_def split: prod.splits if_splits option.splits
           intro!: savedOrSame_logger
           dest: savedOrSame_mediaExistsInRadarr savedOrSame_mediaExistsInSonarr)

lemma savedOrSame_trans: "savedOrSame a b \<Longrightarrow> savedOrSame b c \<Longrightarrow> savedOrSame a c"
  by (auto simp: savedOrSame_def)

lemma saved_save: "save w media s = (thrown, s') \<Longrightarrow> length (saves s') = Suc (length (saves s))"
  by (auto simp: save_def Let_def split: option.splits)

lemma saved_seasonExistsInSonarr:
  assumes "seasonExistsInSonarr w media r p p4 s = (e, media', s')"
  shows "savedOrSame (media, s) (media', s')"
proof -
  obtain a b s1 where loop:
    "foldl (sonarrSeasonStep w media (seasonHeap media ! r)) (True, True, s) (sonarrServers s) = (a, b, s1)"
    by (cases "foldl (sonarrSeasonStep w media (seasonHeap media ! r)) (True, True, s) (sonarrServers s)") auto
  have f1: "frame s s1" by (rule frame_sonarrSeasonLoop[OF loop frame_refl])
  obtain m1 s2 where b1: "(if \<not> a \<and> (b \<or> p4) \<and> \<not> p then removeSeason media r s1 else (media, s1)) = (m1, s2)"
    by (cases "(if \<not> a \<and> (b \<or> p4) \<and> \<not> p then removeSeason media r s1 else (media, s1))") auto
  have f2: "frame s1 s2" and same1: "a \<Longrightarrow> m1 = media"
    using b1 by (auto split: if_splits dest: frame_removeSeason[OF _ frame_refl])
  obtain m2 s3 where b2: "(if (a \<or> p) \<and> \<not> b \<and> \<not> p4 then removeSeason4k m1 r s2 else (m1, s2)) = (m2, s3)"
    by (cases "(if (a \<or> p) \<and> \<not> b \<and> \<not> p4 then removeSeason4k m1 r s2 else (m1, s2))") auto
  have f3: "frame s2 s3" and same2: "b \<Longrightarrow> m2 = m1"
    using b2 by (auto split: if_splits dest: frame_removeSeason4k[OF _ frame_refl])
  have mono: "length (saves s) \<le> length (saves s3)"
    using f1 f2 f3 by (simp add: frame_def)
  show ?thesis
  proof (cases "\<not> a \<or> \<not> b")
    case True
    obtain thrown s4 where sv: "save w (m2\<lparr>seasons := seasons m2 @ [r]\<rparr>) s3 = (thrown, s4)"
      by (cases "save w (m2\<lparr>seasons := seasons m2 @ [r]\<rparr>) s3") auto
    from assms loop b1 b2 True sv have "length (saves s') = length (saves s4)"
      by (auto simp: seasonExistsInSonarr_def Let_def loggerMeta_def split: option.splits)
    with saved_save[OF sv] mono show ?thesis by (simp add: savedOrSame_def)
  next
    case False
    with assms loop b1 b2 have "media' = m2" "s' = s3"
      by (auto simp: seasonExistsInSonarr_def Let_def)
    with False same1 same2 mono show ?thesis by (simp add: savedOrSame_def)
  qed
qed

lemma savedOrSame_seasonExistsInSonarr:
  "seasonExistsInSonarr w media r p p4 s = (e, media', s') \<Longrightarrow> savedOrSame c (media, s)
   \<Longrightarrow> savedOrSame c (media', s')"
  using saved_seasonExistsInSonarr savedOrSame_trans by blast

lemma savedOrSame_seasonExists:
  "seasonExists w media r s = (e, media', s') \<Longrightarrow> savedOrSame c (media, s)
   \<Longrightarrow> savedOrSame c (media', s')"
  by (auto simp: seasonExists_def Let_def split: prod.splits if_splits option.splits
           intro!: savedOrSame_logger
           dest: savedOrSame_seasonExistsInSonarr savedOrSame_frame[OF frame_seasonPlexProbe[OF _ frame_refl]])

text \<open>
  In the season loop of a series that still exists: until a season has been found missing
  from every instance, the record is as it was unless a save was issued.
\<close>

lemma savedOrSame_seasonStep:
  assumes "seasonStep w True (d, media, s) r = (d', media', s')"
    and "d \<or> savedOrSame c (media, s)"
  shows "d' \<or> savedOrSame c (media', s')"
proof (cases "d'")
  case True
  then show ?thesis by simp
next
  case False
  obtain e media1 s1 where se: "seasonExists w media r s = (e, media1, s1)"
    by (cases "seasonExists w media r s") auto
  from assms(1) se False have e and d: "\<not> d"
    by (auto simp: seasonStep_def Let_def split: prod.splits if_splits)
  with assms(1) se have "media' = media1" "s' = s1"
    by (auto simp: seasonStep_def demoteMedia_def split: prod.splits)
  with savedOrSame_seasonExists[OF se] assms(2) d show ?thesis by simp
qed

lemma savedOrSame_seasonLoop:
  assumes "foldl (seasonStep w True) (d, media, s) rs = (d', media', s')"
    and "d \<or> savedOrSame c (media, s)"
  shows "d' \<or> savedOrSame c (media', s')"
proof -
  have "fst (foldl (seasonStep w True) (d, media, s) rs)
        \<or> savedOrSame c (snd (foldl (seasonStep w True) (d, media, s) rs))"
  proof (rule foldl_invariant[where P="\<lambda>acc. fst acc \<or> savedOrSame c (snd acc)"])
    fix acc :: "bool \<times> Media \<times> state" and x
    assume "fst acc \<or> savedOrSame c (snd acc)"
    then show "fst (seasonStep w True acc x) \<or> savedOrSame c (snd (seasonStep w True acc x))"
      using savedOrSame_seasonStep[of w "fst acc" "fst (snd acc)" "snd (snd acc)" x
          "fst (seasonStep w True acc x)" "fst (snd (seasonStep w True acc x))"
          "snd (snd (seasonStep w True acc x))" c]
      by simp
  qed (simp add: assms(2))
  with assms(1) show ?thesis by simp
qed

lemma unsaved_processMedia:
  assumes "processMedia w media s = (thrown, media', s')" and "length (saves s') = length (saves s)"
  shows "media' = media"
proof -
  obtain e media1 s1 where me: "mediaExists w media s = (e, media1, s1)"
    by (cases "mediaExists w media s") auto
  have a1: "savedOrSame (media, s) (media1, s1)"
    by (rule savedOrSame_mediaExists[OF me]) simp
  obtain media2 s2 where dm: "(if \<not> e then deleteMissingMedia media1 s1 else (media1, s1)) = (media2, s2)"
    by (cases "(if \<not> e then deleteMissingMedia media1 s1 else (media1, s1))") auto
  obtain d media3 s3 where lp: "(if mediaType media2 = TV
            then foldl (seasonStep w e) (False, media2, s2) (seasons media2)
            else (False, media2, s2)) = (d, media3, s3)"
    by (cases "(if mediaType media2 = TV
            then foldl (seasonStep w e) (False, media2, s2) (seasons media2)
            else (False, media2, s2))") auto
  have f: "frame s s3"
    using me dm lp
    by (auto split: if_splits
        dest: frame_mediaExists[OF _ frame_refl] frame_deleteMissingMedia frame_seasonLoop)
  show ?thesis
  proof (cases "\<not> e \<or> d")
    case True
    obtain t s4 where sv: "save w media3 s3 = (t, s4)" by (cases "save w media3 s3") auto
    with assms(1) me dm lp True have "s' = s4"
      by (auto simp: processMedia_def)
    with saved_save[OF sv] f assms(2) show ?thesis by (simp add: frame_def)
  next
    case False
    with dm have m2: "media2 = media1" "s2 = s1" by simp_all
    from assms(1) me dm lp False have res: "media' = media3" "s' = s3"
      by (auto simp: processMedia_def)
    have "d \<or> savedOrSame (media, s) (media3, s3)"
    proof (cases "mediaType media2 = TV")
      case True
      with lp False have "foldl (seasonStep w True) (False, media2, s2) (seasons media2) = (d, media3, s3)"
        by simp
      from savedOrSame_seasonLoop[OF this, of "(media, s)"] a1 m2 show ?thesis by simp
    next
      case False
      with lp a1 m2 show ?thesis by simp
    qed
    with False res assms(2) show ?thesis by (simp add: savedOrSame_def)
  qed
qed

text \<open>
  What a save leaves behind in the record held in memory: across the processing of a
  record the array \<^verbatim>\<open>seasons\<close> only gets longer and a status that is \<open>DELETED\<close> stays so
  (\<open>grows\<close>); \<open>grew\<close> adds that the array did get longer or a status did become \<open>DELETED\<close>.
\<close>

definition grows :: "Media \<Rightarrow> Media \<Rightarrow> bool" where
  "grows before after =
     (length (seasons before) \<le> length (seasons after)
      \<and> (status before = DELETED \<longrightarrow> status after = DELETED)
      \<and> (status4k before = DELETED \<longrightarrow> status4k after = DELETED))"

definition grew :: "Media \<Rightarrow> Media \<Rightarrow> bool" where
  "grew before after =
     (grows before after
      \<and> (length (seasons before) < length (seasons after)
           \<or> status before \<noteq> DELETED \<and> status after = DELETED
           \<or> status4k before \<noteq> DELETED \<and> status4k after = DELETED))"

definition progress :: "Media \<times> state \<Rightarrow> Media \<times> state \<Rightarrow> bool" where
  "progress before after =
     (grows (fst before) (fst after)
      \<and> length (saves (snd before)) \<le> length (saves (snd after))
      \<and> (length (saves (snd before)) < length (saves (snd after)) \<longrightarrow> grew (fst before) (fst after)))"

lemma grows_refl [simp]: "grows m m"
  by (simp add: grows_def)

lemma grows_trans: "grows a b \<Longrightarrow> grows b c \<Longrightarrow> grows a c"
  by (auto simp: grows_def)

lemma grew_grows: "grew a b \<Longrightarrow> grows b c \<Longrightarrow> grew a c"
  by (auto simp: grew_def grows_def)

lemma grows_grew: "grows a b \<Longrightarrow> grew b c \<Longrightarrow> grew a c"
  by (auto simp: grew_def grows_def)

lemma grew_differs: "grew a b \<Longrightarrow> a \<noteq> b"
  by (auto simp: grew_def)

lemma progress_refl [simp]: "progress c c"
  by (simp add: progress_def)

lemma progress_step:
  assumes "progress c (m, s)" and "grows m m'" and "length (saves s) \<le> length (saves s')"
    and "length (saves s) < length (saves s') \<Longrightarrow> grew m m'"
  shows "progress c (m', s')"
proof -
  from assms(1,2) have g: "grows (fst c) m'" by (auto simp: progress_def intro: grows_trans)
  have "length (saves (snd c)) < length (saves s') \<Longrightarrow> grew (fst c) m'"
  proof -
    assume lt: "length (saves (snd c)) < length (saves s')"
    show "grew (fst c) m'"
    proof (cases "length (saves s) < length (saves s')")
      case True
      from assms(4)[OF this] assms(1) show ?thesis by (auto simp: progress_def intro: grows_grew)
    next
      case False
      with assms(3) lt have "length (saves (snd c)) < length (saves s)" by simp
      with assms(1,2) show ?thesis by (auto simp: progress_def intro: grew_grows)
    qed
  qed
  with g assms(1,3) show ?thesis by (auto simp: progress_def)
qed

lemma progress_quiet:
  "progress c (m, s) \<Longrightarrow> saves s' = saves s \<Longrightarrow> progress c (m, s')"
  by (simp add: progress_def)

lemma progress_logger:
  "progress c (m, s) \<Longrightarrow> progress c (m, logger lvl msg s)"
  "progress c (m, s) \<Longrightarrow> progress c (m, loggerMeta lvl msg e s)"
  by (simp_all add: progress_def logger_def loggerMeta_def)

lemma markSeasonDeleted_keeps_seasons:
  "seasons (foldl (markSeasonDeleted f) m rs) = seasons m"
  by (rule foldl_invariant[where P="\<lambda>x. seasons x = seasons m"])
     (auto simp: markSeasonDeleted_def Let_def)

lemma statuses_mediaUpdater:
  assumes "mediaUpdater w media f s = (media', s')"
  shows "status media' = (if f then status media else DELETED)
         \<and> status4k media' = (if f then DELETED else status4k media)"
  using linkage_mediaUpdater[OF assms] by (cases f) (simp_all add: variantStatus_def)

lemma seasons_mediaUpdater:
  assumes "mediaUpdater w media f s = (media', s')"
  shows "seasons media' = seasons media \<and> length (saves s') = Suc (length (saves s))"
proof -
  define media1 where "media1 = (if f
                    then media\<lparr>status4k := DELETED, serviceId4k := None, externalServiceId4k := None,
                               externalServiceSlug4k := None, ratingKey4k := None\<rparr>
                    else media\<lparr>status := DELETED, serviceId := None, externalServiceId := None,
                               externalServiceSlug := None, ratingKey := None\<rparr>)"
  define media2 where "media2 = (if mediaType media1 = TV
                    then foldl (markSeasonDeleted f) media1 (seasons media1) else media1)"
  obtain t s2 where sv: "save w media2 (logger Info ''Media does not exist in your Sonarr/Radarr and Plex instance. Status will be changed to deleted.'' s) = (t, s2)"
    by (cases "save w media2 (logger Info ''Media does not exist in your Sonarr/Radarr and Plex instance. Status will be changed to deleted.'' s)") auto
  from assms sv have "media' = media2" "length (saves s') = length (saves s2)"
    unfolding mediaUpdater_def Let_def media1_def[symmetric] media2_def[symmetric]
    by (auto simp: loggerMeta_def split: option.splits)
  moreover have "seasons media2 = seasons media"
    using markSeasonDeleted_keeps_seasons[of f media1 "seasons media1"]
    by (cases f) (simp_all add: media2_def media1_def)
  moreover from saved_save[OF sv] have "length (saves s2) = Suc (length (saves s))"
    by (simp add: logger_def loggerMeta_def)
  ultimately show ?thesis by simp
qed

lemma progress_mediaUpdater:
  assumes "mediaUpdater w media f s = (media', s')" and "variantStatus f media \<noteq> DELETED"
    and "progress c (media, s)"
  shows "progress c (media', s')"
proof (rule progress_step[OF assms(3)])
  note st = statuses_mediaUpdater[OF assms(1)] and se = seasons_mediaUpdater[OF assms(1)]
  show g: "grows media media'" using st se by (cases f) (simp_all add: grows_def)
  show "length (saves s) \<le> length (saves s')" using se by simp
  show "grew media media'"
    using g st se assms(2) by (cases f) (simp_all add: grew_def variantStatus_def)
qed

lemma saves_radarrLoop:
  "saves (snd (snd (foldl (radarrStep w media) (a, b, s) servers))) = saves s"
  by (rule foldl_invariant[where P="\<lambda>acc. saves (snd (snd acc)) = saves s"])
     (auto simp: radarrStep_def Let_def loggerMeta_def split: prod.splits resp.splits)

lemma saves_sonarrLoop:
  "saves (snd (snd (foldl (sonarrStep w media) (a, b, s) servers))) = saves s"
  by (rule foldl_invariant[where P="\<lambda>acc. saves (snd (snd acc)) = saves s"])
     (auto simp: sonarrStep_def sonarrFetch_def Let_def loggerMeta_def
           split: prod.splits resp.splits if_splits)

lemma saves_sonarrSeasonLoop:
  "saves (snd (snd (foldl (sonarrSeasonStep w media season) (a, b, s) servers))) = saves s"
  by (rule foldl_invariant[where P="\<lambda>acc. saves (snd (snd acc)) = saves s"])
     (auto simp: sonarrSeasonStep_def cachedSeasons_def Let_def loggerMeta_def
           split: prod.splits resp.splits if_splits option.splits)

lemma saves_seasonPlexProbe:
  "seasonPlexProbe w media season s = (p, p4, thrown, s') \<Longrightarrow> saves s' = saves s"
  by (auto simp: seasonPlexProbe_def plexChildren_def
           split: prod.splits resp.splits if_splits option.splits)

text \<open>The two guarded calls of \<^verbatim>\<open>mediaUpdater\<close> at the end of both title checks.\<close>

lemma progress_updaters:
  assumes u1: "(if c1 \<and> status media \<noteq> DELETED \<and> status media \<noteq> UNKNOWN
                then mediaUpdater w media False s1 else (media, s1)) = (m1, s2)"
    and u2: "(if c2 \<and> status4k m1 \<noteq> DELETED \<and> status4k m1 \<noteq> UNKNOWN
              then mediaUpdater w m1 True s2 else (m1, s2)) = (m2, s3)"
    and p: "progress c (media, s1)"
  shows "progress c (m2, s3)"
proof -
  have p1: "progress c (m1, s2)"
  proof (cases "c1 \<and> status media \<noteq> DELETED \<and> status media \<noteq> UNKNOWN")
    case True
    with u1 have "mediaUpdater w media False s1 = (m1, s2)" by simp
    from progress_mediaUpdater[OF this _ p] True show ?thesis by (simp add: variantStatus_def)
  next
    case False
    with u1 p show ?thesis by auto
  qed
  show ?thesis
  proof (cases "c2 \<and> status4k m1 \<noteq> DELETED \<and> status4k m1 \<noteq> UNKNOWN")
    case True
    with u2 have "mediaUpdater w m1 True s2 = (m2, s3)" by simp
    from progress_mediaUpdater[OF this _ p1] True show ?thesis by (simp add: variantStatus_def)
  next
    case False
    with u2 p1 show ?thesis by auto
  qed
qed

lemma progress_mediaExistsInRadarr:
  assumes "mediaExistsInRadarr w media p p4 s = (e, media', s')" and "progress c (media, s)"
  shows "progress c (media', s')"
proof -
  obtain a b s1 where loop: "foldl (radarrStep w media) (True, True, s) (radarrServers s) = (a, b, s1)"
    by (cases "foldl (radarrStep w media) (True, True, s) (radarrServers s)") auto
  have "saves s1 = saves s"
    using saves_radarrLoop[of w media True True s "radarrServers s"] loop by simp
  with assms(2) have p1: "progress c (media, s1)" by (rule progress_quiet)
  obtain m1 s2 where u1: "(if (\<not> a \<and> (b \<or> p4) \<and> \<not> p) \<and> status media \<noteq> DELETED \<and> status media \<noteq> UNKNOWN
            then mediaUpdater w media False s1 else (media, s1)) = (m1, s2)"
    by (cases "(if (\<not> a \<and> (b \<or> p4) \<and> \<not> p) \<and> status media \<noteq> DELETED \<and> status media \<noteq> UNKNOWN
            then mediaUpdater w media False s1 else (media, s1))") auto
  obtain m2 s3 where u2: "(if ((a \<or> p) \<and> \<not> b \<and> \<not> p4) \<and> status4k m1 \<noteq> DELETED \<and> status4k m1 \<noteq> UNKNOWN
            then mediaUpdater w m1 True s2 else (m1, s2)) = (m2, s3)"
    by (cases "(if ((a \<or> p) \<and> \<not> b \<and> \<not> p4) \<and> status4k m1 \<noteq> DELETED \<and> status4k m1 \<noteq> UNKNOWN
            then mediaUpdater w m1 True s2 else (m1, s2))") auto
  from assms(1) loop u1 u2 have "media' = m2" "s' = s3"
    by (simp_all add: mediaExistsInRadarr_def conj_assoc)
  with progress_updaters[OF u1 u2 p1] show ?thesis by simp
qed

lemma progress_mediaExistsInSonarr:
  assumes "mediaExistsInSonarr w media p p4 s = (e, media', s')" and "progress c (media, s)"
  shows "progress c (media', s')"
proof -
  obtain a b s1 where loop: "foldl (sonarrStep w media) (True, True, s) (sonarrServers s) = (a, b, s1)"
    by (cases "foldl (sonarrStep w media) (True, True, s) (sonarrServers s)") auto
  have "saves s1 = saves s"
    using saves_sonarrLoop[of w media True True s "sonarrServers s"] loop by simp
  with assms(2) have p1: "progress c (media, s1)" by (rule progress_quiet)
  obtain m1 s2 where u1: "(if (\<not> a \<and> (b \<or> p4) \<and> \<not> p) \<and> status media \<noteq> DELETED \<and> status media \<noteq> UNKNOWN
            then mediaUpdater w media False s1 else (media, s1)) = (m1, s2)"
    by (cases "(if (\<not> a \<and> (b \<or> p4) \<and> \<not> p) \<and> status media \<noteq> DELETED \<and> status media \<noteq> UNKNOWN
            then mediaUpdater w media False s1 else (media, s1))") auto
  obtain m2 s3 where u2: "(if ((a \<or> p) \<and> \<not> b \<and> \<not> p4) \<and> status4k m1 \<noteq> DELETED \<and> status4k m1 \<noteq> UNKNOWN
            then mediaUpdater w m1 True s2 else (m1, s2)) = (m2, s3)"
    by (cases "(if ((a \<or> p) \<and> \<not> b \<and> \<not> p4) \<and> status4k m1 \<noteq> DELETED \<and> status4k m1 \<noteq> UNKNOWN
            then mediaUpdater w m1 True s2 else (m1, s2))") auto
  from assms(1) loop u1 u2 have "media' = m2" "s' = s3"
    by (simp_all add: mediaExistsInSonarr_def conj_assoc)
  with progress_updaters[OF u1 u2 p1] show ?thesis by simp
qed

lemma progress_mediaExists:
  "mediaExists w media s = (e, media', s') \<Longrightarrow> progress c (media, s)
   \<Longrightarrow> progress c (media', s')"
  by (auto simp: mediaExists_def Let_def split: prod.splits if_splits option.splits
           intro!: progress_logger
           dest: progress_mediaExistsInRadarr progress_mediaExistsInSonarr)

lemma progress_grows:
  assumes "progress c (m, s)" and "grows m m'" and "saves s' = saves s"
  shows "progress c (m', s')"
  using assms(3) by (intro progress_step[OF assms(1,2)]) simp_all

lemma grows_removeSeason:
  "removeSeason media r s = (media', s') \<Longrightarrow> grows media media' \<and> saves s' = saves s"
  by (auto simp: removeSeason_def Let_def grows_def logger_def loggerMeta_def split: if_splits)

lemma grows_removeSeason4k:
  "removeSeason4k media r s = (media', s') \<Longrightarrow> grows media media' \<and> saves s' = saves s"
  by (auto simp: removeSeason4k_def Let_def grows_def logger_def loggerMeta_def split: if_splits)

lemma grows_deleteSeason: "grows media (deleteSeason media r)"
  by (simp add: deleteSeason_def grows_def)

lemma grows_demoteMedia:
  "demoteMedia d media s = (media', s') \<Longrightarrow> grows media media' \<and> saves s' = saves s"
  by (auto simp: demoteMedia_def Let_def grows_def logger_def loggerMeta_def split: if_splits)

lemma grows_deleteMissingMedia:
  "deleteMissingMedia media s = (media', s') \<Longrightarrow> grows media media' \<and> saves s' = saves s"
  by (auto simp: deleteMissingMedia_def grows_def logger_def loggerMeta_def split: if_splits)

lemma progress_seasonExistsInSonarr:
  assumes "seasonExistsInSonarr w media r p p4 s = (e, media', s')" and "progress c (media, s)"
  shows "progress c (media', s') \<and> (\<not> e \<longrightarrow> length (saves s) < length (saves s'))"
proof -
  obtain a b s1 where loop:
    "foldl (sonarrSeasonStep w media (seasonHeap media ! r)) (True, True, s) (sonarrServers s) = (a, b, s1)"
    by (cases "foldl (sonarrSeasonStep w media (seasonHeap media ! r)) (True, True, s) (sonarrServers s)") auto
  have q1: "saves s1 = saves s"
    using saves_sonarrSeasonLoop[of w media "seasonHeap media ! r" True True s "sonarrServers s"] loop
    by simp
  obtain m1 s2 where b1: "(if \<not> a \<and> (b \<or> p4) \<and> \<not> p then removeSeason media r s1 else (media, s1)) = (m1, s2)"
    by (cases "(if \<not> a \<and> (b \<or> p4) \<and> \<not> p then removeSeason media r s1 else (media, s1))") auto
  have g1: "grows media m1 \<and> saves s2 = saves s1"
    using b1 by (auto split: if_splits dest: grows_removeSeason)
  obtain m2 s3 where b2: "(if (a \<or> p) \<and> \<not> b \<and> \<not> p4 then removeSeason4k m1 r s2 else (m1, s2)) = (m2, s3)"
    by (cases "(if (a \<or> p) \<and> \<not> b \<and> \<not> p4 then removeSeason4k m1 r s2 else (m1, s2))") auto
  have g2: "grows m1 m2 \<and> saves s3 = saves s2"
    using b2 by (auto split: if_splits dest: grows_removeSeason4k)
  from g1 g2 have g: "grows media m2" by (auto intro: grows_trans)
  from q1 g1 g2 have q: "saves s3 = saves s" by simp
  from assms(1) loop b1 b2 have e: "e = (a \<or> b \<or> p \<or> p4)"
    by (auto simp: seasonExistsInSonarr_def Let_def split: prod.splits if_splits option.splits)
  show ?thesis
  proof (cases "\<not> a \<or> \<not> b")
    case True
    define m3 where "m3 = m2\<lparr>seasons := seasons m2 @ [r]\<rparr>"
    obtain thrown s4 where sv: "save w m3 s3 = (thrown, s4)"
      by (cases "save w m3 s3") auto
    from assms(1) loop b1 b2 True sv have res: "media' = m3" "length (saves s') = length (saves s4)"
      by (auto simp: seasonExistsInSonarr_def Let_def loggerMeta_def m3_def split: option.splits)
    have "grew media m3"
      using g by (auto simp: grew_def grows_def m3_def)
    moreover then have "grows media m3" by (simp add: grew_def)
    moreover have "length (saves s') = Suc (length (saves s))"
      using res saved_save[OF sv] q by simp
    ultimately have "progress c (m3, s')"
      by (intro progress_step[OF assms(2)]) simp_all
    with res \<open>length (saves s') = Suc (length (saves s))\<close> show ?thesis by simp
  next
    case False
    with assms(1) loop b1 b2 have "media' = m2" "s' = s3"
      by (auto simp: seasonExistsInSonarr_def Let_def)
    with progress_grows[OF assms(2) g q] e False show ?thesis by simp
  qed
qed

lemma progress_seasonExists:
  assumes "seasonExists w media r s = (e, media', s')" and "progress c (media, s)"
  shows "progress c (media', s') \<and> (\<not> e \<longrightarrow> length (saves s) < length (saves s'))"
proof -
  obtain p p4 thrown s1 where probe: "seasonPlexProbe w media (seasonHeap media ! r) s = (p, p4, thrown, s1)"
    by (cases "seasonPlexProbe w media (seasonHeap media ! r) s") auto
  define s2 where "s2 = (case thrown of None \<Rightarrow> s1
      | Some msg \<Rightarrow> if \<not> includesStr msg ''response code: 404''
                    then loggerMeta Debug ''Failed to retrieve plex children metadata'' (Some msg) s1
                    else s1)"
  have q: "saves s2 = saves s"
    using saves_seasonPlexProbe[OF probe] by (simp add: s2_def loggerMeta_def split: option.splits)
  with assms(2) have p2: "progress c (media, s2)" by (rule progress_quiet)
  show ?thesis
  proof (cases "p \<and> p4")
    case True
    with assms(1) probe have "e" "media' = media" "s' = s2"
      by (auto simp: seasonExists_def Let_def s2_def)
    with p2 show ?thesis by simp
  next
    case False
    obtain e1 m1 s3 where son: "seasonExistsInSonarr w media r p p4 s2 = (e1, m1, s3)"
      by (cases "seasonExistsInSonarr w media r p p4 s2") auto
    from assms(1) probe False son have "e = e1" "media' = m1" "saves s' = saves s3"
      by (auto simp: seasonExists_def Let_def s2_def[symmetric] logger_def loggerMeta_def
               split: if_splits)
    with progress_seasonExistsInSonarr[OF son p2] q show ?thesis
      by (simp add: progress_def)
  qed
qed

lemma progress_seasonStep:
  assumes "seasonStep w e (d, media, s) r = (d', media', s')"
    and "progress c (media, s)" and "d \<longrightarrow> grew (fst c) media"
  shows "progress c (media', s') \<and> (d' \<longrightarrow> grew (fst c) media')"
proof (cases "\<not> e \<and> notBothTerminal (seasonHeap media ! r)")
  case True
  obtain m4 s4 where dm: "demoteMedia d (deleteSeason media r) s = (m4, s4)"
    by (cases "demoteMedia d (deleteSeason media r) s") auto
  with assms(1) True have res: "d' = d" "media' = m4" "s' = s4"
    by (auto simp: seasonStep_def)
  from grows_demoteMedia[OF dm] have g: "grows media m4" and q: "saves s4 = saves s"
    using grows_deleteSeason[of media r] by (auto intro: grows_trans)
  from progress_grows[OF assms(2) g q] assms(3) g res show ?thesis
    by (auto intro: grew_grows)
next
  case False
  obtain x m1 s1 where se: "seasonExists w media r s = (x, m1, s1)"
    by (cases "seasonExists w media r s") auto
  note p1 = progress_seasonExists[OF se assms(2)]
  from progress_seasonExists[OF se progress_refl] have g1: "grows media m1"
    by (simp add: progress_def)
  show ?thesis
  proof (cases x)
    case True
    obtain m4 s4 where dm: "demoteMedia d m1 s1 = (m4, s4)"
      by (cases "demoteMedia d m1 s1") auto
    with assms(1) False se True have res: "d' = d" "media' = m4" "s' = s4"
      by (auto simp: seasonStep_def)
    from grows_demoteMedia[OF dm] have g: "grows m1 m4" and q: "saves s4 = saves s1" by simp_all
    from p1 have "progress c (m1, s1)" by simp
    from progress_grows[OF this g q] assms(3) g g1 res show ?thesis
      by (auto intro: grew_grows)
  next
    case no: False
    define m2 where "m2 = (if notBothTerminal (seasonHeap m1 ! r) then deleteSeason m1 r else m1)"
    define s2 where "s2 = logger Info ''Removing season because it does not exist in any of your media instances.'' s1"
    obtain m4 s4 where dm: "demoteMedia True m2 s2 = (m4, s4)"
      by (cases "demoteMedia True m2 s2") auto
    with assms(1) False se no have res: "d'" "media' = m4" "s' = s4"
      by (auto simp: seasonStep_def Let_def m2_def s2_def)
    have "grows m1 m2" by (simp add: m2_def grows_deleteSeason)
    moreover have "grows m2 m4" using grows_demoteMedia[OF dm] by simp
    ultimately have g: "grows m1 m4" by (rule grows_trans)
    have q: "saves s4 = saves s1"
      using grows_demoteMedia[OF dm] by (simp add: s2_def logger_def loggerMeta_def)
    from p1 have pr: "progress c (m1, s1)" and lt: "length (saves s) < length (saves s1)"
      using no by simp_all
    from assms(2) lt have "length (saves (snd c)) < length (saves s1)"
      by (simp add: progress_def)
    with pr have "grew (fst c) m1" by (simp add: progress_def)
    then have "grew (fst c) m4" using g by (rule grew_grows)
    with progress_grows[OF pr g q] res show ?thesis by simp
  qed
qed

lemma progress_seasonLoop:
  assumes "foldl (seasonStep w e) (d, media, s) rs = (d', media', s')"
    and "progress c (media, s)" and "d \<longrightarrow> grew (fst c) media"
  shows "progress c (media', s') \<and> (d' \<longrightarrow> grew (fst c) media')"
proof -
  have "progress c (snd (foldl (seasonStep w e) (d, media, s) rs))
        \<and> (fst (foldl (seasonStep w e) (d, media, s) rs)
             \<longrightarrow> grew (fst c) (fst (snd (foldl (seasonStep w e) (d, media, s) rs))))"
  proof (rule foldl_invariant[where P="\<lambda>acc. progress c (snd acc)
                                          \<and> (fst acc \<longrightarrow> grew (fst c) (fst (snd acc)))"])
    fix acc :: "bool \<times> Media \<times> state" and x
    assume "progress c (snd acc) \<and> (fst acc \<longrightarrow> grew (fst c) (fst (snd acc)))"
    then show "progress c (snd (seasonStep w e acc x))
        \<and> (fst (seasonStep w e acc x) \<longrightarrow> grew (fst c) (fst (snd (seasonStep w e acc x))))"
      using progress_seasonStep[of w e "fst acc" "fst (snd acc)" "snd (snd acc)" x
          "fst (seasonStep w e acc x)" "fst (snd (seasonStep w e acc x))"
          "snd (snd (seasonStep w e acc x))" c]
      by simp
  qed (simp add: assms(2,3))
  with assms(1) show ?thesis by simp
qed

lemma mediaType_mediaUpdater:
  assumes "mediaUpdater w media f s = (media', s')"
  shows "mediaType media' = mediaType media"
proof -
  have "\<And>m rs. mediaType (foldl (markSeasonDeleted f) m rs) = mediaType m"
    subgoal for m rs
      by (rule foldl_invariant[where P="\<lambda>x. mediaType x = mediaType m"])
         (auto simp: markSeasonDeleted_def Let_def)
    done
  with assms show ?thesis
    by (cases f) (auto simp: mediaUpdater_def Let_def split: prod.splits option.splits)
qed

lemma mediaType_mediaExistsInRadarr:
  "mediaExistsInRadarr w media p p4 s = (e, media', s') \<Longrightarrow> mediaType media' = mediaType media"
  by (auto simp: mediaExistsInRadarr_def split: prod.splits if_splits dest: mediaType_mediaUpdater)

lemma statuses_updaters:
  assumes u1: "(if c1 \<and> status media \<noteq> DELETED \<and> status media \<noteq> UNKNOWN
                then mediaUpdater w media False s1 else (media, s1)) = (m1, s2)"
    and u2: "(if c2 \<and> status4k m1 \<noteq> DELETED \<and> status4k m1 \<noteq> UNKNOWN
              then mediaUpdater w m1 True s2 else (m1, s2)) = (m2, s3)"
  shows "(status m2 = status media \<or> status m2 = DELETED)
         \<and> (status4k m2 = status4k media \<or> status4k m2 = DELETED)"
proof -
  have a: "(status m1 = status media \<or> status m1 = DELETED) \<and> status4k m1 = status4k media"
    using u1 by (auto split: if_splits dest: statuses_mediaUpdater)
  have b: "status m2 = status m1 \<and> (status4k m2 = status4k m1 \<or> status4k m2 = DELETED)"
    using u2 by (auto split: if_splits dest: statuses_mediaUpdater)
  from a b show ?thesis by auto
qed

lemma statuses_mediaExistsInRadarr:
  assumes "mediaExistsInRadarr w media p p4 s = (e, media', s')"
  shows "(status media' = status media \<or> status media' = DELETED)
         \<and> (status4k media' = status4k media \<or> status4k media' = DELETED)"
proof -
  obtain a b s1 where loop: "foldl (radarrStep w media) (True, True, s) (radarrServers s) = (a, b, s1)"
    by (cases "foldl (radarrStep w media) (True, True, s) (radarrServers s)") auto
  obtain m1 s2 where u1: "(if (\<not> a \<and> (b \<or> p4) \<and> \<not> p) \<and> status media \<noteq> DELETED \<and> status media \<noteq> UNKNOWN
            then mediaUpdater w media False s1 else (media, s1)) = (m1, s2)"
    by (cases "(if (\<not> a \<and> (b \<or> p4) \<and> \<not> p) \<and> status media \<noteq> DELETED \<and> status media \<noteq> UNKNOWN
            then mediaUpdater w media False s1 else (media, s1))") auto
  obtain m2 s3 where u2: "(if ((a \<or> p) \<and> \<not> b \<and> \<not> p4) \<and> status4k m1 \<noteq> DELETED \<and> status4k m1 \<noteq> UNKNOWN
            then mediaUpdater w m1 True s2 else (m1, s2)) = (m2, s3)"
    by (cases "(if ((a \<or> p) \<and> \<not> b \<and> \<not> p4) \<and> status4k m1 \<noteq> DELETED \<and> status4k m1 \<noteq> UNKNOWN
            then mediaUpdater w m1 True s2 else (m1, s2))") auto
  from assms(1) loop u1 u2 have "media' = m2"
    by (simp add: mediaExistsInRadarr_def conj_assoc)
  with statuses_updaters[OF u1 u2] show ?thesis by simp
qed

lemma statuses_mediaExistsInSonarr:
  assumes "mediaExistsInSonarr w media p p4 s = (e, media', s')"
  shows "(status media' = status media \<or> status media' = DELETED)
         \<and> (status4k media' = status4k media \<or> status4k media' = DELETED)"
proof -
  obtain a b s1 where loop: "foldl (sonarrStep w media) (True, True, s) (sonarrServers s) = (a, b, s1)"
    by (cases "foldl (sonarrStep w media) (True, True, s) (sonarrServers s)") auto
  obtain m1 s2 where u1: "(if (\<not> a \<and> (b \<or> p4) \<and> \<not> p) \<and> status media \<noteq> DELETED \<and> status media \<noteq> UNKNOWN
            then mediaUpdater w media False s1 else (media, s1)) = (m1, s2)"
    by (cases "(if (\<not> a \<and> (b \<or> p4) \<and> \<not> p) \<and> status media \<noteq> DELETED \<and> status media \<noteq> UNKNOWN
            then mediaUpdater w media False s1 else (media, s1))") auto
  obtain m2 s3 where u2: "(if ((a \<or> p) \<and> \<not> b \<and> \<not> p4) \<and> status4k m1 \<noteq> DELETED \<and> status4k m1 \<noteq> UNKNOWN
            then mediaUpdater w m1 True s2 else (m1, s2)) = (m2, s3)"
    by (cases "(if ((a \<or> p) \<and> \<not> b \<and> \<not> p4) \<and> status4k m1 \<noteq> DELETED \<and> status4k m1 \<noteq> UNKNOWN
            then mediaUpdater w m1 True s2 else (m1, s2))") auto
  from assms(1) loop u1 u2 have "media' = m2"
    by (simp add: mediaExistsInSonarr_def conj_assoc)
  with statuses_updaters[OF u1 u2] show ?thesis by simp
qed

lemma statuses_mediaExists:
  assumes "mediaExists w media s = (e, media', s')"
  shows "(status media' = status media \<or> status media' = DELETED)
         \<and> (status4k media' = status4k media \<or> status4k media' = DELETED)"
proof -
  obtain p p4 thrown where probe: "mediaPlexProbe w media s = (p, p4, thrown)"
    by (cases "mediaPlexProbe w media s") auto
  define s1 where "s1 = (case thrown of None \<Rightarrow> s
      | Some msg \<Rightarrow> if \<not> includesStr msg ''response code: 404''
                    then loggerMeta Debug ''Failed to retrieve plex metadata'' (Some msg) s else s)"
  show ?thesis
  proof (cases "p \<and> p4")
    case True
    with assms probe have "media' = media"
      by (auto simp: mediaExists_def Let_def)
    then show ?thesis by simp
  next
    case False
    show ?thesis
    proof (cases "mediaType media")
      case MOVIE
      obtain r m1 s2 where rad: "mediaExistsInRadarr w media p p4 s1 = (r, m1, s2)"
        by (cases "mediaExistsInRadarr w media p p4 s1") auto
      have "mediaType m1 = MOVIE"
        using mediaType_mediaExistsInRadarr[OF rad] MOVIE by simp
      with assms probe False MOVIE rad have "media' = m1"
        by (auto simp: mediaExists_def Let_def s1_def[symmetric] split: if_splits)
      with statuses_mediaExistsInRadarr[OF rad] show ?thesis by simp
    next
      case TV
      obtain r m1 s2 where son: "mediaExistsInSonarr w media p p4 s1 = (r, m1, s2)"
        by (cases "mediaExistsInSonarr w media p p4 s1") auto
      with assms probe False TV have "media' = m1"
        by (auto simp: mediaExists_def Let_def s1_def[symmetric] split: if_splits)
      with statuses_mediaExistsInSonarr[OF son] show ?thesis by simp
    qed
  qed
qed

lemma saved_processMedia:
  assumes "processMedia w media s = (thrown, media', s')" and "whereOptions media"
    and "length (saves s) < length (saves s')"
  shows "grew media media'"
proof -
  obtain e media1 s1 where me: "mediaExists w media s = (e, media1, s1)"
    by (cases "mediaExists w media s") auto
  have p1: "progress (media, s) (media1, s1)"
    by (rule progress_mediaExists[OF me]) simp
  note st1 = statuses_mediaExists[OF me]
  obtain media2 s2 where dm: "(if \<not> e then deleteMissingMedia media1 s1 else (media1, s1)) = (media2, s2)"
    by (cases "(if \<not> e then deleteMissingMedia media1 s1 else (media1, s1))") auto
  have g2: "grows media1 media2 \<and> saves s2 = saves s1"
    using dm by (auto split: if_splits dest: grows_deleteMissingMedia)
  then have p2: "progress (media, s) (media2, s2)"
    using progress_grows[OF p1] by simp
  obtain d media3 s3 where lp: "(if mediaType media2 = TV
            then foldl (seasonStep w e) (False, media2, s2) (seasons media2)
            else (False, media2, s2)) = (d, media3, s3)"
    by (cases "(if mediaType media2 = TV
            then foldl (seasonStep w e) (False, media2, s2) (seasons media2)
            else (False, media2, s2))") auto
  have p3: "progress (media, s) (media3, s3) \<and> (d \<longrightarrow> grew media media3)"
  proof (cases "mediaType media2 = TV")
    case True
    with lp have "foldl (seasonStep w e) (False, media2, s2) (seasons media2) = (d, media3, s3)"
      by simp
    from progress_seasonLoop[OF this, of "(media, s)"] p2 show ?thesis by simp
  next
    case False
    with lp p2 show ?thesis by simp
  qed
  have g23: "grows media2 media3"
  proof (cases "mediaType media2 = TV")
    case True
    with lp have "foldl (seasonStep w e) (False, media2, s2) (seasons media2) = (d, media3, s3)"
      by simp
    from progress_seasonLoop[OF this, of "(media2, s2)"] show ?thesis by (simp add: progress_def)
  next
    case False
    with lp show ?thesis by simp
  qed
  from assms(1) me dm lp have res: "media' = media3"
    by (auto simp: processMedia_def split: prod.splits if_splits)
  show ?thesis
  proof (cases e)
    case False
    with dm have dm': "deleteMissingMedia media1 s1 = (media2, s2)" by simp
    have "(status media \<noteq> DELETED \<and> status media2 = DELETED)
          \<or> (status4k media \<noteq> DELETED \<and> status4k media2 = DELETED)"
      using dm' st1 assms(2)
      by (auto simp: deleteMissingMedia_def whereOptions_def notBothTerminal_def split: if_splits)
    moreover from p2 have "grows media media2" by (simp add: progress_def)
    ultimately have "grew media media2" by (auto simp: grew_def)
    with g23 res show ?thesis by (auto intro: grew_grows)
  next
    case True
    show ?thesis
    proof (cases d)
      case True
      with p3 res show ?thesis by simp
    next
      case False
      from \<open>e\<close> have eT: "e = True" by simp
      from False me[unfolded eT] dm[unfolded eT] lp[unfolded eT] assms(1) have "s' = s3"
        by (auto simp: processMedia_def)
      with p3 assms(3) res show ?thesis by (simp add: progress_def)
    qed
  qed
qed

subsection \<open>Linkage across the processing of a record\<close>

lemma demotedOnly_refl [simp]: "demotedOnly m m"
  by (simp add: demotedOnly_def)

lemma demotedOnly_heap [simp]:
  "demotedOnly m0 (m\<lparr>seasonHeap := h\<rparr>) = demotedOnly m0 m"
  "demotedOnly m0 (m\<lparr>seasons := rs\<rparr>) = demotedOnly m0 m"
  by (simp_all add: demotedOnly_def linkage_def)

lemma demotedOnly_removeSeason:
  "removeSeason media r s = (media', s') \<Longrightarrow> demotedOnly m0 media \<Longrightarrow> demotedOnly m0 media'"
  by (auto simp: removeSeason_def Let_def demotedOnly_def linkage_def split: if_splits)

lemma demotedOnly_removeSeason4k:
  "removeSeason4k media r s = (media', s') \<Longrightarrow> demotedOnly m0 media \<Longrightarrow> demotedOnly m0 media'"
  by (auto simp: removeSeason4k_def Let_def demotedOnly_def linkage_def split: if_splits)

lemma demotedOnly_seasonExistsInSonarr:
  "seasonExistsInSonarr w media r p p4 s = (e, media', s') \<Longrightarrow> demotedOnly m0 media
   \<Longrightarrow> demotedOnly m0 media'"
  by (auto simp: seasonExistsInSonarr_def Let_def split: prod.splits if_splits option.splits
           dest: demotedOnly_removeSeason demotedOnly_removeSeason4k)

lemma demotedOnly_seasonExists:
  "seasonExists w media r s = (e, media', s') \<Longrightarrow> demotedOnly m0 media \<Longrightarrow> demotedOnly m0 media'"
  by (auto simp: seasonExists_def Let_def split: prod.splits if_splits
           dest: demotedOnly_seasonExistsInSonarr)

lemma demotedOnly_deleteSeason: "demotedOnly m0 media \<Longrightarrow> demotedOnly m0 (deleteSeason media r)"
  by (simp add: deleteSeason_def)

lemma demotedOnly_demoteMedia:
  "demoteMedia d media s = (media', s') \<Longrightarrow> demotedOnly m0 media \<Longrightarrow> demotedOnly m0 media'"
  by (auto simp: demoteMedia_def Let_def demotedOnly_def linkage_def split: if_splits)

lemma demotedOnly_seasonStep:
  "seasonStep w e (d, media, s) r = (d', media', s') \<Longrightarrow> demotedOnly m0 media
   \<Longrightarrow> demotedOnly m0 media'"
  by (auto simp: seasonStep_def Let_def split: prod.splits if_splits
           intro: demotedOnly_deleteSeason
           dest: demotedOnly_seasonExists demotedOnly_demoteMedia)

lemma demotedOnly_seasonLoop:
  assumes "foldl (seasonStep w e) (d, media, s) rs = (d', media', s')" and "demotedOnly m0 media"
  shows "demotedOnly m0 media'"
proof -
  have "demotedOnly m0 (fst (snd (foldl (seasonStep w e) (d, media, s) rs)))"
  proof (rule foldl_invariant[where P="\<lambda>acc. demotedOnly m0 (fst (snd acc))"])
    fix acc :: "bool \<times> Media \<times> state" and x
    assume "demotedOnly m0 (fst (snd acc))"
    then show "demotedOnly m0 (fst (snd (seasonStep w e acc x)))"
      by (cases acc; cases "seasonStep w e acc x") (auto dest: demotedOnly_seasonStep)
  qed (simp add: assms(2))
  with assms(1) show ?thesis by simp
qed

lemma deletedOrKept_updaters:
  assumes u1: "(if c1 \<and> status media \<noteq> DELETED \<and> status media \<noteq> UNKNOWN
                then mediaUpdater w media False s1 else (media, s1)) = (m1, s2)"
    and u2: "(if c2 \<and> status4k m1 \<noteq> DELETED \<and> status4k m1 \<noteq> UNKNOWN
              then mediaUpdater w m1 True s2 else (m1, s2)) = (m2, s3)"
  shows "deletedOrKept False media m2 \<and> deletedOrKept True media m2"
proof -
  have a: "deletedOrKept False media m1 \<and> variantStatus True m1 = variantStatus True media
           \<and> linkage True m1 = linkage True media"
  proof (cases "c1 \<and> status media \<noteq> DELETED \<and> status media \<noteq> UNKNOWN")
    case True
    with u1 have "mediaUpdater w media False s1 = (m1, s2)" by simp
    from linkage_mediaUpdater[OF this] True show ?thesis
      by (simp add: deletedOrKept_def variantStatus_def)
  next
    case False
    with u1 have "m1 = media" by auto
    then show ?thesis by (simp add: deletedOrKept_def)
  qed
  have b: "deletedOrKept True m1 m2 \<and> variantStatus False m2 = variantStatus False m1
           \<and> linkage False m2 = linkage False m1"
  proof (cases "c2 \<and> status4k m1 \<noteq> DELETED \<and> status4k m1 \<noteq> UNKNOWN")
    case True
    with u2 have "mediaUpdater w m1 True s2 = (m2, s3)" by simp
    from linkage_mediaUpdater[OF this] True show ?thesis
      by (simp add: deletedOrKept_def variantStatus_def)
  next
    case False
    with u2 have "m2 = m1" by auto
    then show ?thesis by (simp add: deletedOrKept_def)
  qed
  from a b show ?thesis by (auto simp: deletedOrKept_def)
qed

lemma deletedOrKept_mediaExistsInRadarr:
  assumes "mediaExistsInRadarr w media p p4 s = (e, media', s')"
  shows "deletedOrKept False media media' \<and> deletedOrKept True media media'"
proof -
  obtain a b s1 where loop: "foldl (radarrStep w media) (True, True, s) (radarrServers s) = (a, b, s1)"
    by (cases "foldl (radarrStep w media) (True, True, s) (radarrServers s)") auto
  obtain m1 s2 where u1: "(if (\<not> a \<and> (b \<or> p4) \<and> \<not> p) \<and> status media \<noteq> DELETED \<and> status media \<noteq> UNKNOWN
            then mediaUpdater w media False s1 else (media, s1)) = (m1, s2)"
    by (cases "(if (\<not> a \<and> (b \<or> p4) \<and> \<not> p) \<and> status media \<noteq> DELETED \<and> status media \<noteq> UNKNOWN
            then mediaUpdater w media False s1 else (media, s1))") auto
  obtain m2 s3 where u2: "(if ((a \<or> p) \<and> \<not> b \<and> \<not> p4) \<and> status4k m1 \<noteq> DELETED \<and> status4k m1 \<noteq> UNKNOWN
            then mediaUpdater w m1 True s2 else (m1, s2)) = (m2, s3)"
    by (cases "(if ((a \<or> p) \<and> \<not> b \<and> \<not> p4) \<and> status4k m1 \<noteq> DELETED \<and> status4k m1 \<noteq> UNKNOWN
            then mediaUpdater w m1 True s2 else (m1, s2))") auto
  from assms(1) loop u1 u2 have "media' = m2"
    by (simp add: mediaExistsInRadarr_def conj_assoc)
  with deletedOrKept_updaters[OF u1 u2] show ?thesis by simp
qed

lemma deletedOrKept_mediaExistsInSonarr:
  assumes "mediaExistsInSonarr w media p p4 s = (e, media', s')"
  shows "deletedOrKept False media media' \<and> deletedOrKept True media media'"
proof -
  obtain a b s1 where loop: "foldl (sonarrStep w media) (True, True, s) (sonarrServers s) = (a, b, s1)"
    by (cases "foldl (sonarrStep w media) (True, True, s) (sonarrServers s)") auto
  obtain m1 s2 where u1: "(if (\<not> a \<and> (b \<or> p4) \<and> \<not> p) \<and> status media \<noteq> DELETED \<and> status media \<noteq> UNKNOWN
            then mediaUpdater w media False s1 else (media, s1)) = (m1, s2)"
    by (cases "(if (\<not> a \<and> (b \<or> p4) \<and> \<not> p) \<and> status media \<noteq> DELETED \<and> status media \<noteq> UNKNOWN
            then mediaUpdater w media False s1 else (media, s1))") auto
  obtain m2 s3 where u2: "(if ((a \<or> p) \<and> \<not> b \<and> \<not> p4) \<and> status4k m1 \<noteq> DELETED \<and> status4k m1 \<noteq> UNKNOWN
            then mediaUpdater w m1 True s2 else (m1, s2)) = (m2, s3)"
    by (cases "(if ((a \<or> p) \<and> \<not> b \<and> \<not> p4) \<and> status4k m1 \<noteq> DELETED \<and> status4k m1 \<noteq> UNKNOWN
            then mediaUpdater w m1 True s2 else (m1, s2))") auto
  from assms(1) loop u1 u2 have "media' = m2"
    by (simp add: mediaExistsInSonarr_def conj_assoc)
  with deletedOrKept_updaters[OF u1 u2] show ?thesis by simp
qed

lemma deletedOrKept_mediaExists:
  assumes "mediaExists w media s = (e, media', s')"
  shows "deletedOrKept False media media' \<and> deletedOrKept True media media'"
proof -
  obtain p p4 thrown where probe: "mediaPlexProbe w media s = (p, p4, thrown)"
    by (cases "mediaPlexProbe w media s") auto
  define s1 where "s1 = (case thrown of None \<Rightarrow> s
      | Some msg \<Rightarrow> if \<not> includesStr msg ''response code: 404''
                    then loggerMeta Debug ''Failed to retrieve plex metadata'' (Some msg) s else s)"
  show ?thesis
  proof (cases "p \<and> p4")
    case True
    with assms probe have "media' = media"
      by (auto simp: mediaExists_def Let_def)
    then show ?thesis by (simp add: deletedOrKept_def)
  next
    case False
    show ?thesis
    proof (cases "mediaType media")
      case MOVIE
      obtain r m1 s2 where rad: "mediaExistsInRadarr w media p p4 s1 = (r, m1, s2)"
        by (cases "mediaExistsInRadarr w media p p4 s1") auto
      have "mediaType m1 = MOVIE"
        using mediaType_mediaExistsInRadarr[OF rad] MOVIE by simp
      with assms probe False MOVIE rad have "media' = m1"
        by (auto simp: mediaExists_def Let_def s1_def[symmetric] split: if_splits)
      with deletedOrKept_mediaExistsInRadarr[OF rad] show ?thesis by simp
    next
      case TV
      obtain r m1 s2 where son: "mediaExistsInSonarr w media p p4 s1 = (r, m1, s2)"
        by (cases "mediaExistsInSonarr w media p p4 s1") auto
      with assms probe False TV have "media' = m1"
        by (auto simp: mediaExists_def Let_def s1_def[symmetric] split: if_splits)
      with deletedOrKept_mediaExistsInSonarr[OF son] show ?thesis by simp
    qed
  qed
qed

lemma linkage_deleteMissingMedia:
  assumes "deleteMissingMedia media s = (media', s')"
  shows "if notBothTerminal media
         then linkage is4kFlag media' = (None, None, None, None)
              \<and> variantStatus is4kFlag media' =
                  (if variantStatus is4kFlag media = UNKNOWN then UNKNOWN else DELETED)
         else media' = media"
  using assms
  by (cases is4kFlag) (auto simp: deleteMissingMedia_def linkage_def variantStatus_def split: if_splits)


lemma demotedOnly_variant:
  assumes "demotedOnly before after"
  shows "linkage f after = linkage f before
         \<and> (variantStatus f after = variantStatus f before
              \<or> variantStatus f before = AVAILABLE \<and> variantStatus f after = PARTIALLY_AVAILABLE)"
  using assms by (cases f) (auto simp: demotedOnly_def variantStatus_def)

lemma notBothTerminal_variant:
  "notBothTerminal media =
     ((variantStatus f media \<noteq> DELETED \<or> variantStatus (\<not> f) media \<noteq> DELETED)
      \<and> (variantStatus f media \<noteq> UNKNOWN \<or> variantStatus (\<not> f) media \<noteq> UNKNOWN))"
  by (cases f) (auto simp: notBothTerminal_def variantStatus_def)

lemma linkage_processMedia:
  assumes "processMedia w media s = (thrown, media', s')"
  shows "(linkage f media' = linkage f media \<or> linkage f media' = (None, None, None, None))
    \<and> (variantStatus f media \<noteq> DELETED \<and> variantStatus f media' = DELETED
         \<longrightarrow> linkage f media' = (None, None, None, None))
    \<and> (linkage f media' \<noteq> linkage f media
         \<longrightarrow> variantStatus f media' = DELETED
             \<or> variantStatus f media = UNKNOWN \<and> variantStatus f media' = UNKNOWN
               \<and> variantStatus (\<not> f) media' = DELETED)"
proof -
  obtain e media1 s1 where me: "mediaExists w media s = (e, media1, s1)"
    by (cases "mediaExists w media s") auto
  obtain media2 s2 where dm: "(if \<not> e then deleteMissingMedia media1 s1 else (media1, s1)) = (media2, s2)"
    by (cases "(if \<not> e then deleteMissingMedia media1 s1 else (media1, s1))") auto
  obtain d media3 s3 where lp: "(if mediaType media2 = TV
            then foldl (seasonStep w e) (False, media2, s2) (seasons media2)
            else (False, media2, s2)) = (d, media3, s3)"
    by (cases "(if mediaType media2 = TV
            then foldl (seasonStep w e) (False, media2, s2) (seasons media2)
            else (False, media2, s2))") auto
  from assms me dm lp have m': "media' = media3"
    by (auto simp: processMedia_def split: if_splits prod.splits)
  have k: "deletedOrKept f media media1" "deletedOrKept (\<not> f) media media1"
    using deletedOrKept_mediaExists[OF me] by (cases f; simp)+
  have "demotedOnly media2 media3"
  proof (cases "mediaType media2 = TV")
    case True
    with lp have "foldl (seasonStep w e) (False, media2, s2) (seasons media2) = (d, media3, s3)"
      by simp
    then show ?thesis by (rule demotedOnly_seasonLoop) simp
  next
    case False
    with lp show ?thesis by simp
  qed
  then have l: "linkage f media' = linkage f media2"
    "variantStatus f media' = variantStatus f media2
       \<or> variantStatus f media2 = AVAILABLE \<and> variantStatus f media' = PARTIALLY_AVAILABLE"
    "variantStatus (\<not> f) media' = variantStatus (\<not> f) media2
       \<or> variantStatus (\<not> f) media2 = AVAILABLE \<and> variantStatus (\<not> f) media' = PARTIALLY_AVAILABLE"
    using demotedOnly_variant[of media2 media3] m' by auto
  show ?thesis
  proof (cases "\<not> e \<and> notBothTerminal media1")
    case True
    with dm have "deleteMissingMedia media1 s1 = (media2, s2)" by simp
    from linkage_deleteMissingMedia[OF this] True
    have d2: "linkage f media2 = (None, None, None, None)"
      "variantStatus f media2 = (if variantStatus f media1 = UNKNOWN then UNKNOWN else DELETED)"
      "variantStatus (\<not> f) media2 = (if variantStatus (\<not> f) media1 = UNKNOWN then UNKNOWN else DELETED)"
      by (simp_all del: not_not)
    from True have nb: "variantStatus f media1 \<noteq> UNKNOWN \<or> variantStatus (\<not> f) media1 \<noteq> UNKNOWN"
      using notBothTerminal_variant[of media1 f] by simp
    from k l d2 nb show ?thesis
      by (auto simp: deletedOrKept_def split: if_splits)
  next
    case False
    have "media2 = media1"
    proof (cases e)
      case True
      with dm show ?thesis by simp
    next
      case f: False
      with False have "\<not> notBothTerminal media1" by simp
      with dm f show ?thesis by (simp add: deleteMissingMedia_def)
    qed
    with k l show ?thesis
      by (auto simp: deletedOrKept_def)
  qed
qed

subsection \<open>The judgement of \<^verbatim>\<open>seasonExists\<close>\<close>

lemma sonarrSeasonStep_flags:
  assumes "sonarrSeasonStep w media season (a, b, s) server = (a', b', s')"
  shows "a' = (a \<and> (is4k server \<or> \<not> serverDenies w media season (sonarrSeasonsCache s) server))
       \<and> b' = (b \<and> (\<not> is4k server \<or> \<not> serverDenies w media season (sonarrSeasonsCache s) server))
       \<and> (\<forall>k. fst k \<noteq> serverId server \<longrightarrow> sonarrSeasonsCache s' k = sonarrSeasonsCache s k)"
proof (cases "is4k server")
  case True
  show ?thesis
  proof (cases "truthyNum (externalServiceId4k media)")
    case t: True
    from assms True t show ?thesis
      by (cases "sonarrSeasonsCache s (serverId server, externalServiceId4k media)";
          cases "sonarr_getSeriesById w server (the (externalServiceId4k media))")
         (auto simp: sonarrSeasonStep_def cachedSeasons_def serverDenies_def seasonsFor_def Let_def
               loggerMeta_def split: if_splits)
  next
    case f: False
    from assms True f show ?thesis
      by (auto simp: sonarrSeasonStep_def serverDenies_def seasonsFor_def Let_def split: if_splits)
  qed
next
  case False
  show ?thesis
  proof (cases "truthyNum (externalServiceId media)")
    case t: True
    from assms False t show ?thesis
      by (cases "sonarrSeasonsCache s (serverId server, externalServiceId media)";
          cases "sonarr_getSeriesById w server (the (externalServiceId media))")
         (auto simp: sonarrSeasonStep_def cachedSeasons_def serverDenies_def seasonsFor_def Let_def
               loggerMeta_def split: if_splits)
  next
    case f: False
    from assms False f show ?thesis
      by (auto simp: sonarrSeasonStep_def serverDenies_def seasonsFor_def Let_def split: if_splits)
  qed
qed

lemma serverDenies_cong:
  assumes "\<forall>k. fst k = serverId server \<longrightarrow> cache' k = cache k"
  shows "serverDenies w media season cache' server = serverDenies w media season cache server"
  using assms by (simp add: serverDenies_def seasonsFor_def Let_def)

lemma sonarrSeasonLoop_flags:
  assumes "foldl (sonarrSeasonStep w media season) (a, b, s) servers = (a', b', s')"
    and "distinct (map serverId servers)"
  shows "a' = (a \<and> (\<forall>server \<in> set servers. is4k server
                      \<or> \<not> serverDenies w media season (sonarrSeasonsCache s) server))
       \<and> b' = (b \<and> (\<forall>server \<in> set servers. \<not> is4k server
                      \<or> \<not> serverDenies w media season (sonarrSeasonsCache s) server))"
  using assms
proof (induction servers arbitrary: a b s)
  case Nil
  then show ?case by simp
next
  case (Cons server servers)
  obtain a1 b1 s1 where step: "sonarrSeasonStep w media season (a, b, s) server = (a1, b1, s1)"
    by (cases "sonarrSeasonStep w media season (a, b, s) server") auto
  note flags = sonarrSeasonStep_flags[OF step]
  from Cons.prems(1) step have rest: "foldl (sonarrSeasonStep w media season) (a1, b1, s1) servers = (a', b', s')"
    by simp
  from Cons.prems(2) have d: "distinct (map serverId servers)"
    by simp
  from Cons.prems(2) have other: "\<forall>x \<in> set servers. serverId x \<noteq> serverId server"
    by (force simp: image_iff)
  have same: "\<forall>x \<in> set servers. serverDenies w media season (sonarrSeasonsCache s1) x
                 = serverDenies w media season (sonarrSeasonsCache s) x"
  proof
    fix x assume "x \<in> set servers"
    with other have "serverId x \<noteq> serverId server" by simp
    with flags have "\<forall>k. fst k = serverId x \<longrightarrow> sonarrSeasonsCache s1 k = sonarrSeasonsCache s k"
      by simp
    then show "serverDenies w media season (sonarrSeasonsCache s1) x
                 = serverDenies w media season (sonarrSeasonsCache s) x"
      by (rule serverDenies_cong)
  qed
  from Cons.IH[OF rest d] flags same show ?case by auto
qed

lemma plexChildren_again:
  assumes "plexChildren w key s = Returns (children, s1)"
  shows "(case plexChildren w key' s1 of Throws msg \<Rightarrow> Throws msg | Returns (c, t) \<Rightarrow> Returns c)
       = (case plexChildren w key' s of Throws msg \<Rightarrow> Throws msg | Returns (c, t) \<Rightarrow> Returns c)"
  using assms
  by (cases "key' = key")
     (auto simp: plexChildren_def split: option.splits resp.splits)

lemma plexChildren_keeps:
  assumes "plexChildren w key s = Returns (children, s1)"
  shows "sonarrSeasonsCache s1 = sonarrSeasonsCache s \<and> sonarrServers s1 = sonarrServers s"
  using assms by (auto simp: plexChildren_def split: option.splits resp.splits)

lemma seasonPlexProbe_flags:
  assumes "seasonPlexProbe w media season s = (inPlex, inPlex4k, thrown, s1)"
  shows "inPlex = plexListsSeason w season (ratingKey media) s"
    and "inPlex4k = (\<not> plexFails w (ratingKey media) s
                      \<and> plexListsSeason w season (ratingKey4k media) s)"
    and "sonarrSeasonsCache s1 = sonarrSeasonsCache s"
    and "sonarrServers s1 = sonarrServers s"
proof -
  show "inPlex = plexListsSeason w season (ratingKey media) s"
    using assms
    by (auto simp: seasonPlexProbe_def plexListsSeason_def split: if_splits resp.splits prod.splits)
  show "sonarrSeasonsCache s1 = sonarrSeasonsCache s"
    using assms
    by (auto simp: seasonPlexProbe_def split: if_splits resp.splits prod.splits
             dest!: plexChildren_keeps)
  show "sonarrServers s1 = sonarrServers s"
    using assms
    by (auto simp: seasonPlexProbe_def split: if_splits resp.splits prod.splits
             dest!: plexChildren_keeps)
  show "inPlex4k = (\<not> plexFails w (ratingKey media) s
                      \<and> plexListsSeason w season (ratingKey4k media) s)"
  proof (cases "truthyStr (ratingKey media)")
    case False
    with assms show ?thesis
      by (auto simp: seasonPlexProbe_def plexListsSeason_def plexFails_def
               split: if_splits resp.splits prod.splits)
  next
    case True
    show ?thesis
    proof (cases "plexChildren w (the (ratingKey media)) s")
      case (Throws msg)
      with assms True show ?thesis
        by (simp add: seasonPlexProbe_def plexFails_def)
    next
      case (Returns listed)
      obtain children t where l: "listed = (children, t)" by (cases listed)
      note again = plexChildren_again[OF Returns[unfolded l], of "the (ratingKey4k media)"]
      from assms True Returns l again show ?thesis
        by (auto simp: seasonPlexProbe_def plexListsSeason_def plexFails_def
                 split: if_splits resp.splits prod.splits)
    qed
  qed
qed

lemma seasonJudgedExistent_flags:
  assumes "distinct (map serverId (sonarrServers s))"
  shows "seasonJudgedExistent w media r s =
           (plexListsSeason w (seasonHeap media ! r) (ratingKey media) s
              \<or> (\<forall>server \<in> set (sonarrServers s). \<not> is4k server \<longrightarrow>
                    \<not> serverDenies w media (seasonHeap media ! r) (sonarrSeasonsCache s) server),
            (\<not> plexFails w (ratingKey media) s
                \<and> plexListsSeason w (seasonHeap media ! r) (ratingKey4k media) s)
              \<or> (\<forall>server \<in> set (sonarrServers s). is4k server \<longrightarrow>
                    \<not> serverDenies w media (seasonHeap media ! r) (sonarrSeasonsCache s) server))"
proof -
  obtain inPlex inPlex4k thrown s1
    where probe: "seasonPlexProbe w media (seasonHeap media ! r) s = (inPlex, inPlex4k, thrown, s1)"
    by (cases "seasonPlexProbe w media (seasonHeap media ! r) s") auto
  note plex = seasonPlexProbe_flags[OF probe]
  define s2 where "s2 = (case thrown of
                  None \<Rightarrow> s1
                | Some msg \<Rightarrow>
                    if \<not> includesStr msg ''response code: 404''
                    then loggerMeta Debug ''Failed to retrieve plex children metadata'' (Some msg) s1
                    else s1)"
  have s2: "sonarrSeasonsCache s2 = sonarrSeasonsCache s" "sonarrServers s2 = sonarrServers s"
    using plex(3,4) by (auto simp: s2_def loggerMeta_def split: option.splits)
  obtain inSonarr inSonarr4k s3
    where loop: "foldl (sonarrSeasonStep w media (seasonHeap media ! r)) (True, True, s2)
                   (sonarrServers s) = (inSonarr, inSonarr4k, s3)"
    by (cases "foldl (sonarrSeasonStep w media (seasonHeap media ! r)) (True, True, s2)
                   (sonarrServers s)") auto
  note sonarr = sonarrSeasonLoop_flags[OF loop assms, unfolded s2]
  have "seasonJudgedExistent w media r s
          = (if inPlex \<and> inPlex4k then (True, True) else (inSonarr \<or> inPlex, inSonarr4k \<or> inPlex4k))"
    using probe loop s2 by (simp add: seasonJudgedExistent_def s2_def[symmetric])
  with plex(1,2) sonarr show ?thesis by auto
qed

lemma seasonExists_judged:
  "fst (seasonExists w media r s)
     = (fst (seasonJudgedExistent w media r s) \<or> snd (seasonJudgedExistent w media r s))"
  by (auto simp: seasonExists_def seasonExistsInSonarr_def seasonJudgedExistent_def Let_def
           split: prod.splits)

lemma heap_removeSeason:
  "seasonHeap (fst (removeSeason media r s)) =
     (if status (seasonHeap media ! r) \<noteq> DELETED \<and> status (seasonHeap media ! r) \<noteq> UNKNOWN
      then (seasonHeap media)[r := (seasonHeap media ! r)\<lparr>status := DELETED\<rparr>]
      else seasonHeap media)"
  by (simp add: removeSeason_def Let_def)

lemma heap_removeSeason4k:
  "seasonHeap (fst (removeSeason4k media r s)) =
     (if status4k (seasonHeap media ! r) \<noteq> DELETED \<and> status4k (seasonHeap media ! r) \<noteq> UNKNOWN
      then (seasonHeap media)[r := (seasonHeap media ! r)\<lparr>status4k := DELETED\<rparr>]
      else seasonHeap media)"
  by (simp add: removeSeason4k_def Let_def)

lemma heap_seasonExistsInSonarr:
  assumes "foldl (sonarrSeasonStep w media (seasonHeap media ! r)) (True, True, s) (sonarrServers s)
             = (a, b, t)"
  shows "seasonHeap (fst (snd (seasonExistsInSonarr w media r p p4 s))) =
           (if \<not> (a \<or> p) \<and> (b \<or> p4) then seasonHeap (fst (removeSeason media r t))
            else if (a \<or> p) \<and> \<not> (b \<or> p4) then seasonHeap (fst (removeSeason4k media r t))
            else seasonHeap media)"
proof -
  obtain media1 t2 where r1: "(if \<not> a \<and> (b \<or> p4) \<and> \<not> p
            then removeSeason media r t else (media, t)) = (media1, t2)"
    by (cases "(if \<not> a \<and> (b \<or> p4) \<and> \<not> p then removeSeason media r t else (media, t))") auto
  obtain media2 t3 where r2: "(if (a \<or> p) \<and> \<not> b \<and> \<not> p4
            then removeSeason4k media1 r t2 else (media1, t2)) = (media2, t3)"
    by (cases "(if (a \<or> p) \<and> \<not> b \<and> \<not> p4 then removeSeason4k media1 r t2 else (media1, t2))") auto
  have "seasonHeap (fst (snd (seasonExistsInSonarr w media r p p4 s))) = seasonHeap media2"
    using assms r1 r2
    by (simp add: seasonExistsInSonarr_def Let_def split: prod.splits option.splits)
  moreover have "seasonHeap media2 =
           (if \<not> (a \<or> p) \<and> (b \<or> p4) then seasonHeap (fst (removeSeason media r t))
            else if (a \<or> p) \<and> \<not> (b \<or> p4) then seasonHeap (fst (removeSeason4k media r t))
            else seasonHeap media)"
  proof (cases "\<not> a \<and> (b \<or> p4) \<and> \<not> p")
    case True
    with r1 r2 have "media2 = fst (removeSeason media r t)" by auto
    with True show ?thesis by auto
  next
    case False
    with r1 have m1: "media1 = media" "t2 = t" by auto
    show ?thesis
    proof (cases "(a \<or> p) \<and> \<not> b \<and> \<not> p4")
      case True
      with r2 m1 have "media2 = fst (removeSeason4k media r t)" by auto
      with True False show ?thesis by auto
    next
      case f: False
      with r2 m1 have "media2 = media" by auto
      with False f show ?thesis by auto
    qed
  qed
  ultimately show ?thesis by simp
qed

lemma seasonExists_removes:
  assumes "seasonJudgedExistent w media r s = (std, fourK)"
  shows "seasonHeap (fst (snd (seasonExists w media r s))) =
           (if \<not> std \<and> fourK \<and> status (seasonHeap media ! r) \<noteq> DELETED
                 \<and> status (seasonHeap media ! r) \<noteq> UNKNOWN
            then (seasonHeap media)[r := (seasonHeap media ! r)\<lparr>status := DELETED\<rparr>]
            else if std \<and> \<not> fourK \<and> status4k (seasonHeap media ! r) \<noteq> DELETED
                 \<and> status4k (seasonHeap media ! r) \<noteq> UNKNOWN
            then (seasonHeap media)[r := (seasonHeap media ! r)\<lparr>status4k := DELETED\<rparr>]
            else seasonHeap media)"
proof -
  obtain p p4 thrown s1
    where probe: "seasonPlexProbe w media (seasonHeap media ! r) s = (p, p4, thrown, s1)"
    by (cases "seasonPlexProbe w media (seasonHeap media ! r) s") auto
  define s2 where "s2 = (case thrown of
                  None \<Rightarrow> s1
                | Some msg \<Rightarrow>
                    if \<not> includesStr msg ''response code: 404''
                    then loggerMeta Debug ''Failed to retrieve plex children metadata'' (Some msg) s1
                    else s1)"
  show ?thesis
  proof (cases "p \<and> p4")
    case True
    with probe have "seasonExists w media r s = (True, media, s2)"
      by (simp add: seasonExists_def s2_def[symmetric])
    moreover from True probe assms have "std \<and> fourK"
      by (simp add: seasonJudgedExistent_def s2_def[symmetric])
    ultimately show ?thesis by simp
  next
    case False
    obtain a b t where loop: "foldl (sonarrSeasonStep w media (seasonHeap media ! r)) (True, True, s2)
                   (sonarrServers s2) = (a, b, t)"
      by (cases "foldl (sonarrSeasonStep w media (seasonHeap media ! r)) (True, True, s2)
                   (sonarrServers s2)") auto
    from False probe loop assms have j: "std = (a \<or> p)" "fourK = (b \<or> p4)"
      by (auto simp: seasonJudgedExistent_def s2_def[symmetric])
    obtain x m3 s3 where sx: "seasonExistsInSonarr w media r p p4 s2 = (x, m3, s3)"
      by (cases "seasonExistsInSonarr w media r p p4 s2") auto
    from False probe sx have "fst (snd (seasonExists w media r s)) = m3"
      by (auto simp: seasonExists_def s2_def[symmetric])
    with sx
    have "seasonHeap (fst (snd (seasonExists w media r s)))
            = seasonHeap (fst (snd (seasonExistsInSonarr w media r p p4 s2)))"
      by simp
    with heap_seasonExistsInSonarr[OF loop, of p p4] j show ?thesis
      by (simp add: heap_removeSeason heap_removeSeason4k)
  qed
qed

subsection \<open>The loop of \<^verbatim>\<open>run\<close>\<close>

lemma runRecords_monotone:
  "runRecords w page s = (thrown, s') \<Longrightarrow> started s \<le> started s' \<and> set (logs s) \<subseteq> set (logs s')"
proof (induction page arbitrary: s)
  case Nil
  then show ?case by simp
next
  case (Cons media rest)
  show ?case
  proof (cases "running s")
    case False
    with Cons.prems show ?thesis by simp
  next
    case True
    obtain t media1 s1 where p: "processMedia w media (s\<lparr>started := Suc (started s)\<rparr>) = (t, media1, s1)"
      by (cases "processMedia w media (s\<lparr>started := Suc (started s)\<rparr>)") auto
    have "frame (s\<lparr>started := Suc (started s)\<rparr>) s1"
      by (rule frame_processMedia[OF p]) simp
    then have s1: "started s1 = Suc (started s)" "set (logs s) \<subseteq> set (logs s1)"
      by (simp_all add: frame_def)
    define s2 where "s2 = (if cancel_during w (started s) then cancel s1 else s1)"
    have s2: "started s2 = Suc (started s)" "set (logs s) \<subseteq> set (logs s2)"
      using s1 by (simp_all add: s2_def cancel_def)
    show ?thesis
    proof (cases t)
      case None
      with Cons.prems True p have "runRecords w rest s2 = (thrown, s')"
        by (simp add: Let_def s2_def)
      from Cons.IH[OF this] s2 show ?thesis by auto
    next
      case (Some msg)
      with Cons.prems True p have "s' = s2" by (simp add: Let_def s2_def)
      with s2 show ?thesis by simp
    qed
  qed
qed

lemma runRecords_starts_first:
  assumes "runRecords w (media # rest) s = (thrown, s')" and "running s"
  shows "started s < started s'"
proof -
  obtain t media1 s1 where p: "processMedia w media (s\<lparr>started := Suc (started s)\<rparr>) = (t, media1, s1)"
    by (cases "processMedia w media (s\<lparr>started := Suc (started s)\<rparr>)") auto
  have "frame (s\<lparr>started := Suc (started s)\<rparr>) s1"
    by (rule frame_processMedia[OF p]) simp
  then have s1: "started s1 = Suc (started s)" by (simp add: frame_def)
  define s2 where "s2 = (if cancel_during w (started s) then cancel s1 else s1)"
  have s2: "started s2 = Suc (started s)" using s1 by (simp add: s2_def cancel_def)
  show ?thesis
  proof (cases t)
    case None
    with assms p have "runRecords w rest s2 = (thrown, s')" by (simp add: Let_def s2_def)
    from runRecords_monotone[OF this] s2 show ?thesis by simp
  next
    case (Some msg)
    with assms p have "s' = s2" by (simp add: Let_def s2_def)
    with s2 show ?thesis by simp
  qed
qed

lemma runPages_monotone:
  "runPages w pageSize offset s = (thrown, s') \<Longrightarrow> started s \<le> started s' \<and> set (logs s) \<subseteq> set (logs s')"
proof (induction w pageSize offset s arbitrary: thrown s' rule: runPages.induct)
  case (1 w pageSize offset s)
  obtain t s1 where r: "runRecords w (repositoryFind s offset pageSize) s = (t, s1)"
    by (cases "runRecords w (repositoryFind s offset pageSize) s") auto
  note m = runRecords_monotone[OF r]
  show ?case
  proof (cases "t = None \<and> 0 < length (repositoryFind s offset pageSize)")
    case True
    with "1.prems" r have "runPages w pageSize (offset + pageSize) s1 = (thrown, s')"
      by (subst (asm) runPages.simps) (simp add: Let_def)
    from "1.IH"[of "repositoryFind s offset pageSize" t s1 thrown s'] r True this m
    show ?thesis by auto
  next
    case False
    with "1.prems" r have "s' = s1"
      by (subst (asm) runPages.simps) (auto simp: Let_def split: option.splits if_splits)
    with m show ?thesis by simp
  qed
qed

lemma runPages_starts_first:
  assumes "runPages w pageSize offset s = (thrown, s')" and "running s"
    and "repositoryFind s offset pageSize \<noteq> []"
  shows "started s < started s'"
proof -
  obtain media rest where page: "repositoryFind s offset pageSize = media # rest"
    using assms(3) by (cases "repositoryFind s offset pageSize") auto
  obtain t s1 where r: "runRecords w (media # rest) s = (t, s1)"
    by (cases "runRecords w (media # rest) s") auto
  note first = runRecords_starts_first[OF r assms(2)]
  show ?thesis
  proof (cases t)
    case None
    with assms(1) page r have "runPages w pageSize (offset + pageSize) s1 = (thrown, s')"
      by (subst (asm) runPages.simps) (simp add: Let_def)
    from runPages_monotone[OF this] first show ?thesis by simp
  next
    case (Some msg)
    with assms(1) page r have "s' = s1"
      by (subst (asm) runPages.simps) (simp add: Let_def)
    with first show ?thesis by simp
  qed
qed

lemma running_run: "running (run w s) = False"
  by (simp add: run_def Let_def)

lemma run_init_throws:
  assumes "initPlexClient w (startRun w s) = Throws msg"
  shows "run w s = (logger Info ''Availability sync complete.''
                      (loggerMeta Error ''Failed to complete availability sync.'' (Some msg)
                         (startRun w s)))\<lparr>running := False\<rparr>"
  using assms by (simp add: run_def Let_def)

lemma run_without_client:
  assumes "admin w = None" and "logger_has_warning w" and "plexClient s = None"
  shows "run w s = (logger Info ''Availability sync complete.''
                      (logger Warning ''No admin configured. Availability sync skipped.''
                         (startRun w s)))\<lparr>running := False\<rparr>"
  using assms by (simp add: run_def Let_def initPlexClient_def startRun_def logger_def loggerMeta_def)

section \<open>The claims\<close>

text \<open>
  Claim C10. The claim: with no admin user, \<^verbatim>\<open>run\<close> returns before it loads a record, with
  no error outcome. \<^verbatim>\<open>initPlexClient\<close> reports the missing admin with \<^verbatim>\<open>logger.warning\<close>, where
  every other warning of the file is made with \<^verbatim>\<open>logger.warn\<close>. With a logger that has no
  method \<^verbatim>\<open>warning\<close> the call throws inside the \<^verbatim>\<open>try\<close> block of \<^verbatim>\<open>run\<close>: no record is
  started, nothing is saved, the table is as it was and the guard flag is released, but
  the run ends in the \<^verbatim>\<open>catch\<close> block, which logs a failure at error level.
\<close>

theorem C10_no_admin_ends_in_error_handler:
  assumes "admin w = None" and "\<not> logger_has_warning w"
  shows "started (run w s) = 0 \<and> saves (run w s) = saves s \<and> db (run w s) = db s
         \<and> running (run w s) = False
         \<and> logs (run w s) =
             logs s @ [(Error, ''Failed to complete availability sync.'',
                        Some ''logger.warning is not a function''),
                       (Info, ''Availability sync complete.'', None)]"
proof -
  from assms have "initPlexClient w (startRun w s) = Throws ''logger.warning is not a function''"
    by (simp add: initPlexClient_def)
  then have "run w s = (logger Info ''Availability sync complete.''
                      (loggerMeta Error ''Failed to complete availability sync.''
                         (Some ''logger.warning is not a function'') (startRun w s)))\<lparr>running := False\<rparr>"
    by (rule run_init_throws)
  then show ?thesis
    by (simp add: startRun_def logger_def loggerMeta_def)
qed

text \<open>
  At \<open>noAdminWorld\<close>, with one eligible movie in the table, the run starts no record and
  its log is the failure and the closing message.
\<close>

theorem C10_no_admin_witness:
  "admin noAdminWorld = None \<and> \<not> logger_has_warning noAdminWorld
   \<and> filter whereOptions (db (initialState [movie 1])) = [movie 1]
   \<and> started (run noAdminWorld (initialState [movie 1])) = 0
   \<and> saves (run noAdminWorld (initialState [movie 1])) = []
   \<and> logs (run noAdminWorld (initialState [movie 1])) =
        [(Error, ''Failed to complete availability sync.'', Some ''logger.warning is not a function''),
         (Info, ''Availability sync complete.'', None)]"
proof -
  have h: "admin noAdminWorld = None" "\<not> logger_has_warning noAdminWorld"
    by (simp_all add: noAdminWorld_def goneWorld_def)
  have e: "filter whereOptions (db (initialState [movie 1])) = [movie 1]"
    "saves (initialState [movie 1]) = []" "logs (initialState [movie 1]) = []"
    by (simp_all add: initialState_def whereOptions_def movie_def)
  from C10_no_admin_ends_in_error_handler[OF h, of "initialState [movie 1]"] h e
  show ?thesis by simp
qed

text \<open>
  Claim C7, as amended. \<^verbatim>\<open>run\<close> never reads the guard flag before it sets it: a call made
  while the flag is set does exactly what a call made while the flag is clear does.
\<close>

theorem C7_run_ignores_running_flag:
  "run w (s\<lparr>running := True\<rparr>) = run w (s\<lparr>running := False\<rparr>)"
  by (simp add: run_def startRun_def)

text \<open>
  Claim C7 as stated fails: called in \<open>busyState\<close>, where the guard flag is set, \<^verbatim>\<open>run\<close>
  starts two records and marks both rows deleted.
\<close>

theorem C7_counterexample:
  "running busyState \<and> started (run goneWorld busyState) = 2
   \<and> map status (db busyState) = [AVAILABLE, AVAILABLE]
   \<and> map status (db (run goneWorld busyState)) = [DELETED, DELETED]"
  by (simp add: engine_defs example_defs)

lemma runPages_not_running:
  assumes "\<not> running s"
  shows "runPages w pageSize offset s =
           (if repositoryFind s offset pageSize = [] then (None, s) else (Some ''Job aborted'', s))"
proof (cases "repositoryFind s offset pageSize")
  case Nil
  then show ?thesis by (subst runPages.simps) (simp add: Let_def)
next
  case (Cons media rest)
  with assms show ?thesis by (subst runPages.simps) (simp add: Let_def)
qed

lemma run_after_error:
  assumes "initPlexClient w (startRun w s) = Returns s0" and "plexClient s0 \<noteq> None"
    and "runPages w 50 0 (logger Info ''Starting availability sync...'' s0) = (Some msg, s3)"
  shows "logs (run w s) = logs s3 @ [(Error, ''Failed to complete availability sync.'', Some msg),
                                     (Info, ''Availability sync complete.'', None)]"
  using assms by (auto simp: run_def Let_def logger_def loggerMeta_def)

text \<open>
  Claim C8, as amended. The guard flag is clear after every run. When \<^verbatim>\<open>cancel()\<close> arrives
  while a record is in flight and another record follows in the page, the record in
  flight is processed to its end and the loop is left with the error \<^verbatim>\<open>Job aborted\<close> before
  the next record starts. With the flag clear at a page boundary the loop is left with
  that error if the next page has a record, and ends normally if it has none. An error
  that leaves the loop, this one included, is logged at error level by the \<^verbatim>\<open>catch\<close> block
  of \<^verbatim>\<open>run\<close>.
\<close>

theorem C8_cancel_ends_run_through_error_handler:
  "running (run w s) = False
   \<and> (running s1 \<and> cancel_during w (started s1)
        \<and> processMedia w media (s1\<lparr>started := Suc (started s1)\<rparr>) = (None, media', s2)
      \<longrightarrow> runRecords w (media # next # rest) s1 = (Some ''Job aborted'', cancel s2))
   \<and> (\<not> running s1 \<longrightarrow>
        runPages w pageSize offset s1 =
          (if repositoryFind s1 offset pageSize = [] then (None, s1) else (Some ''Job aborted'', s1)))
   \<and> (initPlexClient w (startRun w s) = Returns s0 \<and> plexClient s0 \<noteq> None
        \<and> runPages w 50 0 (logger Info ''Starting availability sync...'' s0) = (Some msg, s3)
      \<longrightarrow> logs (run w s) = logs s3 @ [(Error, ''Failed to complete availability sync.'', Some msg),
                                         (Info, ''Availability sync complete.'', None)])"
proof (intro conjI impI)
  show "running (run w s) = False" by (rule running_run)
next
  assume "running s1 \<and> cancel_during w (started s1)
        \<and> processMedia w media (s1\<lparr>started := Suc (started s1)\<rparr>) = (None, media', s2)"
  then show "runRecords w (media # next # rest) s1 = (Some ''Job aborted'', cancel s2)"
    by (simp add: Let_def cancel_def)
next
  assume "\<not> running s1"
  then show "runPages w pageSize offset s1 =
          (if repositoryFind s1 offset pageSize = [] then (None, s1) else (Some ''Job aborted'', s1))"
    by (rule runPages_not_running)
next
  assume "initPlexClient w (startRun w s) = Returns s0 \<and> plexClient s0 \<noteq> None
        \<and> runPages w 50 0 (logger Info ''Starting availability sync...'' s0) = (Some msg, s3)"
  then show "logs (run w s) = logs s3 @ [(Error, ''Failed to complete availability sync.'', Some msg),
                                         (Info, ''Availability sync complete.'', None)]"
    using run_after_error by blast
qed

text \<open>The theorem at \<open>cancelWorld\<close>, where \<^verbatim>\<open>cancel()\<close> arrives during the first of two movies.\<close>

theorem C8_witness:
  "running (syncState cancelWorld [movie 1, movie 2]) \<and> cancel_during cancelWorld (started (syncState cancelWorld [movie 1, movie 2]))
   \<and> fst (processMedia cancelWorld (movie 1) ((syncState cancelWorld [movie 1, movie 2])\<lparr>started := 1\<rparr>)) = None
   \<and> runRecords cancelWorld [movie 1, movie 2] (syncState cancelWorld [movie 1, movie 2]) =
        (Some ''Job aborted'',
         cancel (snd (snd (processMedia cancelWorld (movie 1) ((syncState cancelWorld [movie 1, movie 2])\<lparr>started := 1\<rparr>)))))
   \<and> running (run cancelWorld (initialState [movie 1, movie 2])) = False"
proof -
  define p where "p = processMedia cancelWorld (movie 1) ((syncState cancelWorld [movie 1, movie 2])\<lparr>started := 1\<rparr>)"
  have h: "running (syncState cancelWorld [movie 1, movie 2])" "cancel_during cancelWorld (started (syncState cancelWorld [movie 1, movie 2]))"
    "started (syncState cancelWorld [movie 1, movie 2]) = 0"
    by (simp_all add: engine_defs example_defs syncState_def)
  have none: "fst p = None"
    unfolding p_def by (simp add: engine_defs example_defs syncState_def)
  then have eq: "processMedia cancelWorld (movie 1) ((syncState cancelWorld [movie 1, movie 2])\<lparr>started := Suc (started (syncState cancelWorld [movie 1, movie 2]))\<rparr>)
      = (None, fst (snd p), snd (snd p))"
    using h(3) by (simp add: p_def prod_eq_iff)
  note T = C8_cancel_ends_run_through_error_handler[of cancelWorld "initialState [movie 1, movie 2]"
      "syncState cancelWorld [movie 1, movie 2]" "movie 1" "fst (snd p)" "snd (snd p)" "movie 2" "[]"]
  from T h(1,2) eq have "runRecords cancelWorld [movie 1, movie 2] (syncState cancelWorld [movie 1, movie 2])
      = (Some ''Job aborted'', cancel (snd (snd p)))"
    by blast
  moreover from T have "running (run cancelWorld (initialState [movie 1, movie 2])) = False"
    by blast
  ultimately show ?thesis using h(1,2) none by (simp add: p_def)
qed

text \<open>
  Claim C8 as stated fails: in the run at \<open>cancelWorld\<close> the abort is reported by
  \<^verbatim>\<open>logger.error\<close> as a failure to complete the sync.
\<close>

theorem C8_counterexample:
  "cancel_during cancelWorld 0
   \<and> (Error, ''Failed to complete availability sync.'', Some ''Job aborted'')
        \<in> set (logs (run cancelWorld (initialState [movie 1, movie 2])))
   \<and> map status (db (run cancelWorld (initialState [movie 1, movie 2]))) = [DELETED, AVAILABLE]"
  by (simp add: engine_defs example_defs)

text \<open>
  Claim C9. The claim: a failure while one record is processed is caught and the run goes
  on with the next record. The \<^verbatim>\<open>save\<close> at the end of the loop body is not inside a \<^verbatim>\<open>try\<close>
  of its own, unlike the saves of \<^verbatim>\<open>mediaUpdater\<close> and \<^verbatim>\<open>seasonExistsInSonarr\<close>: when it
  throws, the loop is left and no record after this one is started.
\<close>

theorem C9_save_failure_ends_run:
  assumes "running s"
    and "fst (processMedia w media (s\<lparr>started := Suc (started s)\<rparr>)) = Some msg"
  shows "fst (runRecords w (media # rest) s) = Some msg
         \<and> started (snd (runRecords w (media # rest) s)) = Suc (started s)"
proof -
  obtain media1 s1 where p: "processMedia w media (s\<lparr>started := Suc (started s)\<rparr>) = (Some msg, media1, s1)"
    using assms(2) by (cases "processMedia w media (s\<lparr>started := Suc (started s)\<rparr>)") auto
  have "frame (s\<lparr>started := Suc (started s)\<rparr>) s1"
    by (rule frame_processMedia[OF p]) simp
  then have "started s1 = Suc (started s)" by (simp add: frame_def)
  with assms(1) p show ?thesis by (simp add: Let_def cancel_def)
qed

text \<open>
  At \<open>failWorld\<close>, where the repository rejects every save, the run over two missing
  movies starts one record and ends in the \<^verbatim>\<open>catch\<close> block.
\<close>

theorem C9_witness:
  "running (syncState failWorld [movie 1, movie 2])
   \<and> fst (processMedia failWorld (movie 1) ((syncState failWorld [movie 1, movie 2])\<lparr>started := Suc (started (syncState failWorld [movie 1, movie 2]))\<rparr>))
        = Some ''database is locked''
   \<and> fst (runRecords failWorld [movie 1, movie 2] (syncState failWorld [movie 1, movie 2])) = Some ''database is locked''
   \<and> started (snd (runRecords failWorld [movie 1, movie 2] (syncState failWorld [movie 1, movie 2]))) = 1
   \<and> started (run failWorld (initialState [movie 1, movie 2])) = 1
   \<and> (Error, ''Failed to complete availability sync.'', Some ''database is locked'')
        \<in> set (logs (run failWorld (initialState [movie 1, movie 2])))"
proof -
  have h: "running (syncState failWorld [movie 1, movie 2])"
    "fst (processMedia failWorld (movie 1) ((syncState failWorld [movie 1, movie 2])\<lparr>started := Suc (started (syncState failWorld [movie 1, movie 2]))\<rparr>))
        = Some ''database is locked''"
    by (simp_all add: engine_defs example_defs syncState_def)
  have s: "started (syncState failWorld [movie 1, movie 2]) = 0"
    by (simp add: engine_defs example_defs syncState_def)
  have r: "started (run failWorld (initialState [movie 1, movie 2])) = 1"
    "(Error, ''Failed to complete availability sync.'', Some ''database is locked'')
        \<in> set (logs (run failWorld (initialState [movie 1, movie 2])))"
    by (simp_all add: engine_defs example_defs)
  from h r s C9_save_failure_ends_run[OF h, of "[movie 2]"] show ?thesis by simp
qed

text \<open>
  Claim C1. Whatever the collaborators answer, processing a record leaves each status of
  the record and of each of its seasons as it was or sets it to \<open>DELETED\<close> or \<open>UNKNOWN\<close>; the
  one other transition is that of a status of the record from \<open>AVAILABLE\<close> to
  \<open>PARTIALLY_AVAILABLE\<close>. No season is added or removed.
\<close>

theorem C1_no_upgrade:
  assumes "processMedia w media s = (thrown, media', s')"
  shows "noUpgrade (status media) (status media') \<and> noUpgrade (status4k media) (status4k media')
         \<and> length (seasonHeap media') = length (seasonHeap media)
         \<and> (\<forall>i < length (seasonHeap media).
               seasonNoUpgrade (seasonHeap media ! i) (seasonHeap media' ! i))"
proof -
  have "mediaNoUpgrade media media'"
    by (rule noUpgrade_processMedia[OF assms]) simp
  then show ?thesis
    by (auto simp: mediaNoUpgrade_def list_all2_conv_all_nth)
qed

text \<open>At \<open>lostShow\<close>, whose 4k status goes from \<open>AVAILABLE\<close> to \<open>DELETED\<close>.\<close>

theorem C1_witness:
  "status4k lostShow = AVAILABLE
   \<and> status4k (fst (snd (processMedia goneWorld lostShow (syncState goneWorld [lostShow])))) = DELETED
   \<and> noUpgrade (status4k lostShow)
        (status4k (fst (snd (processMedia goneWorld lostShow (syncState goneWorld [lostShow])))))
   \<and> seasonNoUpgrade (seasonHeap lostShow ! 0)
        (seasonHeap (fst (snd (processMedia goneWorld lostShow (syncState goneWorld [lostShow])))) ! 0)"
proof -
  define p where "p = processMedia goneWorld lostShow (syncState goneWorld [lostShow])"
  have eq: "processMedia goneWorld lostShow (syncState goneWorld [lostShow]) = (fst p, fst (snd p), snd (snd p))"
    by (simp add: p_def)
  have "status4k lostShow = AVAILABLE" "0 < length (seasonHeap lostShow)"
    by (simp_all add: lostShow_def)
  moreover have "status4k (fst (snd p)) = DELETED"
    unfolding p_def by (simp add: engine_defs example_defs)
  ultimately show ?thesis
    using C1_no_upgrade[OF eq] by (simp add: p_def)
qed

text \<open>
  Claim C2. The claim: a status that is \<open>DELETED\<close> or \<open>UNKNOWN\<close> is left as it is. When the
  title is gone from every instance (lines 93 to 101), or the season is (lines 113 to 121),
  the loop of \<^verbatim>\<open>run\<close> sets both statuses of the season to \<open>DELETED\<close> unless both are
  \<open>DELETED\<close> or both are \<open>UNKNOWN\<close>: a status \<open>UNKNOWN\<close> beside a status that is not \<open>UNKNOWN\<close>
  becomes \<open>DELETED\<close>. The statement for the record itself, six lines above, keeps
  \<open>UNKNOWN\<close>.
\<close>

theorem C2_unknown_season_variant_overwritten:
  assumes "seasonStep w mediaExistsFlag (d, media, s) r = (d', media', s')"
    and "r < length (seasonHeap media)"
    and "\<not> mediaExistsFlag \<or> fst (seasonExists w media r s) = False"
  shows "(status (seasonHeap media ! r) = UNKNOWN \<and> status4k (seasonHeap media ! r) \<noteq> UNKNOWN
            \<longrightarrow> status (seasonHeap media' ! r) = DELETED)
         \<and> (status4k (seasonHeap media ! r) = UNKNOWN \<and> status (seasonHeap media ! r) \<noteq> UNKNOWN
            \<longrightarrow> status4k (seasonHeap media' ! r) = DELETED)"
proof (intro conjI impI)
  assume "status (seasonHeap media ! r) = UNKNOWN \<and> status4k (seasonHeap media ! r) \<noteq> UNKNOWN"
  then have "notBothTerminal (seasonHeap media ! r)" by (simp add: notBothTerminal_def)
  from seasonStep_deletes_both[OF assms(1,3) this] assms(2)
  show "status (seasonHeap media' ! r) = DELETED" by (simp add: deleteSeason_def)
next
  assume "status4k (seasonHeap media ! r) = UNKNOWN \<and> status (seasonHeap media ! r) \<noteq> UNKNOWN"
  then have "notBothTerminal (seasonHeap media ! r)" by (simp add: notBothTerminal_def)
  from seasonStep_deletes_both[OF assms(1,3) this] assms(2)
  show "status4k (seasonHeap media' ! r) = DELETED" by (simp add: deleteSeason_def)
qed

text \<open>
  At \<open>lostShow\<close>, available in 4k only: the standard status of its season is \<open>UNKNOWN\<close>
  before the run and \<open>DELETED\<close> after it.
\<close>

theorem C2_witness:
  "status (seasonHeap lostShow ! 0) = UNKNOWN \<and> status4k (seasonHeap lostShow ! 0) = AVAILABLE
   \<and> status (seasonHeap (fst (snd (seasonStep goneWorld False
            (False, lostShow, syncState goneWorld [lostShow]) 0))) ! 0) = DELETED
   \<and> map (\<lambda>row. map status (seasonHeap row)) (db (initialState [lostShow])) = [[UNKNOWN]]
   \<and> map (\<lambda>row. map status (seasonHeap row)) (db (run goneWorld (initialState [lostShow])))
        = [[DELETED]]"
proof -
  define p where "p = seasonStep goneWorld False (False, lostShow, syncState goneWorld [lostShow]) 0"
  have eq: "seasonStep goneWorld False (False, lostShow, syncState goneWorld [lostShow]) 0
              = (fst p, fst (snd p), snd (snd p))"
    by (simp add: p_def)
  have h: "0 < length (seasonHeap lostShow)" "status (seasonHeap lostShow ! 0) = UNKNOWN"
    "status4k (seasonHeap lostShow ! 0) = AVAILABLE"
    by (simp_all add: lostShow_def)
  have r: "map (\<lambda>row. map status (seasonHeap row)) (db (initialState [lostShow])) = [[UNKNOWN]]"
    "map (\<lambda>row. map status (seasonHeap row)) (db (run goneWorld (initialState [lostShow])))
        = [[DELETED]]"
    by (simp_all add: engine_defs example_defs)
  from C2_unknown_season_variant_overwritten[OF eq h(1)] h(2,3)
  have "status (seasonHeap (fst (snd p)) ! 0) = DELETED" by simp
  with h r show ?thesis by (simp add: p_def)
qed



text \<open>
  Claim C3, as amended. In \<^verbatim>\<open>src/server/lib/availabilitySync.ts\<close> no request is looked at.
  Across the processing of a record the four linkage columns of a variant are kept or
  all cleared; they are cleared when the status of the variant becomes \<open>DELETED\<close>; and when
  they change, the status of the variant is \<open>DELETED\<close>, or it was \<open>UNKNOWN\<close>, still is, and the
  other variant is \<open>DELETED\<close>: the block of \<^verbatim>\<open>run\<close> for a title that is gone clears the columns
  of both variants and leaves a status \<open>UNKNOWN\<close> as it is. Its \<^verbatim>\<open>mediaUpdater\<close> always clears
  the columns of the variant it deletes and does not touch the other variant.

  In \<^verbatim>\<open>src/unnamed/part_001\<close> a linkage column or the status \<open>DELETED\<close> of a record is assigned
  in \<^verbatim>\<open>mediaUpdater\<close> and in the block of \<^verbatim>\<open>run\<close> for a title that is gone, and nowhere else.
  \<^verbatim>\<open>mediaUpdater\<close> sets the status of its variant to \<open>DELETED\<close> and clears the linkage columns
  of that variant, unless the record is a series and an approved request for the record
  and the variant exists: then the columns keep their values. For a movie they are
  cleared whatever the requests are. The block of \<^verbatim>\<open>run\<close> does the same for each variant
  whose status is \<open>AVAILABLE\<close> or \<open>PARTIALLY_AVAILABLE\<close> and leaves the status and the columns
  of any other variant as they are. In both, the other variant is not touched.
\<close>

theorem C3_linkage_on_deletion:
  "(processMedia w media s = (thrown, media', s') \<longrightarrow>
      (linkage is4kFlag media' = linkage is4kFlag media
         \<or> linkage is4kFlag media' = (None, None, None, None))
      \<and> (variantStatus is4kFlag media \<noteq> DELETED \<and> variantStatus is4kFlag media' = DELETED
           \<longrightarrow> linkage is4kFlag media' = (None, None, None, None))
      \<and> (linkage is4kFlag media' \<noteq> linkage is4kFlag media
           \<longrightarrow> variantStatus is4kFlag media' = DELETED
               \<or> variantStatus is4kFlag media = UNKNOWN \<and> variantStatus is4kFlag media' = UNKNOWN
                 \<and> variantStatus (\<not> is4kFlag) media' = DELETED))
   \<and> (mediaUpdater w media is4kFlag s = (media', s') \<longrightarrow>
        variantStatus is4kFlag media' = DELETED
        \<and> linkage is4kFlag media' = (None, None, None, None)
        \<and> variantStatus (\<not> is4kFlag) media' = variantStatus (\<not> is4kFlag) media
        \<and> linkage (\<not> is4kFlag) media' = linkage (\<not> is4kFlag) media)
   \<and> (mediaUpdater_part_001 w media is4kFlag s = (media', s') \<longrightarrow>
      variantStatus is4kFlag media' = DELETED
      \<and> linkage is4kFlag media' =
          (if mediaType media = TV \<and> findMediaStatus w media is4kFlag
           then linkage is4kFlag media else (None, None, None, None))
      \<and> variantStatus (\<not> is4kFlag) media' = variantStatus (\<not> is4kFlag) media
      \<and> linkage (\<not> is4kFlag) media' = linkage (\<not> is4kFlag) media)
   \<and> (deleteMissingMedia_part_001 w media s = (media', s') \<longrightarrow>
        (if variantStatus is4kFlag media = AVAILABLE \<or> variantStatus is4kFlag media = PARTIALLY_AVAILABLE
         then variantStatus is4kFlag media' = DELETED
              \<and> linkage is4kFlag media' =
                  (if mediaType media = TV \<and> findMediaStatus w media is4kFlag
                   then linkage is4kFlag media else (None, None, None, None))
         else variantStatus is4kFlag media' = variantStatus is4kFlag media
              \<and> linkage is4kFlag media' = linkage is4kFlag media))"
  using linkage_processMedia[of w media s thrown media' s' is4kFlag]
    linkage_mediaUpdater_part_001[of w media is4kFlag s media' s']
    linkage_deleteMissingMedia_part_001[of w media s media' s' is4kFlag]
    linkage_mediaUpdater[of w media is4kFlag s media' s']
  by blast

text \<open>
  At \<open>requestWorld\<close> the 4k variant of \<open>lostShow\<close>, a series with an approved 4k request, is
  set to \<open>DELETED\<close> by the \<^verbatim>\<open>mediaUpdater\<close> of \<^verbatim>\<open>src/unnamed/part_001\<close> and keeps its linkage;
  processed at \<open>goneWorld\<close> by the loop of \<^verbatim>\<open>src/server/lib/availabilitySync.ts\<close>, the variant
  is set to \<open>DELETED\<close> and its linkage is cleared.
\<close>

theorem C3_witness:
  "mediaType lostShow = TV \<and> findMediaStatus requestWorld lostShow True
   \<and> linkage True lostShow = (Some 0, Some 7, Some ''show'', Some ''20'')
   \<and> variantStatus True (fst (mediaUpdater_part_001 requestWorld lostShow True
                                  (syncState requestWorld [lostShow]))) = DELETED
   \<and> linkage True (fst (mediaUpdater_part_001 requestWorld lostShow True
                            (syncState requestWorld [lostShow])))
        = (Some 0, Some 7, Some ''show'', Some ''20'')
   \<and> variantStatus True lostShow = AVAILABLE
   \<and> variantStatus True (fst (snd (processMedia goneWorld lostShow (syncState goneWorld [lostShow]))))
        = DELETED
   \<and> linkage True (fst (snd (processMedia goneWorld lostShow (syncState goneWorld [lostShow]))))
        = (None, None, None, None)"
proof -
  define p where "p = mediaUpdater_part_001 requestWorld lostShow True (syncState requestWorld [lostShow])"
  define q where "q = processMedia goneWorld lostShow (syncState goneWorld [lostShow])"
  have eq: "mediaUpdater_part_001 requestWorld lostShow True (syncState requestWorld [lostShow])
              = (fst p, snd p)"
    by (simp add: p_def)
  have eq2: "processMedia goneWorld lostShow (syncState goneWorld [lostShow])
              = (fst q, fst (snd q), snd (snd q))"
    by (simp add: q_def)
  have h: "mediaType lostShow = TV" "findMediaStatus requestWorld lostShow True"
    "linkage True lostShow = (Some 0, Some 7, Some ''show'', Some ''20'')"
    "variantStatus True lostShow = AVAILABLE"
    by (simp_all add: findMediaStatus_def requestWorld_def goneWorld_def lostShow_def linkage_def
          variantStatus_def)
  have g: "variantStatus True (fst (snd q)) = DELETED"
    unfolding q_def by (simp add: engine_defs example_defs variantStatus_def)
  from C3_linkage_on_deletion[where w=requestWorld and media=lostShow and is4kFlag=True
      and s="syncState requestWorld [lostShow]" and media'="fst p" and s'="snd p"] eq h
  have a: "variantStatus True (fst p) = DELETED"
    "linkage True (fst p) = (Some 0, Some 7, Some ''show'', Some ''20'')"
    by simp_all
  from C3_linkage_on_deletion[where w=goneWorld and media=lostShow and is4kFlag=True
      and s="syncState goneWorld [lostShow]" and thrown="fst q" and media'="fst (snd q)"
      and s'="snd (snd q)"] eq2 h g
  have b: "linkage True (fst (snd q)) = (None, None, None, None)"
    by simp
  from a b h g show ?thesis by (simp add: p_def q_def)
qed

text \<open>
  Claim C3 as stated fails in three ways. In \<^verbatim>\<open>src/unnamed/part_001\<close>, at \<open>requestWorld\<close>, an
  approved request targets the standard variant of the movie, and \<^verbatim>\<open>mediaUpdater\<close> still
  clears the linkage columns of that variant. In \<^verbatim>\<open>src/server/lib/availabilitySync.ts\<close>,
  at \<open>requestWorld\<close>, an approved request targets the 4k variant of \<open>lostShow\<close>, and the
  linkage columns of that variant are cleared; and at \<open>goneWorld\<close> the 4k status of
  \<open>strayMovie\<close> is \<open>UNKNOWN\<close> before and after, and its 4k linkage columns are cleared.
\<close>

theorem C3_counterexample:
  "mediaType (movie 1) = MOVIE \<and> findMediaStatus requestWorld (movie 1) False
   \<and> linkage False (movie 1) = (Some 0, Some 5, Some ''slug'', Some ''10'')
   \<and> variantStatus False (fst (mediaUpdater_part_001 requestWorld (movie 1) False
                                   (syncState requestWorld [movie 1]))) = DELETED
   \<and> linkage False (fst (mediaUpdater_part_001 requestWorld (movie 1) False
                             (syncState requestWorld [movie 1])))
        = (None, None, None, None)
   \<and> findMediaStatus requestWorld lostShow True
   \<and> linkage True lostShow = (Some 0, Some 7, Some ''show'', Some ''20'')
   \<and> variantStatus True (fst (snd (processMedia requestWorld lostShow
                                      (syncState requestWorld [lostShow])))) = DELETED
   \<and> linkage True (fst (snd (processMedia requestWorld lostShow
                                (syncState requestWorld [lostShow]))))
        = (None, None, None, None)
   \<and> variantStatus True strayMovie = UNKNOWN
   \<and> linkage True strayMovie = (Some 1, Some 9, None, None)
   \<and> variantStatus True (fst (snd (processMedia goneWorld strayMovie
                                      (syncState goneWorld [strayMovie])))) = UNKNOWN
   \<and> linkage True (fst (snd (processMedia goneWorld strayMovie
                                (syncState goneWorld [strayMovie]))))
        = (None, None, None, None)"
  by (simp add: engine_defs example_defs mediaUpdater_part_001_def findMediaStatus_def
        linkage_def variantStatus_def keepIf_def)

text \<open>
  Claim C6, as amended. For a record that passes the eligibility filter, the record held
  in memory after processing, with its columns, the columns of its seasons and the array
  \<^verbatim>\<open>seasons\<close>, is the record as loaded exactly when no save was issued for it; after a
  save, the array \<^verbatim>\<open>seasons\<close> is longer or a status of the record that was not \<open>DELETED\<close> is
  \<open>DELETED\<close>.
\<close>

theorem C6_saved_exactly_when_changed:
  assumes "processMedia w media s = (thrown, media', s')" and "whereOptions media"
  shows "(media' = media) = (length (saves s') = length (saves s))
         \<and> (length (saves s') \<noteq> length (saves s) \<longrightarrow>
              length (seasons media) < length (seasons media')
              \<or> status media \<noteq> DELETED \<and> status media' = DELETED
              \<or> status4k media \<noteq> DELETED \<and> status4k media' = DELETED)"
proof -
  have mono: "length (saves s) \<le> length (saves s')"
    using frame_processMedia[OF assms(1) frame_refl] by (simp add: frame_def)
  have a: "length (saves s') = length (saves s) \<Longrightarrow> media' = media"
    by (rule unsaved_processMedia[OF assms(1)])
  have b: "length (saves s') \<noteq> length (saves s) \<Longrightarrow> grew media media'"
    using saved_processMedia[OF assms] mono by simp
  from a b grew_differs[of media media'] show ?thesis
    by (auto simp: grew_def)
qed

text \<open>At \<open>plexWorld\<close> the movie is found in Plex: no save, and the record is as loaded.\<close>

theorem C6_witness:
  "whereOptions (movie 1)
   \<and> length (saves (snd (snd (processMedia plexWorld (movie 1) (syncState plexWorld [movie 1])))))
       = length (saves (syncState plexWorld [movie 1]))
   \<and> fst (snd (processMedia plexWorld (movie 1) (syncState plexWorld [movie 1]))) = movie 1"
proof -
  define p where "p = processMedia plexWorld (movie 1) (syncState plexWorld [movie 1])"
  have eq: "processMedia plexWorld (movie 1) (syncState plexWorld [movie 1]) = (fst p, fst (snd p), snd (snd p))"
    by (simp add: p_def)
  have h: "whereOptions (movie 1)" by (simp add: whereOptions_def movie_def)
  have l: "length (saves (snd (snd p))) = length (saves (syncState plexWorld [movie 1]))"
    unfolding p_def by (simp add: engine_defs example_defs)
  from C6_saved_exactly_when_changed[OF eq h] l have "fst (snd p) = movie 1" by simp
  with h l show ?thesis by (simp add: p_def)
qed

text \<open>
  Claim C6 as stated fails: processing \<open>settledShow\<close> at \<open>plexWorld\<close> changes no column of the
  record or of its seasons, only the array \<^verbatim>\<open>seasons\<close> gets longer, and two saves are issued;
  a run over \<open>halfShow\<close> leaves \<open>settledShow\<close> in the table, and a second run with the same
  answers of the collaborators issues two more saves and leaves the table as it is.
\<close>

theorem C6_counterexample:
  "whereOptions settledShow
   \<and> (fst (snd (processMedia plexWorld settledShow (syncState plexWorld [settledShow]))))
        \<lparr>seasons := seasons settledShow\<rparr> = settledShow
   \<and> length (saves (syncState plexWorld [settledShow])) = 0
   \<and> length (saves (snd (snd (processMedia plexWorld settledShow (syncState plexWorld [settledShow])))))
       = 2
   \<and> map loadEntity (db (run plexWorld (initialState [halfShow]))) = [settledShow]
   \<and> map loadEntity (db (run plexWorld (run plexWorld (initialState [halfShow])))) = [settledShow]
   \<and> length (saves (run plexWorld (run plexWorld (initialState [halfShow]))))
       = length (saves (run plexWorld (initialState [halfShow]))) + 2"
  by (simp add: engine_defs example_defs)

text \<open>
  Claim C5, as amended. \<^verbatim>\<open>seasonExists\<close> judges the standard variant of a season existent
  exactly when the child listing of the standard rating key, cached or fetched, holds a
  child with the number of the season, or no enabled standard Sonarr server speaks against
  the season; the 4k variant likewise, where the 4k listing is read only if reading the
  standard listing did not fail. A server speaks against the season when its season
  statistics cannot be read or hold the season with an episode-file count of zero: a
  season that the statistics do not hold, or hold without a count, is judged existent.
  \<^verbatim>\<open>seasonExists\<close> returns whether one of the two variants is judged existent, and it sets
  the status of a variant of the season to \<open>DELETED\<close> when that variant is judged gone, the
  other one existent, and the status is neither \<open>DELETED\<close> nor \<open>UNKNOWN\<close>. The ids of the
  enabled servers are taken to be distinct.
\<close>

theorem C5_season_existence:
  assumes "distinct (map serverId (sonarrServers s))"
  shows "seasonJudgedExistent w media r s =
           (plexListsSeason w (seasonHeap media ! r) (ratingKey media) s
              \<or> (\<forall>server \<in> set (sonarrServers s). \<not> is4k server \<longrightarrow>
                    \<not> serverDenies w media (seasonHeap media ! r) (sonarrSeasonsCache s) server),
            (\<not> plexFails w (ratingKey media) s
                \<and> plexListsSeason w (seasonHeap media ! r) (ratingKey4k media) s)
              \<or> (\<forall>server \<in> set (sonarrServers s). is4k server \<longrightarrow>
                    \<not> serverDenies w media (seasonHeap media ! r) (sonarrSeasonsCache s) server))
       \<and> fst (seasonExists w media r s)
           = (fst (seasonJudgedExistent w media r s) \<or> snd (seasonJudgedExistent w media r s))
       \<and> seasonHeap (fst (snd (seasonExists w media r s))) =
           (if \<not> fst (seasonJudgedExistent w media r s) \<and> snd (seasonJudgedExistent w media r s)
                 \<and> status (seasonHeap media ! r) \<noteq> DELETED
                 \<and> status (seasonHeap media ! r) \<noteq> UNKNOWN
            then (seasonHeap media)[r := (seasonHeap media ! r)\<lparr>status := DELETED\<rparr>]
            else if fst (seasonJudgedExistent w media r s) \<and> \<not> snd (seasonJudgedExistent w media r s)
                 \<and> status4k (seasonHeap media ! r) \<noteq> DELETED
                 \<and> status4k (seasonHeap media ! r) \<noteq> UNKNOWN
            then (seasonHeap media)[r := (seasonHeap media ! r)\<lparr>status4k := DELETED\<rparr>]
            else seasonHeap media)"
proof -
  have j: "seasonJudgedExistent w media r s
             = (fst (seasonJudgedExistent w media r s), snd (seasonJudgedExistent w media r s))"
    by simp
  from seasonJudgedExistent_flags[OF assms, of w media r] seasonExists_judged[of w media r s]
    seasonExists_removes[OF j]
  show ?thesis by blast
qed

text \<open>
  At \<open>plex4kWorld\<close> the first season of \<open>fullShow\<close> is listed for the 4k rating key only and
  the standard Sonarr server reports it without files: it is judged gone in the standard
  variant and existent in 4k.
\<close>

theorem C5_witness:
  "distinct (map serverId (sonarrServers (syncState plex4kWorld [fullShow])))
   \<and> \<not> plexListsSeason plex4kWorld (seasonHeap fullShow ! 0) (ratingKey fullShow)
         (syncState plex4kWorld [fullShow])
   \<and> serverDenies plex4kWorld fullShow (seasonHeap fullShow ! 0)
         (sonarrSeasonsCache (syncState plex4kWorld [fullShow])) serverStd
   \<and> plexListsSeason plex4kWorld (seasonHeap fullShow ! 0) (ratingKey4k fullShow)
         (syncState plex4kWorld [fullShow])
   \<and> seasonJudgedExistent plex4kWorld fullShow 0 (syncState plex4kWorld [fullShow]) = (False, True)
   \<and> fst (seasonExists plex4kWorld fullShow 0 (syncState plex4kWorld [fullShow]))"
proof -
  define st where "st = syncState plex4kWorld [fullShow]"
  have d: "distinct (map serverId (sonarrServers st))"
    by (simp add: st_def engine_defs example_defs)
  have servers: "serverStd \<in> set (sonarrServers st)" "\<not> is4k serverStd"
    by (simp_all add: st_def engine_defs example_defs)
  have plex: "\<not> plexListsSeason plex4kWorld (seasonHeap fullShow ! 0) (ratingKey fullShow) st"
    by (simp add: st_def engine_defs example_defs plexListsSeason_def)
  have plex4k: "plexListsSeason plex4kWorld (seasonHeap fullShow ! 0) (ratingKey4k fullShow) st"
    by (simp add: st_def engine_defs example_defs plexListsSeason_def)
  have reads: "\<not> plexFails plex4kWorld (ratingKey fullShow) st"
    by (simp add: st_def engine_defs example_defs plexFails_def)
  have denies: "serverDenies plex4kWorld fullShow (seasonHeap fullShow ! 0) (sonarrSeasonsCache st) serverStd"
    by (simp add: st_def engine_defs example_defs serverDenies_def seasonsFor_def)
  from C5_season_existence[OF d, of plex4kWorld fullShow 0] servers plex plex4k reads denies
  have "seasonJudgedExistent plex4kWorld fullShow 0 st = (False, True)
        \<and> fst (seasonExists plex4kWorld fullShow 0 st)"
    by auto
  with d plex plex4k denies show ?thesis by (simp add: st_def)
qed

text \<open>
  Claim C5 as stated fails: at \<open>sparseWorld\<close> the series \<open>fullShow\<close> exists, Plex lists no
  child with the number of its first season, and the statistics of no Sonarr server show
  a file for that season; the season is judged existent in both variants, and the record
  is left as it is.
\<close>

theorem C5_counterexample:
  "fst (mediaExists sparseWorld fullShow (syncState sparseWorld [fullShow]))
   \<and> seasonJudgedExistent sparseWorld fullShow 0 (syncState sparseWorld [fullShow]) = (True, True)
   \<and> \<not> plexListsSeason sparseWorld (seasonHeap fullShow ! 0) (ratingKey fullShow)
         (syncState sparseWorld [fullShow])
   \<and> \<not> plexListsSeason sparseWorld (seasonHeap fullShow ! 0) (ratingKey4k fullShow)
         (syncState sparseWorld [fullShow])
   \<and> \<not> statisticsShowFiles sparseWorld fullShow (seasonHeap fullShow ! 0) False
         (syncState sparseWorld [fullShow])
   \<and> \<not> statisticsShowFiles sparseWorld fullShow (seasonHeap fullShow ! 0) True
         (syncState sparseWorld [fullShow])
   \<and> fst (snd (processMedia sparseWorld fullShow (syncState sparseWorld [fullShow]))) = fullShow
   \<and> saves (snd (snd (processMedia sparseWorld fullShow (syncState sparseWorld [fullShow])))) = []"
  by (simp add: engine_defs example_defs seasonJudgedExistent_def plexListsSeason_def
        statisticsShowFiles_def seasonsFor_def)

end
